(* ===== verification/Prelude_MV.thy ===== *)
theory Prelude_MV
  imports Main "HOL-Library.Monad_Syntax" "HOL-Library.Word"
begin

text \<open>
  Shared vocabulary of the development: the machine integer types, partial results
  (an \<open>option\<close> whose \<open>None\<close> is undefined behaviour of the C++ code, such as
  reading a component an entity does not have), and the generic list, option and map
  lemmas the component theories use.
\<close>

section \<open>Machine integers\<close>

type_synonym u8 = "8 word"
type_synonym u16 = "16 word"
type_synonym u32 = "32 word"
type_synonym u64 = "64 word"

text \<open>Facts that rewrite a model operation to its meaning, for \<open>simp add:\<close>.\<close>

named_theorems mv_simps
named_theorems mv_intros

section \<open>Partial results\<close>

abbreviation ub :: "'a option" where
  "ub \<equiv> None"

definition require :: "bool \<Rightarrow> unit option" where
  "require b = (if b then Some () else None)"

lemma require_Some [simp]: "require b = Some u \<longleftrightarrow> b"
  by (simp add: require_def)

lemma require_bind [simp]: "(require b \<bind> f = Some y) \<longleftrightarrow> b \<and> f () = Some y"
  by (simp add: require_def)

text \<open>A loop over a list that threads a state and stops at undefined behaviour.\<close>

fun foldM :: "('a \<Rightarrow> 's \<Rightarrow> 's option) \<Rightarrow> 'a list \<Rightarrow> 's \<Rightarrow> 's option" where
  "foldM f [] s = Some s"
| "foldM f (x # xs) s = (case f x s of None \<Rightarrow> None | Some s' \<Rightarrow> foldM f xs s')"

lemma foldM_append:
  "foldM f (xs @ ys) s = (case foldM f xs s of None \<Rightarrow> None | Some s' \<Rightarrow> foldM f ys s')"
  by (induction xs arbitrary: s) (auto split: option.splits)

lemma foldM_invariant:
  assumes "I s" and "foldM f xs s = Some s'"
    and "\<And>x t t'. x \<in> set xs \<Longrightarrow> I t \<Longrightarrow> f x t = Some t' \<Longrightarrow> I t'"
  shows "I s'"
  using assms
proof (induction xs arbitrary: s)
  case Nil
  then show ?case by simp
next
  case (Cons x xs)
  then obtain t where t: "f x s = Some t" "foldM f xs t = Some s'"
    by (auto split: option.splits)
  have "I t" by (rule Cons.prems(3) [OF _ Cons.prems(1) t(1)]) simp
  then show ?case by (rule Cons.IH [OF _ t(2)]) (use Cons.prems(3) in auto)
qed

lemma foldM_total:
  assumes "I s" and "\<And>x t. x \<in> set xs \<Longrightarrow> I t \<Longrightarrow> \<exists>t'. f x t = Some t' \<and> I t'"
  shows "\<exists>s'. foldM f xs s = Some s' \<and> I s'"
  using assms
proof (induction xs arbitrary: s)
  case Nil
  then show ?case by simp
next
  case (Cons x xs)
  then obtain t where t: "f x s = Some t" "I t" by (meson list.set_intros(1))
  from Cons.IH [OF t(2)] Cons.prems(2) obtain s' where "foldM f xs t = Some s'" "I s'"
    by (meson list.set_intros(2))
  with t show ?case by auto
qed

section \<open>Lists\<close>

text \<open>\<open>v.erase(std::remove(v.begin(), v.end(), e), v.end())\<close>.\<close>

definition erase_value :: "'a \<Rightarrow> 'a list \<Rightarrow> 'a list" where
  "erase_value e xs = filter (\<lambda>x. x \<noteq> e) xs"

lemma set_erase_value [simp]: "set (erase_value e xs) = set xs - {e}"
  by (auto simp: erase_value_def)

lemma distinct_erase_value [simp]: "distinct xs \<Longrightarrow> distinct (erase_value e xs)"
  by (simp add: erase_value_def)

lemma erase_value_absent [simp]: "e \<notin> set xs \<Longrightarrow> erase_value e xs = xs"
  by (induction xs) (auto simp: erase_value_def)

text \<open>The integers \<open>lo, lo + 1, \<dots>, hi\<close> of a counting loop.\<close>

lemma upto_empty [simp]: "hi < lo \<Longrightarrow> [lo..hi] = []"
  by simp

end
