(* ===== verification/Packet.thy ===== *)
theory Packet
  imports Prelude_MV
begin

unbundle bit_operations_syntax

text \<open>
  The wire format: \<open>PacketProtocol.h\<close>, the serialisation of \<open>ClientSession::Send\<close> and
  the receiving side of \<open>ClientSession::Run\<close> and \<open>ClientSession::HandlePacket\<close>.
  A packet is a 4-byte header (total length and packet id, both big-endian) and a
  payload. The model of \<open>Send\<close> is partial: \<open>None\<close> is the \<open>memcpy\<close> past the end of the
  buffer that the 16-bit length can lead to.
\<close>

section \<open>Packet ids and sizes\<close>

definition CS_LOGIN :: u16 where "CS_LOGIN = 0x0001"
definition CS_PLAYER_MOVE :: u16 where "CS_PLAYER_MOVE = 0x0002"
definition CS_TALK_TO_NPC :: u16 where "CS_TALK_TO_NPC = 0x0003"
definition CS_PLAYER_MESSAGE :: u16 where "CS_PLAYER_MESSAGE = 0x0004"
definition CS_END_DIALOGUE :: u16 where "CS_END_DIALOGUE = 0x0005"
definition CS_GET_AGENT_STATUS :: u16 where "CS_GET_AGENT_STATUS = 0x0008"
definition CS_HEARTBEAT :: u16 where "CS_HEARTBEAT = 0x00FF"
definition SC_LOGIN_ACK :: u16 where "SC_LOGIN_ACK = 0x1001"
definition SC_WORLD_SNAPSHOT :: u16 where "SC_WORLD_SNAPSHOT = 0x1002"
definition SC_DIALOGUE_EVENT :: u16 where "SC_DIALOGUE_EVENT = 0x1004"
definition SC_NPC_REPLY :: u16 where "SC_NPC_REPLY = 0x1005"
definition SC_GET_AGENT_STATUS_ACK :: u16 where "SC_GET_AGENT_STATUS_ACK = 0x1008"
definition SC_HEARTBEAT_ACK :: u16 where "SC_HEARTBEAT_ACK = 0x10FF"

lemmas packet_id_defs =
  CS_LOGIN_def CS_PLAYER_MOVE_def CS_TALK_TO_NPC_def CS_PLAYER_MESSAGE_def
  CS_END_DIALOGUE_def CS_GET_AGENT_STATUS_def CS_HEARTBEAT_def SC_LOGIN_ACK_def
  SC_WORLD_SNAPSHOT_def SC_DIALOGUE_EVENT_def SC_NPC_REPLY_def
  SC_GET_AGENT_STATUS_ACK_def SC_HEARTBEAT_ACK_def

definition HEADER_SIZE :: nat where "HEADER_SIZE = 4"
definition MAX_PACKET_SIZE :: nat where "MAX_PACKET_SIZE = 65535"
definition INLINE_SIZE :: nat where "INLINE_SIZE = 256"

lemmas size_defs = HEADER_SIZE_def MAX_PACKET_SIZE_def INLINE_SIZE_def

section \<open>Big-endian 16-bit integers\<close>

text \<open>\<open>ReadU16BE\<close> reads \<open>data[0]\<close> and \<open>data[1]\<close>; \<open>WriteU16BE\<close> writes both bytes.\<close>

definition ReadU16BE :: "u8 \<Rightarrow> u8 \<Rightarrow> u16" where
  "ReadU16BE d0 d1 = push_bit 8 (ucast d0) OR ucast d1"

definition WriteU16BE :: "u16 \<Rightarrow> u8 list" where
  "WriteU16BE val = [ucast (drop_bit 8 val), ucast (val AND 0xFF)]"

lemma length_WriteU16BE [simp]: "length (WriteU16BE v) = 2"
  by (simp add: WriteU16BE_def)

lemma mask8: "(255 :: u16) = mask 8"
  by (simp add: mask_eq_exp_minus_1)

lemma Read_Write_U16BE: "WriteU16BE v = [d0, d1] \<Longrightarrow> ReadU16BE d0 d1 = v"
proof -
  assume "WriteU16BE v = [d0, d1]"
  then have d: "d0 = ucast (drop_bit 8 v)" "d1 = ucast (v AND mask 8)"
    by (simp_all add: WriteU16BE_def mask8)
  show ?thesis
  proof (rule bit_word_eqI)
    fix n assume n: "n < LENGTH(16)"
    show "bit (ReadU16BE d0 d1) n = bit v n"
    proof (cases "n < 8")
      case True
      then show ?thesis by (simp add: ReadU16BE_def d bit_simps)
    next
      case False
      then have "8 \<le> n" "n - 8 < 8" "8 + (n - 8) = n" using n by auto
      with n show ?thesis by (simp add: ReadU16BE_def d bit_simps)
    qed
  qed
qed

lemma Write_Read_U16BE: "WriteU16BE (ReadU16BE d0 d1) = [d0, d1]"
proof -
  have "ucast (drop_bit 8 (ReadU16BE d0 d1)) = d0"
    by (rule bit_word_eqI) (auto simp: ReadU16BE_def bit_simps dest: bit_imp_le_length)
  moreover have "ucast (ReadU16BE d0 d1 AND 0xFF) = d1"
    by (rule bit_word_eqI) (auto simp: ReadU16BE_def mask8 bit_simps)
  ultimately show ?thesis by (simp add: WriteU16BE_def)
qed

lemma ReadU16BE_WriteU16BE:
  "ReadU16BE (WriteU16BE v ! 0) (WriteU16BE v ! 1) = v"
  by (rule Read_Write_U16BE) (simp add: WriteU16BE_def)

section \<open>Sending: \<open>ClientSession::Send\<close>\<close>

text \<open>
  \<open>PacketBuffer\<close>: the bytes live in the 256-byte inline array or on the heap.
  \<open>pb_data\<close> holds the bytes written; the rest of the array is never read.
\<close>

record PacketBuffer =
  pb_size :: nat
  pb_is_heap :: bool
  pb_data :: "u8 list"

text \<open>
  \<open>static_cast<uint16_t>(HEADER_SIZE + size)\<close> keeps the low 16 bits, and the capacity of
  the buffer follows from it, while \<open>memcpy\<close> copies all \<open>size\<close> bytes: \<open>None\<close> when they
  do not fit.
\<close>

definition total_length :: "u8 list \<Rightarrow> u16" where
  "total_length payload = word_of_nat (HEADER_SIZE + length payload)"

definition buffer_capacity :: "u16 \<Rightarrow> nat" where
  "buffer_capacity t = (if t \<le> 256 then INLINE_SIZE else unat t)"

definition Send_buffer :: "u16 \<Rightarrow> u8 list \<Rightarrow> PacketBuffer option" where
  "Send_buffer packet_id payload =
     (let t = total_length payload in
      if HEADER_SIZE + length payload \<le> buffer_capacity t
      then Some \<lparr>pb_size = unat t, pb_is_heap = \<not> t \<le> 256,
                 pb_data = WriteU16BE t @ WriteU16BE packet_id @ payload\<rparr>
      else None)"

text \<open>What \<open>WriteLoop\<close> hands to \<open>async_write\<close>: the first \<open>size\<close> bytes.\<close>

definition wire_bytes :: "PacketBuffer \<Rightarrow> u8 list" where
  "wire_bytes b = take (pb_size b) (pb_data b)"

text \<open>The size check of the \<open>SendProto\<close> and \<open>BroadcastProto\<close> templates.\<close>

definition SendProto_guard :: "u8 list \<Rightarrow> bool" where
  "SendProto_guard message \<longleftrightarrow> \<not> length message > MAX_PACKET_SIZE"

lemma unat_total_length:
  "unat (total_length payload) = (4 + length payload) mod 65536"
  unfolding total_length_def HEADER_SIZE_def unat_of_nat by simp

lemma Send_buffer_fits_iff:
  "Send_buffer pid payload \<noteq> None \<longleftrightarrow> HEADER_SIZE + length payload \<le> MAX_PACKET_SIZE"
proof -
  define n where "n = 4 + length payload"
  have t: "unat (total_length payload) = n mod 65536"
    by (simp add: unat_total_length n_def)
  have le: "total_length payload \<le> 256 \<longleftrightarrow> n mod 65536 \<le> 256"
    using t by (simp add: word_le_nat_alt)
  have "Send_buffer pid payload \<noteq> None \<longleftrightarrow>
      n \<le> (if n mod 65536 \<le> 256 then 256 else n mod 65536)"
    by (simp add: Send_buffer_def Let_def buffer_capacity_def t le size_defs n_def)
  also have "\<dots> \<longleftrightarrow> n \<le> 65535"
  proof
    assume "n \<le> (if n mod 65536 \<le> 256 then 256 else n mod 65536)"
    moreover have "n mod 65536 < 65536" by simp
    ultimately show "n \<le> 65535" by (auto split: if_splits)
  qed (simp add: mod_less)
  finally show ?thesis by (simp add: n_def size_defs)
qed

lemma Send_buffer_Some:
  assumes "HEADER_SIZE + length payload \<le> MAX_PACKET_SIZE"
  obtains b where "Send_buffer pid payload = Some b"
    and "wire_bytes b = WriteU16BE (total_length payload) @ WriteU16BE pid @ payload"
    and "pb_size b = 4 + length payload"
    and "pb_is_heap b \<longleftrightarrow> 252 < length payload"
proof -
  have t: "unat (total_length payload) = 4 + length payload"
    using assms by (simp add: unat_total_length size_defs)
  have h: "\<not> total_length payload \<le> 256 \<longleftrightarrow> 252 < length payload"
    using t by (auto simp: word_le_nat_alt)
  obtain b where b: "Send_buffer pid payload = Some b"
    using Send_buffer_fits_iff [of pid payload] assms by auto
  then have "b = \<lparr>pb_size = 4 + length payload, pb_is_heap = (252 < length payload),
      pb_data = WriteU16BE (total_length payload) @ WriteU16BE pid @ payload\<rparr>"
    by (auto simp: Send_buffer_def Let_def t h split: if_splits)
  with b show thesis by (intro that [of b]) (simp_all add: wire_bytes_def)
qed

section \<open>Receiving: \<open>ClientSession::Run\<close> and \<open>HandlePacket\<close>\<close>

text \<open>
  The receive loop reads a header, then the payload, and hands the packet on. On the
  bytes received so far it either waits for more (\<open>AwaitMore\<close>, with the bytes of the
  unfinished packet) or has met a length below the header size and closed the session.
  The test \<open>length > MAX_PACKET_SIZE\<close> is kept although no 16-bit value passes it.
\<close>

datatype recv_end = AwaitMore "u8 list" | BadLength u16

fun recv_header :: "u8 list \<Rightarrow> (u16 \<times> u16) option" where
  "recv_header (a # b # c # d # _) = Some (ReadU16BE a b, ReadU16BE c d)"
| "recv_header _ = None"

function recv_frames :: "u8 list \<Rightarrow> (u16 \<times> u8 list) list \<times> recv_end" where
  "recv_frames bs =
     (case recv_header bs of
        None \<Rightarrow> ([], AwaitMore bs)
      | Some (len, pid) \<Rightarrow>
          if unat len < HEADER_SIZE \<or> unat len > MAX_PACKET_SIZE then ([], BadLength len)
          else let payload_size = unat len - HEADER_SIZE; rest = drop HEADER_SIZE bs in
            if length rest < payload_size then ([], AwaitMore bs)
            else let r = recv_frames (drop payload_size rest)
                 in ((pid, take payload_size rest) # fst r, snd r))"
  by pat_completeness auto
termination
  by (relation "measure length") (auto simp: HEADER_SIZE_def elim!: recv_header.elims)

declare recv_frames.simps [simp del]

datatype PlayerCommandType = Login | Move | TalkToNpc | PlayerMessage | EndDialogue | GetAgentStatus

record PlayerCommand =
  cmd_type :: PlayerCommandType
  cmd_payload :: "u8 list"
  cmd_session_index :: u32

datatype packet_action = QueueCommand_act PlayerCommand | HeartbeatAck | UnknownPacket u16

definition HandlePacket :: "u32 \<Rightarrow> u16 \<Rightarrow> u8 list \<Rightarrow> packet_action" where
  "HandlePacket index packet_id payload =
     (let queue = (\<lambda>t. QueueCommand_act
            \<lparr>cmd_type = t, cmd_payload = payload, cmd_session_index = index\<rparr>) in
      if packet_id = CS_LOGIN then queue Login
      else if packet_id = CS_PLAYER_MOVE then queue Move
      else if packet_id = CS_TALK_TO_NPC then queue TalkToNpc
      else if packet_id = CS_PLAYER_MESSAGE then queue PlayerMessage
      else if packet_id = CS_END_DIALOGUE then queue EndDialogue
      else if packet_id = CS_GET_AGENT_STATUS then queue GetAgentStatus
      else if packet_id = CS_HEARTBEAT then HeartbeatAck
      else UnknownPacket packet_id)"

text \<open>One packet at the front of the stream is received, and the loop continues after it.\<close>

definition packet_bytes :: "u16 \<Rightarrow> u8 list \<Rightarrow> u8 list" where
  "packet_bytes pid payload = WriteU16BE (total_length payload) @ WriteU16BE pid @ payload"

lemma recv_header_packet:
  "recv_header (packet_bytes pid payload @ ys) = Some (total_length payload, pid)"
  using Read_Write_U16BE by (simp add: packet_bytes_def WriteU16BE_def)

lemma drop_header_packet:
  "drop 4 (packet_bytes pid payload @ ys) = payload @ ys"
  by (simp add: packet_bytes_def WriteU16BE_def)

lemma recv_frames_packet:
  assumes "HEADER_SIZE + length payload \<le> MAX_PACKET_SIZE"
  shows "recv_frames (packet_bytes pid payload @ ys) =
    ((pid, payload) # fst (recv_frames ys), snd (recv_frames ys))"
proof -
  have t: "unat (total_length payload) = 4 + length payload"
    using assms by (simp add: unat_total_length size_defs)
  define bs where "bs = packet_bytes pid payload @ ys"
  have "recv_header bs = Some (total_length payload, pid)" "drop HEADER_SIZE bs = payload @ ys"
    by (simp_all only: bs_def HEADER_SIZE_def recv_header_packet drop_header_packet)
  then have "recv_frames bs = ((pid, payload) # fst (recv_frames ys), snd (recv_frames ys))"
    using assms by (subst recv_frames.simps) (simp add: t size_defs Let_def)
  then show ?thesis by (simp add: bs_def)
qed

lemma recv_frames_Nil [simp]: "recv_frames [] = ([], AwaitMore [])"
  by (subst recv_frames.simps) simp

text \<open>
  The loop does not depend on how the bytes arrive: receiving \<open>xs\<close> and then \<open>ys\<close> gives
  the packets of \<open>xs @ ys\<close>.
\<close>

lemma recv_header_append: "recv_header bs = Some h \<Longrightarrow> recv_header (bs @ ys) = Some h"
  by (elim recv_header.elims) auto

lemma recv_header_length: "recv_header bs = Some h \<Longrightarrow> 4 \<le> length bs"
  by (elim recv_header.elims) auto

lemma recv_frames_append:
  "recv_frames (xs @ ys) =
     (case snd (recv_frames xs) of
        AwaitMore r \<Rightarrow> (fst (recv_frames xs) @ fst (recv_frames (r @ ys)),
                        snd (recv_frames (r @ ys)))
      | BadLength n \<Rightarrow> recv_frames xs)"
proof (induction xs rule: recv_frames.induct)
  case (1 bs)
  show ?case
  proof (cases "recv_header bs")
    case None
    then have "recv_frames bs = ([], AwaitMore bs)" by (subst recv_frames.simps) simp
    then show ?thesis by simp
  next
    case (Some h)
    obtain len pid where h: "h = (len, pid)" by (cases h)
    note hd = Some [unfolded h]
    note hd' = recv_header_append [OF hd, of ys]
    have l4: "4 \<le> length bs" using recv_header_length [OF hd] .
    consider (bad) "unat len < HEADER_SIZE \<or> unat len > MAX_PACKET_SIZE"
      | (short) "\<not> (unat len < HEADER_SIZE \<or> unat len > MAX_PACKET_SIZE)"
          "length (drop HEADER_SIZE bs) < unat len - HEADER_SIZE"
      | (full) "\<not> (unat len < HEADER_SIZE \<or> unat len > MAX_PACKET_SIZE)"
          "\<not> length (drop HEADER_SIZE bs) < unat len - HEADER_SIZE" by blast
    then show ?thesis
    proof cases
      case bad
      have "recv_frames bs = ([], BadLength len)"
        using bad hd by (subst recv_frames.simps) simp
      moreover have "recv_frames (bs @ ys) = ([], BadLength len)"
        using bad hd' by (subst recv_frames.simps) simp
      ultimately show ?thesis by simp
    next
      case short
      have "recv_frames bs = ([], AwaitMore bs)"
        using short hd by (subst recv_frames.simps) (simp add: Let_def)
      then show ?thesis by simp
    next
      case full
      define n where "n = unat len - HEADER_SIZE"
      define rest where "rest = drop HEADER_SIZE bs"
      have n: "n \<le> length rest" using full by (simp add: n_def rest_def)
      have IH: "recv_frames (drop n rest @ ys) =
          (case snd (recv_frames (drop n rest)) of
             AwaitMore r \<Rightarrow> (fst (recv_frames (drop n rest)) @ fst (recv_frames (r @ ys)),
                             snd (recv_frames (r @ ys)))
           | BadLength n' \<Rightarrow> recv_frames (drop n rest))"
        using 1 [OF hd refl full(1) refl refl full(2)] unfolding n_def rest_def .
      have A: "recv_frames bs = ((pid, take n rest) # fst (recv_frames (drop n rest)),
          snd (recv_frames (drop n rest)))"
        using full hd by (subst recv_frames.simps) (simp add: Let_def n_def rest_def)
      have B: "recv_frames (bs @ ys) = ((pid, take n rest) # fst (recv_frames (drop n rest @ ys)),
          snd (recv_frames (drop n rest @ ys)))"
        using full hd' n l4
        by (subst recv_frames.simps) (simp add: Let_def n_def rest_def HEADER_SIZE_def)
      show ?thesis unfolding A B IH by (simp split: recv_end.split)
    qed
  qed
qed


section \<open>Properties of the wire format\<close>

text \<open>Reading back a big-endian field gives the value written, and writing back a field that
  was read gives the same two bytes.\<close>

theorem U16BE_roundtrip:
  "ReadU16BE (WriteU16BE v ! 0) (WriteU16BE v ! 1) = v \<and> WriteU16BE (ReadU16BE d0 d1) = [d0, d1]"
  by (simp only: ReadU16BE_WriteU16BE Write_Read_U16BE)

text \<open>C15: The size check of \<open>SendProto\<close> is not the capacity of a packet: exactly the messages
  of 65532 to 65535 bytes pass the check and make \<open>Send\<close> copy past the end of its buffer,
  because the header is added to the length in 16 bits.\<close>

theorem SendProto_overflow_window:
  "SendProto_guard message \<and> Send_buffer packet_id message = None \<longleftrightarrow>
     65531 < length message \<and> length message \<le> 65535"
  using Send_buffer_fits_iff [of packet_id message]
  by (auto simp: SendProto_guard_def size_defs)

text \<open>The receive loop over a sequence of reads: the bytes of each read are appended to what
  the loop has not consumed; after a bad length the session is closed and nothing is read.\<close>

fun recv_reads :: "recv_end \<Rightarrow> u8 list list \<Rightarrow> (u16 \<times> u8 list) list \<times> recv_end" where
  "recv_reads st [] = ([], st)"
| "recv_reads (BadLength n) (r # rs) = ([], BadLength n)"
| "recv_reads (AwaitMore bs) (r # rs) =
     (let f = recv_frames (bs @ r); g = recv_reads (snd f) rs in (fst f @ fst g, snd g))"

lemma recv_frames_await: "snd (recv_frames bs) = AwaitMore r \<Longrightarrow> recv_frames r = ([], AwaitMore r)"
  using recv_frames_append [of bs "[]"] by (auto simp: prod_eq_iff)

lemma recv_reads_bad: "recv_reads (BadLength n) rs = ([], BadLength n)"
  by (cases rs) auto

lemma recv_reads_frames:
  "recv_frames bs = ([], AwaitMore bs) \<Longrightarrow> recv_reads (AwaitMore bs) rs = recv_frames (bs @ concat rs)"
proof (induction rs arbitrary: bs)
  case Nil
  then show ?case by simp
next
  case (Cons r rs)
  show ?case
  proof (cases "snd (recv_frames (bs @ r))")
    case (AwaitMore b)
    note IH = Cons.IH [OF recv_frames_await [OF AwaitMore]]
    show ?thesis
      using recv_frames_append [of "bs @ r" "concat rs"] by (simp add: AwaitMore IH Let_def)
  next
    case (BadLength n)
    then show ?thesis
      using recv_frames_append [of "bs @ r" "concat rs"]
      by (simp add: recv_reads_bad Let_def prod_eq_iff)
  qed
qed

text \<open>C12: TCP segmentation does not matter: however the byte stream is cut into reads, the
  receive loop hands on the same packets and ends in the same state.\<close>

theorem recv_reads_segmentation: "recv_reads (AwaitMore []) rs = recv_frames (concat rs)"
  using recv_reads_frames [of "[]" rs] by simp

text \<open>C19: Every sequence of packets that pass the length check arrives as it was sent: the buffers
  \<open>Send\<close> builds, written one after the other, are read back as the same ids and payloads in the same
  order, and the loop goes on behind them with whatever follows.\<close>

theorem packets_roundtrip:
  assumes "\<forall>(pid, payload)\<in>set packets. HEADER_SIZE + length payload \<le> MAX_PACKET_SIZE"
  shows "\<exists>buffers. List.map (\<lambda>(pid, payload). Send_buffer pid payload) packets = List.map Some buffers \<and>
    recv_frames (concat (List.map wire_bytes buffers) @ rest) =
      (packets @ fst (recv_frames rest), snd (recv_frames rest))"
  using assms
proof (induction packets)
  case (Cons p packets)
  obtain pid payload where p: "p = (pid, payload)" by fastforce
  have n: "HEADER_SIZE + length payload \<le> MAX_PACKET_SIZE" using Cons.prems by (simp add: p)
  obtain b where b: "Send_buffer pid payload = Some b" "wire_bytes b = packet_bytes pid payload"
    using Send_buffer_Some [OF n, of pid] by (metis packet_bytes_def)
  obtain buffers where bs: "List.map (\<lambda>(pid, payload). Send_buffer pid payload) packets = List.map Some buffers"
    "recv_frames (concat (List.map wire_bytes buffers) @ rest) = (packets @ fst (recv_frames rest), snd (recv_frames rest))"
    using Cons by auto
  show ?case
    by (rule exI [of _ "b # buffers"]) (simp add: p b bs recv_frames_packet [OF n])
qed simp

theorem packets_roundtrip_witness:
  "\<exists>b c. Send_buffer CS_HEARTBEAT [] = Some b \<and> Send_buffer CS_LOGIN [1, 2] = Some c \<and>
     recv_frames (wire_bytes b @ wire_bytes c @ [0]) = ([(CS_HEARTBEAT, []), (CS_LOGIN, [1, 2])], AwaitMore [0])"
proof -
  let ?ps = "[(CS_HEARTBEAT, []), (CS_LOGIN, [1, 2])]"
  have r: "recv_frames [0] = ([], AwaitMore [0])" by (subst recv_frames.simps) simp
  have "\<forall>(pid, payload)\<in>set ?ps. HEADER_SIZE + length payload \<le> MAX_PACKET_SIZE" by (simp add: size_defs)
  from packets_roundtrip [OF this, of "[0]"] show ?thesis
    by (auto simp: r map_eq_Cons_conv Cons_eq_map_conv)
qed

end
