(* ===== verification/Session.thy ===== *)
theory Session
  imports Packet "HOL-Library.Sublist"
begin

text \<open>
  The life of a \<open>ClientSession\<close> after accept: the send path (\<open>Send\<close> posts a closure,
  the closure offers the buffer to the bounded \<open>write_channel_\<close>, \<open>WriteLoop\<close> takes it
  and writes it), with the heap blocks of large packets accounted for; and the
  back-pressure protocol between the read loop and the gRPC completions.
\<close>

section \<open>The send path\<close>

definition CHANNEL_CAPACITY :: nat where "CHANNEL_CAPACITY = 1024"

text \<open>
  \<open>posted\<close>: closures posted to the executor and not yet run. \<open>chan\<close>: the channel's
  buffered messages. \<open>inflight\<close>: the buffer \<open>WriteLoop\<close> is writing. \<open>written\<close>: buffers
  whose \<open>async_write\<close> completed, and \<open>sent_log\<close>: the calls of \<open>Send\<close>, both in order.
  \<open>heap_live\<close>: heap blocks allocated by \<open>Send\<close> and not yet deleted.
\<close>

record send_state =
  posted :: "PacketBuffer list"
  chan :: "PacketBuffer list"
  chan_open :: bool
  inflight :: "PacketBuffer list"
  writer_alive :: bool
  written :: "PacketBuffer list"
  sent_log :: "(u16 \<times> u8 list) list"
  heap_live :: int

definition send_init :: send_state where
  "send_init = \<lparr>posted = [], chan = [], chan_open = True, inflight = [], writer_alive = True,
     written = [], sent_log = [], heap_live = 0\<rparr>"

definition heap_blocks :: "PacketBuffer list \<Rightarrow> int" where
  "heap_blocks bs = int (length (filter pb_is_heap bs))"

lemma heap_blocks_simps [simp]:
  "heap_blocks [] = 0"
  "heap_blocks (b # bs) = (if pb_is_heap b then 1 else 0) + heap_blocks bs"
  "heap_blocks (xs @ ys) = heap_blocks xs + heap_blocks ys"
  by (simp_all add: heap_blocks_def)

text \<open>\<open>Send\<close>, on any thread: allocate, fill, post.\<close>

definition Send :: "u16 \<Rightarrow> u8 list \<Rightarrow> send_state \<Rightarrow> send_state option" where
  "Send packet_id payload s =
     (case Send_buffer packet_id payload of
        None \<Rightarrow> ub
      | Some b \<Rightarrow> Some (s\<lparr>posted := posted s @ [b], sent_log := sent_log s @ [(packet_id, payload)],
                         heap_live := heap_live s + heap_blocks [b]\<rparr>))"

text \<open>The posted closure: \<open>try_send\<close>, and deletion of the heap block when it is refused.\<close>

definition run_posted :: "send_state \<Rightarrow> send_state" where
  "run_posted s = (case posted s of
     [] \<Rightarrow> s
   | b # ps \<Rightarrow>
       if chan_open s \<and> length (chan s) < CHANNEL_CAPACITY
       then s\<lparr>posted := ps, chan := chan s @ [b]\<rparr>
       else s\<lparr>posted := ps, heap_live := heap_live s - heap_blocks [b]\<rparr>)"

text \<open>\<open>try_receive\<close> until the channel is empty, deleting every heap block.\<close>

definition drain_channel :: "send_state \<Rightarrow> send_state" where
  "drain_channel s = s\<lparr>chan := [], heap_live := heap_live s - heap_blocks (chan s)\<rparr>"

text \<open>\<open>WriteLoop\<close>: receive; the write completes; the write or the receive throws.\<close>

definition write_receive :: "send_state \<Rightarrow> send_state" where
  "write_receive s = (case chan s of
     [] \<Rightarrow> s
   | b # bs \<Rightarrow> if writer_alive s \<and> inflight s = [] then s\<lparr>chan := bs, inflight := [b]\<rparr> else s)"

definition write_complete :: "send_state \<Rightarrow> send_state" where
  "write_complete s = s\<lparr>inflight := [], written := written s @ inflight s,
     heap_live := heap_live s - heap_blocks (inflight s)\<rparr>"

definition write_error :: "send_state \<Rightarrow> send_state" where
  "write_error s = drain_channel
     (s\<lparr>inflight := [], heap_live := heap_live s - heap_blocks (inflight s),
        writer_alive := False\<rparr>)"

text \<open>\<open>Run\<close> ends, or the destructor starts: \<open>write_channel_.close()\<close>.\<close>

definition close_channel :: "send_state \<Rightarrow> send_state" where
  "close_channel s = s\<lparr>chan_open := False\<rparr>"

text \<open>The destructor: close, then drain. Posted closures and \<open>WriteLoop\<close> hold a
  \<open>shared_ptr\<close>, so it runs only when neither is left.\<close>

definition session_destroy :: "send_state \<Rightarrow> send_state" where
  "session_destroy s = drain_channel (close_channel s)"

inductive send_step :: "send_state \<Rightarrow> send_state \<Rightarrow> bool" where
  step_send: "Send pid payload s = Some s' \<Longrightarrow> send_step s s'"
| step_posted: "posted s \<noteq> [] \<Longrightarrow> send_step s (run_posted s)"
| step_receive: "writer_alive s \<Longrightarrow> inflight s = [] \<Longrightarrow> chan s \<noteq> [] \<Longrightarrow>
    send_step s (write_receive s)"
| step_complete: "inflight s \<noteq> [] \<Longrightarrow> send_step s (write_complete s)"
| step_write_error: "inflight s \<noteq> [] \<Longrightarrow> send_step s (write_error s)"
| step_receive_error: "writer_alive s \<Longrightarrow> inflight s = [] \<Longrightarrow> \<not> chan_open s \<Longrightarrow>
    send_step s (write_error s)"
| step_close: "send_step s (close_channel s)"

inductive send_reachable :: "send_state \<Rightarrow> bool" where
  reach_init: "send_reachable send_init"
| reach_step: "send_reachable s \<Longrightarrow> send_step s t \<Longrightarrow> send_reachable t"

lemmas send_op_defs = Send_def run_posted_def drain_channel_def write_receive_def
  write_complete_def write_error_def close_channel_def

inductive_cases send_stepE: "send_step s t"

text \<open>
  Invariant: every live heap block is held by exactly one buffer that is still on its
  way; each buffer is the one \<open>Send\<close> built for its log entry, and the buffers written,
  in flight, buffered and posted are, in this order, a subsequence of those sent.
\<close>

definition on_the_way :: "send_state \<Rightarrow> PacketBuffer list" where
  "on_the_way s = inflight s @ chan s @ posted s"

definition send_inv :: "send_state \<Rightarrow> bool" where
  "send_inv s \<longleftrightarrow> heap_live s = heap_blocks (on_the_way s) \<and>
     (\<exists>bufs. list_all2 (\<lambda>(pid, payload) b. Send_buffer pid payload = Some b) (sent_log s) bufs \<and>
             subseq (written s @ on_the_way s) bufs)"

lemma send_inv_init: "send_inv send_init"
  by (simp add: send_inv_def send_init_def on_the_way_def)

text \<open>Steps that only remove buffers from the way.\<close>

lemma send_inv_remove:
  assumes "send_inv s" and "sent_log t = sent_log s"
    and "subseq (written t @ on_the_way t) (written s @ on_the_way s)"
    and "heap_live t - heap_live s = heap_blocks (on_the_way t) - heap_blocks (on_the_way s)"
  shows "send_inv t"
  using assms unfolding send_inv_def by (auto intro: subseq_order.order_trans)

lemma send_inv_Send: "Send pid payload s = Some s' \<Longrightarrow> send_inv s \<Longrightarrow> send_inv s'"
proof -
  assume S: "Send pid payload s = Some s'" and I: "send_inv s"
  from S obtain b where b: "Send_buffer pid payload = Some b" and s':
      "s' = s\<lparr>posted := posted s @ [b], sent_log := sent_log s @ [(pid, payload)],
              heap_live := heap_live s + heap_blocks [b]\<rparr>"
    by (auto simp: Send_def split: option.splits)
  from I obtain bufs where bufs:
      "list_all2 (\<lambda>(pid, payload) b. Send_buffer pid payload = Some b) (sent_log s) bufs"
      "subseq (written s @ on_the_way s) bufs" and h: "heap_live s = heap_blocks (on_the_way s)"
    by (auto simp: send_inv_def)
  have "on_the_way s' = on_the_way s @ [b]" by (simp add: s' on_the_way_def)
  moreover have "subseq ((written s @ on_the_way s) @ [b]) (bufs @ [b])"
    using bufs(2) by (rule list_emb_append_mono) simp
  moreover have "list_all2 (\<lambda>(pid, payload) b. Send_buffer pid payload = Some b)
      (sent_log s @ [(pid, payload)]) (bufs @ [b])"
    using bufs(1) b by (simp add: list_all2_appendI)
  ultimately show ?thesis using h by (auto simp: send_inv_def s')
qed

lemma send_step_inv: "send_step s t \<Longrightarrow> send_inv s \<Longrightarrow> send_inv t"
proof (erule send_stepE)
  fix pid payload
  assume "Send pid payload s = Some t" "send_inv s"
  then show "send_inv t" by (rule send_inv_Send)
next
  assume p: "posted s \<noteq> []" and I: "send_inv s" and t: "t = run_posted s"
  obtain b ps where b: "posted s = b # ps" using p by (cases "posted s") auto
  show "send_inv t"
    by (rule send_inv_remove [OF I])
       (auto simp: t run_posted_def b on_the_way_def subseq_append' intro: list_emb_append2)
next
  assume "writer_alive s" "inflight s = []" "chan s \<noteq> []" and I: "send_inv s"
    and t: "t = write_receive s"
  then show "send_inv t"
    by (intro send_inv_remove [OF I])
       (auto simp: write_receive_def on_the_way_def split: list.splits)
next
  assume "inflight s \<noteq> []" and I: "send_inv s" and t: "t = write_complete s"
  then show "send_inv t"
    by (intro send_inv_remove [OF I]) (auto simp: write_complete_def on_the_way_def)
next
  assume I: "send_inv s" and t: "t = write_error s"
  then show "send_inv t"
    by (intro send_inv_remove [OF I])
       (auto simp: write_error_def drain_channel_def on_the_way_def subseq_append'
             intro!: list_emb_append2)
next
  assume I: "send_inv s" and t: "t = write_error s"
  then show "send_inv t"
    by (intro send_inv_remove [OF I])
       (auto simp: write_error_def drain_channel_def on_the_way_def subseq_append'
             intro!: list_emb_append2)
next
  assume I: "send_inv s" and t: "t = close_channel s"
  then show "send_inv t"
    by (intro send_inv_remove [OF I]) (auto simp: close_channel_def on_the_way_def)
qed

lemma send_reachable_inv: "send_reachable s \<Longrightarrow> send_inv s"
  by (induction rule: send_reachable.induct) (auto intro: send_inv_init send_step_inv)

lemma list_all2_subseq:
  "list_all2 R xs ys \<Longrightarrow> subseq zs ys \<Longrightarrow> \<exists>ws. subseq ws xs \<and> list_all2 R ws zs"
proof (induction xs ys arbitrary: zs rule: list_all2_induct)
  case Nil
  then show ?case by auto
next
  case (Cons x xs y ys)
  show ?case
  proof (cases zs)
    case Nil
    then show ?thesis by auto
  next
    case (Cons z zs')
    show ?thesis
    proof (cases "z = y")
      case True
      then have "subseq zs' ys" using Cons.prems Cons by simp
      from Cons.IH [OF this] obtain ws where "subseq ws xs" "list_all2 R ws zs'" by blast
      then show ?thesis using True Cons Cons.hyps(1) by (intro exI [of _ "x # ws"]) auto
    next
      case False
      then have "subseq zs ys" using Cons.prems Cons by (auto elim: list_emb.cases)
      from Cons.IH [OF this] show ?thesis by (meson list_emb_Cons)
    qed
  qed
qed

lemma recv_frames_sent:
  "list_all2 (\<lambda>(pid, payload) b. Send_buffer pid payload = Some b) pkts bufs \<Longrightarrow>
   recv_frames (concat (map wire_bytes bufs)) = (pkts, AwaitMore [])"
proof (induction pkts bufs rule: list_all2_induct)
  case Nil
  then show ?case by simp
next
  case (Cons p pkts b bufs)
  obtain pid payload where p: "p = (pid, payload)" by (cases p)
  with Cons.hyps(1) have b: "Send_buffer pid payload = Some b" by simp
  then have fits: "HEADER_SIZE + length payload \<le> MAX_PACKET_SIZE"
    using Send_buffer_fits_iff [of pid payload] by simp
  obtain b' where "Send_buffer pid payload = Some b'"
    "wire_bytes b' = packet_bytes pid payload"
    using Send_buffer_Some [OF fits, of pid] by (metis packet_bytes_def)
  with b have "wire_bytes b = packet_bytes pid payload" by simp
  then show ?case using Cons.IH by (simp add: p recv_frames_packet [OF fits])
qed

lemma on_the_way_writer: "send_reachable s \<Longrightarrow> \<not> writer_alive s \<Longrightarrow> inflight s = []"
proof (induction rule: send_reachable.induct)
  case reach_init
  then show ?case by (simp add: send_init_def)
next
  case (reach_step s t)
  from reach_step.hyps(2) reach_step.IH reach_step.prems show ?case
    by (cases rule: send_step.cases)
       (auto simp: send_op_defs split: option.splits list.splits if_splits)
qed

section \<open>Back-pressure\<close>

text \<open>
  \<open>IncrementPendingGrpc\<close>, \<open>DecrementPendingGrpc\<close> and \<open>CheckBackpressure\<close> of
  \<open>ClientSession.h\<close>. The boolean result tells whether \<open>backpressure_timer_.cancel()\<close>
  was called.
\<close>

record bp_state =
  pending_grpc_requests :: nat
  is_reading_suspended :: bool

definition bp_init :: bp_state where
  "bp_init = \<lparr>pending_grpc_requests = 0, is_reading_suspended = False\<rparr>"

definition CheckBackpressure :: "bp_state \<Rightarrow> bp_state \<times> bool" where
  "CheckBackpressure s =
     (let was_suspended = is_reading_suspended s;
          now = (if 32 \<le> pending_grpc_requests s then True
                 else if pending_grpc_requests s \<le> 8 then False else was_suspended)
      in (s\<lparr>is_reading_suspended := now\<rparr>, \<not> now \<and> was_suspended))"

definition IncrementPendingGrpc :: "bp_state \<Rightarrow> bp_state \<times> bool" where
  "IncrementPendingGrpc s =
     CheckBackpressure (s\<lparr>pending_grpc_requests := pending_grpc_requests s + 1\<rparr>)"

definition DecrementPendingGrpc :: "bp_state \<Rightarrow> bp_state \<times> bool" where
  "DecrementPendingGrpc s = CheckBackpressure
     (if 0 < pending_grpc_requests s
      then s\<lparr>pending_grpc_requests := pending_grpc_requests s - 1\<rparr> else s)"

lemmas bp_defs = CheckBackpressure_def IncrementPendingGrpc_def DecrementPendingGrpc_def

datatype bp_op = Inc | Dec

fun bp_apply :: "bp_op \<Rightarrow> bp_state \<Rightarrow> bp_state" where
  "bp_apply Inc s = fst (IncrementPendingGrpc s)"
| "bp_apply Dec s = fst (DecrementPendingGrpc s)"

definition bp_ok :: "bp_state \<Rightarrow> bool" where
  "bp_ok s \<longleftrightarrow> (is_reading_suspended s \<longrightarrow> 8 < pending_grpc_requests s) \<and>
               (\<not> is_reading_suspended s \<longrightarrow> pending_grpc_requests s < 32)"

lemma bp_apply_ok: "bp_ok (bp_apply op s)"
  by (cases op) (auto simp: bp_ok_def bp_defs Let_def)

lemma bp_run_ok: "bp_ok (fold bp_apply ops bp_init)"
proof (induction ops rule: rev_induct)
  case Nil
  then show ?case by (simp add: bp_ok_def bp_init_def)
next
  case (snoc op ops)
  then show ?case by (simp add: bp_apply_ok)
qed

subsection \<open>The read loop and the completions, interleaved\<close>

text \<open>
  \<open>Run\<close> on the I/O thread reads the flag at the top of its loop, then arms the timer
  (\<open>expires_at(max)\<close> and \<open>async_wait\<close>) and sleeps until it is cancelled. Requests are
  added by the main thread for the commands of this session (\<open>queued\<close>) and completed on
  the gRPC thread. \<open>Arming\<close> is the point between the test of the flag and the wait.
\<close>

datatype reader_pc = AtLoop | Arming | Waiting | Reading

record bp_sys =
  rd_pc :: reader_pc
  rd_bp :: bp_state
  rd_queued :: nat

definition bp_sys_init :: bp_sys where
  "bp_sys_init = \<lparr>rd_pc = AtLoop, rd_bp = bp_init, rd_queued = 0\<rparr>"

inductive bp_step :: "bp_sys \<Rightarrow> bp_sys \<Rightarrow> bool" where
  bp_suspend: "rd_pc s = AtLoop \<Longrightarrow> is_reading_suspended (rd_bp s) \<Longrightarrow>
    bp_step s (s\<lparr>rd_pc := Arming\<rparr>)"
| bp_go_read: "rd_pc s = AtLoop \<Longrightarrow> \<not> is_reading_suspended (rd_bp s) \<Longrightarrow>
    bp_step s (s\<lparr>rd_pc := Reading\<rparr>)"
| bp_arm: "rd_pc s = Arming \<Longrightarrow> bp_step s (s\<lparr>rd_pc := Waiting\<rparr>)"
| bp_command: "rd_pc s = Reading \<Longrightarrow> bp_step s (s\<lparr>rd_pc := AtLoop, rd_queued := rd_queued s + 1\<rparr>)"
| bp_no_command: "rd_pc s = Reading \<Longrightarrow> bp_step s (s\<lparr>rd_pc := AtLoop\<rparr>)"
| bp_request: "0 < rd_queued s \<Longrightarrow>
    bp_step s (s\<lparr>rd_queued := rd_queued s - 1, rd_bp := fst (IncrementPendingGrpc (rd_bp s))\<rparr>)"
| bp_no_request: "0 < rd_queued s \<Longrightarrow> bp_step s (s\<lparr>rd_queued := rd_queued s - 1\<rparr>)"
| bp_complete: "0 < pending_grpc_requests (rd_bp s) \<Longrightarrow>
    bp_step s (s\<lparr>rd_bp := fst (DecrementPendingGrpc (rd_bp s)),
                 rd_pc := (if snd (DecrementPendingGrpc (rd_bp s)) \<and> rd_pc s = Waiting
                           then Reading else rd_pc s)\<rparr>)"

inductive bp_reachable :: "bp_sys \<Rightarrow> bool" where
  bp_start: "bp_reachable bp_sys_init"
| bp_next: "bp_reachable s \<Longrightarrow> bp_step s t \<Longrightarrow> bp_reachable t"

inductive_simps bp_step_stuck: "bp_step s t"

text \<open>Building the run: \<open>n\<close> commands read, \<open>n\<close> requests issued, \<open>k\<close> of them completed.\<close>

lemma bp_reach_commands:
  "bp_reachable \<lparr>rd_pc = AtLoop, rd_bp = bp_init, rd_queued = n\<rparr>"
proof (induction n)
  case 0
  then show ?case using bp_start by (simp add: bp_sys_init_def)
next
  case (Suc n)
  have "bp_reachable \<lparr>rd_pc = Reading, rd_bp = bp_init, rd_queued = n\<rparr>"
    using bp_next [OF Suc bp_go_read] by (simp add: bp_init_def)
  from bp_next [OF this bp_command] show ?case by simp
qed

lemma bp_reach_requests:
  "k \<le> n \<Longrightarrow> n \<le> 32 \<Longrightarrow> bp_reachable \<lparr>rd_pc = AtLoop,
     rd_bp = \<lparr>pending_grpc_requests = k, is_reading_suspended = (k = 32)\<rparr>, rd_queued = n - k\<rparr>"
proof (induction k)
  case 0
  then show ?case using bp_reach_commands [of n] by (simp add: bp_init_def)
next
  case (Suc k)
  then have "bp_reachable \<lparr>rd_pc = AtLoop,
     rd_bp = \<lparr>pending_grpc_requests = k, is_reading_suspended = (k = 32)\<rparr>, rd_queued = n - k\<rparr>"
    by simp
  from bp_next [OF this bp_request] Suc.prems show ?case
    by (simp add: bp_defs Let_def Suc_diff_le split: if_splits)
qed

lemma bp_reach_completions:
  "k \<le> 32 \<Longrightarrow> bp_reachable \<lparr>rd_pc = Arming,
     rd_bp = \<lparr>pending_grpc_requests = 32 - k, is_reading_suspended = (8 < 32 - k)\<rparr>, rd_queued = 0\<rparr>"
proof (induction k)
  case 0
  from bp_next [OF bp_reach_requests [of 32 32] bp_suspend] show ?case by simp
next
  case (Suc k)
  then have "bp_reachable \<lparr>rd_pc = Arming,
     rd_bp = \<lparr>pending_grpc_requests = 32 - k, is_reading_suspended = (8 < 32 - k)\<rparr>, rd_queued = 0\<rparr>"
    by simp
  from bp_next [OF this bp_complete] Suc.prems show ?case
    by (simp add: bp_defs Let_def diff_Suc split: if_splits nat.splits)
qed

definition bp_lost_state :: bp_sys where
  "bp_lost_state = \<lparr>rd_pc = Waiting, rd_bp = bp_init, rd_queued = 0\<rparr>"

lemma bp_reach_lost: "bp_reachable bp_lost_state"
  using bp_next [OF bp_reach_completions [of 32] bp_arm] by (simp add: bp_lost_state_def bp_init_def)

lemma bp_lost_stuck: "\<not> bp_step bp_lost_state t"
  by (simp add: bp_step_stuck bp_lost_state_def bp_init_def)


text \<open>C16: Losing a wake-up: the reader can reach the wait on the back-pressure timer after the
  last request completed and cancelled the timer too early. The flag is clear and no request
  is pending, yet no step of the read loop or of a completion is possible any more.\<close>

theorem backpressure_lost_wakeup:
  "\<exists>s. bp_reachable s \<and> rd_pc s = Waiting \<and> \<not> is_reading_suspended (rd_bp s) \<and>
     pending_grpc_requests (rd_bp s) = 0 \<and> (\<forall>t. \<not> bp_step s t)"
  using bp_reach_lost bp_lost_stuck by (intro exI [of _ bp_lost_state]) (simp add: bp_lost_state_def bp_init_def)

text \<open>Back-pressure is a hysteresis: after any history of request starts and completions,
  reading is suspended only above 8 pending requests, and at 32 or more it is suspended.\<close>

theorem backpressure_hysteresis:
  "let s = fold bp_apply ops bp_init in
     (is_reading_suspended s \<longrightarrow> 8 < pending_grpc_requests s) \<and>
     (\<not> is_reading_suspended s \<longrightarrow> pending_grpc_requests s < 32)"
  using bp_run_ok [of ops] by (simp add: bp_ok_def Let_def)

theorem backpressure_hysteresis_witness:
  "is_reading_suspended (fold bp_apply (replicate 32 Inc @ replicate 23 Dec) bp_init) \<and>
   \<not> is_reading_suspended (fold bp_apply (replicate 32 Inc @ replicate 24 Dec) bp_init) \<and>
   8 < pending_grpc_requests (fold bp_apply (replicate 32 Inc @ replicate 23 Dec) bp_init)"
proof -
  have "is_reading_suspended (fold bp_apply (replicate 32 Inc @ replicate 23 Dec) bp_init)"
    "\<not> is_reading_suspended (fold bp_apply (replicate 32 Inc @ replicate 24 Dec) bp_init)"
    by code_simp+
  with backpressure_hysteresis [of "replicate 32 Inc @ replicate 23 Dec"] show ?thesis
    by (simp add: Let_def)
qed

section \<open>What a client receives\<close>

text \<open>C7: In every reachable state of the send path, under any interleaving of senders, closures,
  writer, errors and closing, the bytes written so far parse into complete packets, and these
  are a subsequence, in order, of the packets given to \<open>Send\<close>: packets may be dropped when the
  channel is full or closed, never reordered, duplicated or corrupted.\<close>

theorem written_packets_in_order:
  assumes "send_reachable s"
  shows "\<exists>ps. subseq ps (sent_log s) \<and>
    recv_frames (concat (map wire_bytes (written s))) = (ps, AwaitMore [])"
proof -
  obtain bufs where b: "list_all2 (\<lambda>(pid, payload) b. Send_buffer pid payload = Some b) (sent_log s) bufs"
    "subseq (written s @ on_the_way s) bufs"
    using send_reachable_inv [OF assms] by (auto simp: send_inv_def)
  have "subseq (written s) (written s @ on_the_way s)" by (rule prefix_imp_subseq) simp
  then have "subseq (written s) bufs" using b(2) by (rule subseq_order.order_trans)
  from list_all2_subseq [OF b(1) this] obtain ps where "subseq ps (sent_log s)"
    "list_all2 (\<lambda>(pid, payload) b. Send_buffer pid payload = Some b) ps (written s)" by blast
  with recv_frames_sent show ?thesis by blast
qed

text \<open>One packet sent, posted, received by the writer and written.\<close>

definition one_packet_run :: "send_state option" where
  "one_packet_run = map_option (\<lambda>s. write_complete (write_receive (run_posted s)))
     (Send SC_HEARTBEAT_ACK [] send_init)"

lemma one_packet_run_reachable: "\<exists>s. one_packet_run = Some s \<and> send_reachable s \<and> length (written s) = 1"
proof -
  have "Send SC_HEARTBEAT_ACK [] send_init \<noteq> None" by code_simp
  then obtain s0 where s0: "Send SC_HEARTBEAT_ACK [] send_init = Some s0" by blast
  then have r0: "send_reachable s0" by (metis reach_init reach_step step_send)
  have f0: "posted s0 \<noteq> []" "chan s0 = []" "inflight s0 = []" "writer_alive s0" "chan_open s0" "written s0 = []"
    using s0 by (auto simp: Send_def send_init_def split: option.splits)
  then obtain b ps where b: "posted s0 = b # ps" by (cases "posted s0") auto
  define s1 where "s1 = run_posted s0"
  have f1: "chan s1 = [b]" "inflight s1 = []" "writer_alive s1" "written s1 = []"
    using f0 b by (simp_all add: s1_def run_posted_def CHANNEL_CAPACITY_def)
  have r1: "send_reachable s1" unfolding s1_def by (rule reach_step [OF r0 step_posted [OF f0(1)]])
  define s2 where "s2 = write_receive s1"
  have f2: "inflight s2 = [b]" "written s2 = []" using f1 by (simp_all add: s2_def write_receive_def)
  have r2: "send_reachable s2"
    unfolding s2_def by (rule reach_step [OF r1 step_receive]) (simp_all add: f1)
  have r3: "send_reachable (write_complete s2)"
    by (rule reach_step [OF r2 step_complete]) (simp add: f2)
  have "length (written (write_complete s2)) = 1" using f2 by (simp add: write_complete_def)
  with r3 s0 show ?thesis by (simp add: one_packet_run_def s1_def s2_def)
qed

theorem written_packets_in_order_witness:
  "\<exists>s. one_packet_run = Some s \<and> length (written s) = 1 \<and>
     (\<exists>ps. subseq ps (sent_log s) \<and>
        recv_frames (concat (map wire_bytes (written s))) = (ps, AwaitMore []))"
  using one_packet_run_reachable written_packets_in_order by blast

text \<open>C9: No leak and no double deletion: in every reachable state the heap blocks allocated by
  \<open>Send\<close> and not yet deleted are exactly those of the buffers still posted, in the channel or
  in flight; so when the session is destroyed, with no closure posted and no writer left,
  none remains.\<close>

theorem send_heap_accounting:
  assumes "send_reachable s"
  shows "heap_live s = heap_blocks (on_the_way s) \<and> 0 \<le> heap_live s \<and>
    (posted s = [] \<and> \<not> writer_alive s \<longrightarrow> heap_live (session_destroy s) = 0)"
proof -
  have h: "heap_live s = heap_blocks (on_the_way s)"
    using send_reachable_inv [OF assms] by (simp add: send_inv_def)
  have "heap_live (session_destroy s) = 0" if "posted s = []" "\<not> writer_alive s"
    using h that on_the_way_writer [OF assms]
    by (simp add: session_destroy_def drain_channel_def close_channel_def on_the_way_def)
  with h show ?thesis by (simp add: heap_blocks_def)
qed

theorem send_heap_accounting_witness:
  "\<exists>s. one_packet_run = Some s \<and> heap_live s = heap_blocks (on_the_way s)"
  using one_packet_run_reachable send_heap_accounting by blast

end
