(* ===== verification/Queues.thy ===== *)
theory Queues
  imports Packet
begin

text \<open>
  The queues that carry work from the I/O and gRPC threads to the main thread:
  \<open>GrpcResultQueue\<close> (\<open>GrpcResultQueue.h\<close>), the command queue of \<open>TcpServer\<close>
  (\<open>QueueCommand\<close>, \<open>DrainPlayerCommands\<close>) and the two queues of \<open>Benchmark.cpp\<close>.
  Each method body runs under the queue's mutex, so a concurrent history is a sequence
  of whole operations. The locale \<open>drain_queue\<close> states the contract they share; the
  history theorem is proved once inside it.
\<close>

section \<open>The contract: push and drain\<close>

datatype 'a queue_op = PushOp 'a | DrainOp

fun pushed :: "'a queue_op list \<Rightarrow> 'a list" where
  "pushed [] = []"
| "pushed (PushOp x # ops) = x # pushed ops"
| "pushed (DrainOp # ops) = pushed ops"

text \<open>A history of operations: the batches the drains returned, and the final queue.\<close>

fun run_ops :: "('a \<Rightarrow> 'q \<Rightarrow> 'q) \<Rightarrow> ('q \<Rightarrow> 'a list \<times> 'q) \<Rightarrow> 'a queue_op list \<Rightarrow> 'q
    \<Rightarrow> 'a list list \<times> 'q" where
  "run_ops push drain [] q = ([], q)"
| "run_ops push drain (PushOp x # ops) q = run_ops push drain ops (push x q)"
| "run_ops push drain (DrainOp # ops) q =
     (let d = drain q; r = run_ops push drain ops (snd d) in (fst d # fst r, snd r))"

locale drain_queue =
  fixes push :: "'a \<Rightarrow> 'q \<Rightarrow> 'q"
    and drain :: "'q \<Rightarrow> 'a list \<times> 'q"
    and content :: "'q \<Rightarrow> 'a list"
    and invar :: "'q \<Rightarrow> bool"
  assumes content_push: "invar q \<Longrightarrow> content (push x q) = content q @ [x]"
    and drain_items: "invar q \<Longrightarrow> fst (drain q) = content q"
    and content_drain: "invar q \<Longrightarrow> content (snd (drain q)) = []"
    and invar_push: "invar q \<Longrightarrow> invar (push x q)"
    and invar_drain: "invar q \<Longrightarrow> invar (snd (drain q))"
begin

lemma run_ops_invar: "invar q \<Longrightarrow> invar (snd (run_ops push drain ops q))"
  by (induction ops arbitrary: q rule: pushed.induct)
     (auto simp: Let_def invar_push invar_drain)

lemma run_ops_fifo:
  "invar q \<Longrightarrow>
     concat (fst (run_ops push drain ops q)) @ content (snd (run_ops push drain ops q))
       = content q @ pushed ops"
  by (induction ops arbitrary: q rule: pushed.induct)
     (auto simp: Let_def content_push drain_items content_drain invar_push invar_drain)

lemma drain_twice: "invar q \<Longrightarrow> fst (drain (snd (drain q))) = []"
  by (simp add: drain_items content_drain invar_drain)

end

section \<open>\<open>GrpcResultQueue\<close>\<close>

record 'task grpc_queue =
  write_buffer :: "'task list"
  read_buffer :: "'task list"

definition grpc_queue_empty :: "'task grpc_queue" where
  "grpc_queue_empty = \<lparr>write_buffer = [], read_buffer = []\<rparr>"

definition Push :: "'task \<Rightarrow> 'task grpc_queue \<Rightarrow> 'task grpc_queue" where
  "Push t q = q\<lparr>write_buffer := write_buffer q @ [t]\<rparr>"

text \<open>The swap under the lock, and the dispatch of the read buffer outside it.\<close>

definition Drain_swap :: "'task grpc_queue \<Rightarrow> 'task grpc_queue" where
  "Drain_swap q = \<lparr>write_buffer = read_buffer q, read_buffer = write_buffer q\<rparr>"

definition Drain_clear :: "'task grpc_queue \<Rightarrow> 'task grpc_queue" where
  "Drain_clear q = q\<lparr>read_buffer := []\<rparr>"

definition Drain :: "'task grpc_queue \<Rightarrow> 'task list \<times> 'task grpc_queue" where
  "Drain q = (let q' = Drain_swap q in (read_buffer q', Drain_clear q'))"

definition grpc_queue_inv :: "'task grpc_queue \<Rightarrow> bool" where
  "grpc_queue_inv q \<longleftrightarrow> read_buffer q = []"

interpretation grpcq: drain_queue Push Drain write_buffer grpc_queue_inv
  by unfold_locales
     (auto simp: Push_def Drain_def Drain_swap_def Drain_clear_def grpc_queue_inv_def Let_def)

text \<open>
  The dispatch loop: each task of the swapped buffer is run once, in order, on the state
  the previous one left. A task may push (a completed call issues another one); such a
  push goes to the write buffer, which the loop does not read.
\<close>

fun dispatch :: "('task \<Rightarrow> 's \<Rightarrow> 's \<times> 'task list) \<Rightarrow> 'task list \<Rightarrow> 's \<Rightarrow> 'task grpc_queue
    \<Rightarrow> 's \<times> 'task grpc_queue" where
  "dispatch exec [] s q = (s, q)"
| "dispatch exec (t # ts) s q =
     (let r = exec t s in dispatch exec ts (fst r) (foldl (\<lambda>q t. Push t q) q (snd r)))"

definition Drain_dispatch ::
  "('task \<Rightarrow> 's \<Rightarrow> 's \<times> 'task list) \<Rightarrow> 's \<Rightarrow> 'task grpc_queue \<Rightarrow> 's \<times> 'task grpc_queue" where
  "Drain_dispatch exec s q =
     (let q' = Drain_swap q; r = dispatch exec (read_buffer q') s q'
      in (fst r, Drain_clear (snd r)))"

text \<open>The states the tasks see, and what they push, do not depend on the queue.\<close>

fun exec_all :: "('task \<Rightarrow> 's \<Rightarrow> 's \<times> 'task list) \<Rightarrow> 'task list \<Rightarrow> 's \<Rightarrow> 's \<times> 'task list" where
  "exec_all exec [] s = (s, [])"
| "exec_all exec (t # ts) s =
     (let r = exec t s; r' = exec_all exec ts (fst r) in (fst r', snd r @ snd r'))"

lemma foldl_Push:
  "foldl (\<lambda>q t. Push t q) q ts = q\<lparr>write_buffer := write_buffer q @ ts\<rparr>"
  by (induction ts arbitrary: q) (auto simp: Push_def)

lemma dispatch_exec_all:
  "dispatch exec ts s q =
     (fst (exec_all exec ts s), q\<lparr>write_buffer := write_buffer q @ snd (exec_all exec ts s)\<rparr>)"
  by (induction ts arbitrary: s q) (auto simp: Let_def foldl_Push)

lemma Drain_dispatch_spec:
  assumes "grpc_queue_inv q"
  shows "Drain_dispatch exec s q =
    (fst (exec_all exec (write_buffer q) s),
     \<lparr>write_buffer = snd (exec_all exec (write_buffer q) s), read_buffer = []\<rparr>)"
  using assms
  by (simp add: Drain_dispatch_def Drain_swap_def Drain_clear_def Let_def dispatch_exec_all
      grpc_queue_inv_def)

section \<open>The command queue of \<open>TcpServer\<close>\<close>

text \<open>\<open>pending_commands_\<close>; \<open>DrainPlayerCommands\<close> clears \<open>out\<close> and swaps.\<close>

definition QueueCommand :: "PlayerCommand \<Rightarrow> PlayerCommand list \<Rightarrow> PlayerCommand list" where
  "QueueCommand cmd pending = pending @ [cmd]"

definition DrainPlayerCommands ::
  "PlayerCommand list \<Rightarrow> PlayerCommand list \<Rightarrow> PlayerCommand list \<times> PlayerCommand list" where
  "DrainPlayerCommands out pending = (let out' = [] in (pending, out'))"

interpretation cmdq: drain_queue QueueCommand "DrainPlayerCommands out" "\<lambda>q. q" "\<lambda>_. True"
  by unfold_locales (auto simp: QueueCommand_def DrainPlayerCommands_def)

section \<open>The queues of the benchmark\<close>

definition SimpleMutexQueue_Push :: "'a \<Rightarrow> 'a list \<Rightarrow> 'a list" where
  "SimpleMutexQueue_Push v data = data @ [v]"

text \<open>\<open>Drain\<close> appends to the caller's buffer; \<open>Swap\<close> exchanges it with the queue.\<close>

definition SimpleMutexQueue_Drain :: "'a list \<Rightarrow> 'a list \<Rightarrow> 'a list \<times> 'a list" where
  "SimpleMutexQueue_Drain out data = (out @ data, [])"

definition DoubleBufferedQueue_Push :: "'a \<Rightarrow> 'a list \<Rightarrow> 'a list" where
  "DoubleBufferedQueue_Push v data = data @ [v]"

definition DoubleBufferedQueue_Swap :: "'a list \<Rightarrow> 'a list \<Rightarrow> 'a list \<times> 'a list" where
  "DoubleBufferedQueue_Swap read_queue write_queue = (write_queue, read_queue)"

interpretation mutexq:
  drain_queue SimpleMutexQueue_Push "SimpleMutexQueue_Drain []" "\<lambda>q. q" "\<lambda>_. True"
  by unfold_locales (auto simp: SimpleMutexQueue_Push_def SimpleMutexQueue_Drain_def)

interpretation swapq:
  drain_queue DoubleBufferedQueue_Push "DoubleBufferedQueue_Swap []" "\<lambda>q. q" "\<lambda>_. True"
  by unfold_locales (auto simp: DoubleBufferedQueue_Push_def DoubleBufferedQueue_Swap_def)


section \<open>Properties of the queues\<close>


text \<open>\<open>Drain\<close> runs every task queued before the call exactly once, in order, each on the
  state its predecessor left; the tasks these push meanwhile wait, in order, for the next
  drain, and the read buffer is empty again.\<close>

theorem Drain_runs_batch:
  "read_buffer q = [] \<Longrightarrow> Drain_dispatch exec s q =
     (fst (exec_all exec (write_buffer q) s),
      \<lparr>write_buffer = snd (exec_all exec (write_buffer q) s), read_buffer = []\<rparr>)"
  using Drain_dispatch_spec [of q exec s] by (simp add: grpc_queue_inv_def)

theorem Drain_runs_batch_witness:
  "Drain_dispatch (\<lambda>t s. (s + t, if t = 2 then [7] else [])) (10 :: int)
     \<lparr>write_buffer = [1, 2, 3], read_buffer = []\<rparr> = (16, \<lparr>write_buffer = [7], read_buffer = []\<rparr>)"
  using Drain_runs_batch [of "\<lparr>write_buffer = [1 :: int, 2, 3], read_buffer = []\<rparr>"
    "\<lambda>t s. (s + t, if t = 2 then [7] else [])" "10 :: int"]
  by simp

text \<open>The two queues the benchmark compares are interchangeable: with the consumer's buffer
  emptied between drains, as the benchmark does, every history yields the same batches.\<close>

theorem benchmark_queues_equivalent:
  "run_ops SimpleMutexQueue_Push (SimpleMutexQueue_Drain []) ops q =
   run_ops DoubleBufferedQueue_Push (DoubleBufferedQueue_Swap []) ops q"
  by (induction ops arbitrary: q rule: pushed.induct)
    (simp_all add: SimpleMutexQueue_Push_def SimpleMutexQueue_Drain_def
      DoubleBufferedQueue_Push_def DoubleBufferedQueue_Swap_def)

end
