(* ===== verification/Tcp.thy ===== *)
theory Tcp
  imports Session Queues
begin

text \<open>
  \<open>TcpServer\<close>: the session table, the id counter of the accept loop, the command queue,
  and sending to one or to all sessions. The table is an unordered map under a shared
  mutex; every operation is atomic, and a broadcast sends to each session once, in an
  order that no session can observe.
\<close>

record tcp_server =
  sessions :: "u32 \<rightharpoonup> send_state"
  next_session_id :: u32
  pending_commands :: "PlayerCommand list"
  is_running :: bool

definition TcpServer_init :: tcp_server where
  "TcpServer_init = \<lparr>sessions = Map.empty, next_session_id = 1, pending_commands = [],
     is_running = False\<rparr>"

definition Start :: "tcp_server \<Rightarrow> tcp_server" where
  "Start s = (if is_running s then s else s\<lparr>is_running := True\<rparr>)"

definition RegisterSession :: "u32 \<Rightarrow> send_state \<Rightarrow> tcp_server \<Rightarrow> tcp_server" where
  "RegisterSession index session s = s\<lparr>sessions := (sessions s)(index \<mapsto> session)\<rparr>"

definition UnregisterSession :: "u32 \<Rightarrow> tcp_server \<Rightarrow> tcp_server" where
  "UnregisterSession index s =
     (if sessions s index \<noteq> None then s\<lparr>sessions := (sessions s)(index := None)\<rparr> else s)"

definition GetSession :: "u32 \<Rightarrow> tcp_server \<Rightarrow> send_state option" where
  "GetSession index s = sessions s index"

text \<open>One turn of \<open>AcceptLoop\<close>: draw an id, construct the session, register it.\<close>

definition accept_client :: "tcp_server \<Rightarrow> tcp_server" where
  "accept_client s =
     (let session_idx = next_session_id s
      in RegisterSession session_idx send_init (s\<lparr>next_session_id := session_idx + 1\<rparr>))"

definition SendTo :: "u32 \<Rightarrow> u16 \<Rightarrow> u8 list \<Rightarrow> tcp_server \<Rightarrow> tcp_server option" where
  "SendTo index packet_id payload s =
     (case sessions s index of
        None \<Rightarrow> Some s
      | Some session \<Rightarrow> map_option (\<lambda>x. s\<lparr>sessions := (sessions s)(index \<mapsto> x)\<rparr>)
                          (Send packet_id payload session))"

text \<open>Whether the buffer fits depends on the payload only, so one test covers them all.\<close>

definition BroadcastPacket :: "u16 \<Rightarrow> u8 list \<Rightarrow> tcp_server \<Rightarrow> tcp_server option" where
  "BroadcastPacket packet_id payload s =
     (if sessions s = Map.empty then Some s
      else if Send_buffer packet_id payload = None then ub
      else Some (s\<lparr>sessions := (\<lambda>i. case sessions s i of
              None \<Rightarrow> None | Some session \<Rightarrow> Send packet_id payload session)\<rparr>))"

text \<open>\<open>SendProto\<close> and \<open>BroadcastProto\<close> on the serialised message: \<open>False\<close> when too long.\<close>

definition SendProto :: "u32 \<Rightarrow> u16 \<Rightarrow> u8 list \<Rightarrow> tcp_server \<Rightarrow> (bool \<times> tcp_server) option" where
  "SendProto index packet_id message s =
     (if SendProto_guard message
      then map_option (Pair True) (SendTo index packet_id message s)
      else Some (False, s))"

definition BroadcastProto :: "u16 \<Rightarrow> u8 list \<Rightarrow> tcp_server \<Rightarrow> (bool \<times> tcp_server) option" where
  "BroadcastProto packet_id message s =
     (if SendProto_guard message
      then map_option (Pair True) (BroadcastPacket packet_id message s)
      else Some (False, s))"

text \<open>\<open>HandlePacket\<close> on the server: queue the command, or acknowledge a heartbeat.\<close>

definition handle_packet_server :: "u32 \<Rightarrow> u16 \<Rightarrow> u8 list \<Rightarrow> tcp_server \<Rightarrow> tcp_server option" where
  "handle_packet_server index packet_id payload s =
     (case HandlePacket index packet_id payload of
        QueueCommand_act cmd \<Rightarrow>
          Some (s\<lparr>pending_commands := QueueCommand cmd (pending_commands s)\<rparr>)
      | HeartbeatAck \<Rightarrow> SendTo index SC_HEARTBEAT_ACK [] s
      | UnknownPacket _ \<Rightarrow> Some s)"

lemmas tcp_defs = RegisterSession_def UnregisterSession_def GetSession_def accept_client_def
  SendTo_def BroadcastPacket_def SendProto_def BroadcastProto_def handle_packet_server_def

section \<open>Session ids\<close>

datatype tcp_event = Accept | Unregister u32

fun tcp_apply :: "tcp_event \<Rightarrow> tcp_server \<Rightarrow> tcp_server" where
  "tcp_apply Accept s = accept_client s"
| "tcp_apply (Unregister i) s = UnregisterSession i s"

definition ids_inv :: "nat \<Rightarrow> tcp_server \<Rightarrow> bool" where
  "ids_inv n s \<longleftrightarrow> unat (next_session_id s) = n + 1 \<and>
     (\<forall>i. sessions s i \<noteq> None \<longrightarrow> 0 < i \<and> i < next_session_id s)"

lemma ids_inv_apply:
  assumes "ids_inv n s" and "n + 2 < 2 ^ 32"
  shows "ids_inv (if ev = Accept then n + 1 else n) (tcp_apply ev s)"
proof (cases ev)
  case Accept
  define k where "k = next_session_id s"
  have k: "unat k = n + 1" using assms(1) by (simp add: ids_inv_def k_def)
  have k1: "unat (k + 1) = n + 2"
    using k assms(2) by (subst unat_add_lem [THEN iffD1]) auto
  then have "k < k + 1" "0 < k" using k by (simp_all add: word_less_nat_alt)
  then show ?thesis
    using assms(1) Accept k1
    by (auto simp: ids_inv_def accept_client_def RegisterSession_def Let_def k_def [symmetric]
        intro: less_trans split: if_splits)
next
  case (Unregister i)
  then show ?thesis using assms(1) by (auto simp: ids_inv_def UnregisterSession_def)
qed

definition accepts :: "tcp_event list \<Rightarrow> nat" where
  "accepts evs = length (filter (\<lambda>e. e = Accept) evs)"

lemma ids_inv_run:
  "accepts evs + 2 < 2 ^ 32 \<Longrightarrow> ids_inv (accepts evs) (fold tcp_apply evs TcpServer_init)"
proof (induction evs rule: rev_induct)
  case Nil
  then show ?case by (simp add: ids_inv_def TcpServer_init_def accepts_def)
next
  case (snoc ev evs)
  then have "ids_inv (accepts evs) (fold tcp_apply evs TcpServer_init)"
    by (simp add: accepts_def split: if_splits)
  from ids_inv_apply [OF this, of ev] snoc.prems show ?case
    by (simp add: accepts_def split: if_splits)
qed

section \<open>Sending reaches exactly the addressed sessions\<close>

lemma SendTo_other: "SendTo i pid payload s = Some s' \<Longrightarrow> j \<noteq> i \<Longrightarrow> sessions s' j = sessions s j"
  by (auto simp: SendTo_def split: option.splits)

lemma SendTo_log:
  "SendTo i pid payload s = Some s' \<Longrightarrow> sessions s i = Some t \<Longrightarrow>
   \<exists>t'. sessions s' i = Some t' \<and> sent_log t' = sent_log t @ [(pid, payload)]"
  by (auto simp: SendTo_def Send_def split: option.splits)

lemma BroadcastPacket_log:
  "BroadcastPacket pid payload s = Some s' \<Longrightarrow> sessions s i = Some t \<Longrightarrow>
   \<exists>t'. sessions s' i = Some t' \<and> sent_log t' = sent_log t @ [(pid, payload)]"
  by (auto simp: BroadcastPacket_def Send_def split: option.splits if_splits)

lemma BroadcastPacket_dom: "BroadcastPacket pid payload s = Some s' \<Longrightarrow> dom (sessions s') = dom (sessions s)"
  by (auto simp: BroadcastPacket_def Send_def dom_def split: option.splits if_splits)


section \<open>Properties of the server\<close>

lemma fresh_id_step:
  assumes "ids_inv n s" "n + 2 < 2 ^ 32"
  shows "sessions s (next_session_id s) = None \<and> next_session_id s \<noteq> 0"
  using assms by (auto simp: ids_inv_def unat_eq_zero)

text \<open>C18: Until the 32-bit counter wraps, a new session never takes the id of a registered one,
  nor the reserved id 0, whatever sessions came and went before.\<close>

theorem accepted_ids_fresh:
  assumes "accepts evs + 2 < 2 ^ 32"
  shows "let s = fold tcp_apply evs TcpServer_init in
    next_session_id s \<noteq> 0 \<and> GetSession (next_session_id s) s = None \<and>
    GetSession (next_session_id s) (accept_client s) = Some send_init"
proof -
  have i: "ids_inv (accepts evs) (fold tcp_apply evs TcpServer_init)"
    by (rule ids_inv_run [OF assms])
  show ?thesis using fresh_id_step [OF i assms]
    by (simp add: Let_def tcp_defs)
qed

theorem accepted_ids_fresh_witness:
  "GetSession 3 (fold tcp_apply [Accept, Accept, Unregister 1] TcpServer_init) = None"
proof -
  have "next_session_id (fold tcp_apply [Accept, Accept, Unregister 1] TcpServer_init) = 3"
    by (simp add: tcp_defs TcpServer_init_def Let_def)
  with accepted_ids_fresh [of "[Accept, Accept, Unregister 1]"] show ?thesis
    by (simp add: accepts_def Let_def)
qed

text \<open>A packet sent to one session is logged in the send path of that session only; a
  broadcast is logged once in that of every registered session; neither creates or removes
  a session, and a session that is gone is skipped.\<close>

theorem packets_reach_addressees:
  "(SendTo i pid payload s = Some s' \<longrightarrow>
      (\<forall>j. map_option sent_log (sessions s' j) = map_option (\<lambda>t. if j = i
         then sent_log t @ [(pid, payload)] else sent_log t) (sessions s j))) \<and>
   (BroadcastPacket pid payload s = Some s' \<longrightarrow>
      (\<forall>j. map_option sent_log (sessions s' j) =
         map_option (\<lambda>t. sent_log t @ [(pid, payload)]) (sessions s j)))"
proof (intro conjI impI allI)
  fix j
  assume "SendTo i pid payload s = Some s'"
  then show "map_option sent_log (sessions s' j) = map_option (\<lambda>t. if j = i
      then sent_log t @ [(pid, payload)] else sent_log t) (sessions s j)"
    by (cases "sessions s j") (auto simp: SendTo_def Send_def split: option.splits)
next
  fix j
  assume "BroadcastPacket pid payload s = Some s'"
  then show "map_option sent_log (sessions s' j) =
      map_option (\<lambda>t. sent_log t @ [(pid, payload)]) (sessions s j)"
    by (cases "sessions s j") (auto simp: BroadcastPacket_def Send_def split: option.splits if_splits)
qed

definition two_sessions :: tcp_server where
  "two_sessions = fold tcp_apply [Accept, Accept] TcpServer_init"

theorem packets_reach_addressees_witness:
  "\<exists>s'. SendTo 1 SC_HEARTBEAT_ACK [] two_sessions = Some s' \<and>
     map_option sent_log (sessions s' 1) = Some [(SC_HEARTBEAT_ACK, [])] \<and>
     map_option sent_log (sessions s' 2) = Some []"
proof -
  have "Send_buffer SC_HEARTBEAT_ACK [] \<noteq> None" by code_simp
  moreover have s: "sessions two_sessions = [1 \<mapsto> send_init, 2 \<mapsto> send_init]"
    by (simp add: two_sessions_def tcp_defs TcpServer_init_def Let_def)
  ultimately obtain s' where s': "SendTo 1 SC_HEARTBEAT_ACK [] two_sessions = Some s'"
    by (auto simp: SendTo_def Send_def)
  have "map_option sent_log (sessions s' j) = map_option (\<lambda>t. if j = 1
      then sent_log t @ [(SC_HEARTBEAT_ACK, [])] else sent_log t) (sessions two_sessions j)" for j
    using packets_reach_addressees [of 1 SC_HEARTBEAT_ACK "[]" two_sessions s'] s' by blast
  from this [of 1] this [of 2] s s' show ?thesis by (simp add: send_init_def)
qed

end
