(* ===== verification/Literals.thy ===== *)
theory Literals
  imports Main "HOL-Library.Sublist"
begin

text \<open>
  The string literals of the sources. The program is compiled with \<open>/utf-8\<close>, so a
  Korean literal is the list of its UTF-8 bytes; each definition is named after the
  meaning of its literal.
  \<open>contains\<close> is \<open>std::string::find(sub) != std::string::npos\<close>.
\<close>

section \<open>Substring search\<close>

fun contains :: "string \<Rightarrow> string \<Rightarrow> bool" where
  "contains sub [] = (sub = [])"
| "contains sub (c # cs) = (take (length sub) (c # cs) = sub \<or> contains sub cs)"

lemma contains_iff_sublist: "contains sub s \<longleftrightarrow> sublist sub s"
proof (induction s)
  case Nil
  then show ?case by simp
next
  case (Cons c cs)
  have "take (length sub) (c # cs) = sub \<longleftrightarrow> prefix sub (c # cs)"
    by (metis append_eq_conv_conj append_take_drop_id prefix_def)
  with Cons show ?case by (auto simp: sublist_Cons_right)
qed

section \<open>Literals\<close>

named_theorems lit_defs

definition lit_sleeping :: string where [lit_defs]:
  "lit_sleeping = [CHR 0xEC, CHR 0xB7, CHR 0xA8, CHR 0xEC, CHR 0xB9, CHR 0xA8]"

definition lit_resting :: string where [lit_defs]:
  "lit_resting = [CHR 0xED, CHR 0x9C, CHR 0xB4, CHR 0xEC, CHR 0x8B, CHR 0x9D]"

definition lit_praying :: string where [lit_defs]:
  "lit_praying = [CHR 0xEA, CHR 0xB8, CHR 0xB0, CHR 0xEB, CHR 0x8F, CHR 0x84]"

definition lit_meditating :: string where [lit_defs]:
  "lit_meditating = [CHR 0xEB, CHR 0xAA, CHR 0x85, CHR 0xEC, CHR 0x83, CHR 0x81]"

definition lit_waiting :: string where [lit_defs]:
  "lit_waiting = [CHR 0xEB, CHR 0x8C, CHR 0x80, CHR 0xEA, CHR 0xB8, CHR 0xB0]"

definition lit_in_dialogue :: string where [lit_defs]:
  "lit_in_dialogue = [CHR 0xEB, CHR 0x8C, CHR 0x80, CHR 0xED, CHR 0x99, CHR 0x94, CHR 0x20, CHR 0xEC,
    CHR 0xA4, CHR 0x91]"

definition lit_moving_to :: string where [lit_defs]:
  "lit_moving_to = [CHR 0xEC, CHR 0x9D, CHR 0xB4, CHR 0xEB, CHR 0x8F, CHR 0x99, CHR 0x20, CHR 0xEC,
    CHR 0xA4, CHR 0x91, CHR 0x3A, CHR 0x20]"

definition lit_wandering :: string where [lit_defs]:
  "lit_wandering = [CHR 0xEB, CHR 0xB0, CHR 0xB0, CHR 0xED, CHR 0x9A, CHR 0x8C, CHR 0x20, CHR 0xEC,
    CHR 0xA4, CHR 0x91]"

definition lit_wandering_around :: string where [lit_defs]:
  "lit_wandering_around = [CHR 0xEC, CHR 0xA3, CHR 0xBC, CHR 0xEB, CHR 0xB3, CHR 0x80, CHR 0x20, CHR 0xEB,
    CHR 0xB0, CHR 0xB0, CHR 0xED, CHR 0x9A, CHR 0x8C, CHR 0x20, CHR 0xEC, CHR 0xA4,
    CHR 0x91]"

definition lit_dead :: string where [lit_defs]:
  "lit_dead = [CHR 0xEC, CHR 0x82, CHR 0xAC, CHR 0xEB, CHR 0xA7, CHR 0x9D]"

definition lit_reflecting :: string where [lit_defs]:
  "lit_reflecting = [CHR 0xEC, CHR 0x84, CHR 0xB1, CHR 0xEC, CHR 0xB0, CHR 0xB0, CHR 0x20, CHR 0xEC,
    CHR 0xA4, CHR 0x91]"

definition lit_schedule_wait :: string where [lit_defs]:
  "lit_schedule_wait = [CHR 0xEC, CHR 0x8A, CHR 0xA4, CHR 0xEC, CHR 0xBC, CHR 0x80, CHR 0xEC, CHR 0xA4,
    CHR 0x84, CHR 0x20, CHR 0xEB, CHR 0x8C, CHR 0x80, CHR 0xEA, CHR 0xB8, CHR 0xB0]"

definition lit_dialogue_requested :: string where [lit_defs]:
  "lit_dialogue_requested = [CHR 0xEB, CHR 0x8C, CHR 0x80, CHR 0xED, CHR 0x99, CHR 0x94, CHR 0x20, CHR 0xEC,
    CHR 0x9A, CHR 0x94, CHR 0xEC, CHR 0xB2, CHR 0xAD, CHR 0x20, CHR 0xEC, CHR 0xA4,
    CHR 0x91]"

definition lit_collecting_thoughts :: string where [lit_defs]:
  "lit_collecting_thoughts = [CHR 0xEC, CHR 0x83, CHR 0x9D, CHR 0xEA, CHR 0xB0, CHR 0x81, CHR 0x20, CHR 0xEC,
    CHR 0xA0, CHR 0x95, CHR 0xEB, CHR 0xA6, CHR 0xAC, CHR 0x20, CHR 0xEC, CHR 0xA4,
    CHR 0x91]"

definition lit_awaiting_player :: string where [lit_defs]:
  "lit_awaiting_player = [CHR 0xED, CHR 0x94, CHR 0x8C, CHR 0xEB, CHR 0xA0, CHR 0x88, CHR 0xEC, CHR 0x9D,
    CHR 0xB4, CHR 0xEC, CHR 0x96, CHR 0xB4, CHR 0xEC, CHR 0x99, CHR 0x80, CHR 0x20,
    CHR 0xEB, CHR 0x8C, CHR 0x80, CHR 0xED, CHR 0x99, CHR 0x94, CHR 0x20, CHR 0xEB,
    CHR 0x8C, CHR 0x80, CHR 0xEA, CHR 0xB8, CHR 0xB0]"

definition lit_with_player :: string where [lit_defs]:
  "lit_with_player = [CHR 0xED, CHR 0x94, CHR 0x8C, CHR 0xEB, CHR 0xA0, CHR 0x88, CHR 0xEC, CHR 0x9D,
    CHR 0xB4, CHR 0xEC, CHR 0x96, CHR 0xB4, CHR 0xEC, CHR 0x99, CHR 0x80, CHR 0x20,
    CHR 0xEB, CHR 0x8C, CHR 0x80, CHR 0xED, CHR 0x99, CHR 0x94, CHR 0x20, CHR 0xEC,
    CHR 0xA4, CHR 0x91]"

definition lit_eating :: string where [lit_defs]:
  "lit_eating = [CHR 0xEC, CHR 0x8B, CHR 0x9D, CHR 0xEC, CHR 0x82, CHR 0xAC, CHR 0x20, CHR 0xEC,
    CHR 0xA4, CHR 0x91]"

definition lit_asleep :: string where [lit_defs]:
  "lit_asleep = [CHR 0xEC, CHR 0xB7, CHR 0xA8, CHR 0xEC, CHR 0xB9, CHR 0xA8, CHR 0x20, CHR 0xEC,
    CHR 0xA4, CHR 0x91]"

definition lit_temp_campfire :: string where [lit_defs]:
  "lit_temp_campfire = [CHR 0xEC, CHR 0x9E, CHR 0x84, CHR 0xEC, CHR 0x8B, CHR 0x9C, CHR 0x20, CHR 0xEB,
    CHR 0xAA, CHR 0xA8, CHR 0xEB, CHR 0x8B, CHR 0xA5, CHR 0xEB, CHR 0xB6, CHR 0x88]"

definition lit_temp_camp :: string where [lit_defs]:
  "lit_temp_camp = [CHR 0xEC, CHR 0x9E, CHR 0x84, CHR 0xEC, CHR 0x8B, CHR 0x9C, CHR 0x20, CHR 0xEC,
    CHR 0x95, CHR 0xBC, CHR 0xEC, CHR 0x98, CHR 0x81, CHR 0xEC, CHR 0xA7, CHR 0x80]"

definition lit_temp :: string where [lit_defs]:
  "lit_temp = [CHR 0xEC, CHR 0x9E, CHR 0x84, CHR 0xEC, CHR 0x8B, CHR 0x9C]"

definition lit_wasteland :: string where [lit_defs]:
  "lit_wasteland = [CHR 0xED, CHR 0x99, CHR 0xA9, CHR 0xEB, CHR 0xAC, CHR 0xB4, CHR 0xEC, CHR 0xA7,
    CHR 0x80]"

definition lit_plaza :: string where [lit_defs]:
  "lit_plaza = [CHR 0xEA, CHR 0xB4, CHR 0x91, CHR 0xEC, CHR 0x9E, CHR 0xA5]"

definition lit_fleeing :: string where [lit_defs]:
  "lit_fleeing = [CHR 0xEB, CHR 0x8F, CHR 0x84, CHR 0xEB, CHR 0xA7, CHR 0x9D, CHR 0xEC, CHR 0xB9,
    CHR 0x98, CHR 0xEB, CHR 0x8A, CHR 0x94, CHR 0x20, CHR 0xEC, CHR 0xA4, CHR 0x91,
    CHR 0x21]"

definition lit_chasing :: string where [lit_defs]:
  "lit_chasing = [CHR 0xEC, CHR 0xB6, CHR 0x94, CHR 0xEA, CHR 0xB2, CHR 0xA9, CHR 0x20, CHR 0xEC,
    CHR 0xA4, CHR 0x91, CHR 0x3A, CHR 0x20]"

definition lit_facing :: string where [lit_defs]:
  "lit_facing = [CHR 0xEB, CHR 0x8C, CHR 0x80, CHR 0xEC, CHR 0xB9, CHR 0x98, CHR 0x20, CHR 0xEC,
    CHR 0xA4, CHR 0x91, CHR 0x3A, CHR 0x20]"

definition lit_attacking :: string where [lit_defs]:
  "lit_attacking = [CHR 0xEA, CHR 0xB3, CHR 0xB5, CHR 0xEA, CHR 0xB2, CHR 0xA9, CHR 0x20, CHR 0xEC,
    CHR 0xA4, CHR 0x91, CHR 0x3A, CHR 0x20]"

definition lit_standoff :: string where [lit_defs]:
  "lit_standoff = [CHR 0xEC, CHR 0x99, CHR 0x80, CHR 0x20, CHR 0xEB, CHR 0x8C, CHR 0x80, CHR 0xEC,
    CHR 0xB9, CHR 0x98, CHR 0x20, CHR 0xEC, CHR 0xA4, CHR 0x91, CHR 0x20, CHR 0x28,
    CHR 0xEC, CHR 0x83, CHR 0x9D, CHR 0xEA, CHR 0xB0, CHR 0x81, CHR 0xED, CHR 0x95,
    CHR 0x98, CHR 0xEB, CHR 0x8A, CHR 0x94, CHR 0x20, CHR 0xEC, CHR 0xA4, CHR 0x91,
    CHR 0x29]"

definition lit_anxiety :: string where [lit_defs]:
  "lit_anxiety = [CHR 0xEB, CHR 0xB6, CHR 0x88, CHR 0xEC, CHR 0x95, CHR 0x88]"

definition lit_alertness :: string where [lit_defs]:
  "lit_alertness = [CHR 0xEA, CHR 0xB2, CHR 0xBD, CHR 0xEA, CHR 0xB3, CHR 0x84]"

definition lit_wolf :: string where [lit_defs]:
  "lit_wolf = [CHR 0xEB, CHR 0x8A, CHR 0x91, CHR 0xEB, CHR 0x8C, CHR 0x80]"

definition lit_goblin :: string where [lit_defs]:
  "lit_goblin = [CHR 0xEA, CHR 0xB3, CHR 0xA0, CHR 0xEB, CHR 0xB8, CHR 0x94, CHR 0xEB, CHR 0xA6,
    CHR 0xB0]"

definition lit_bandit :: string where [lit_defs]:
  "lit_bandit = [CHR 0xEB, CHR 0x8F, CHR 0x84, CHR 0xEC, CHR 0xA0, CHR 0x81]"

definition lit_anger :: string where [lit_defs]:
  "lit_anger = [CHR 0xEB, CHR 0xB6, CHR 0x84, CHR 0xEB, CHR 0x85, CHR 0xB8]"

definition lit_fear :: string where [lit_defs]:
  "lit_fear = [CHR 0xEA, CHR 0xB3, CHR 0xB5, CHR 0xED, CHR 0x8F, CHR 0xAC]"

definition lit_gloom :: string where [lit_defs]:
  "lit_gloom = [CHR 0xEC, CHR 0x9A, CHR 0xB0, CHR 0xEC, CHR 0x9A, CHR 0xB8]"

definition lit_sadness :: string where [lit_defs]:
  "lit_sadness = [CHR 0xEC, CHR 0x8A, CHR 0xAC, CHR 0xED, CHR 0x94, CHR 0x94]"

definition lit_suspicion :: string where [lit_defs]:
  "lit_suspicion = [CHR 0xEC, CHR 0x9D, CHR 0x98, CHR 0xEC, CHR 0x8B, CHR 0xAC]"

definition lit_cynicism :: string where [lit_defs]:
  "lit_cynicism = [CHR 0xEB, CHR 0x83, CHR 0x89, CHR 0xEC, CHR 0x86, CHR 0x8C]"

definition lit_hostility :: string where [lit_defs]:
  "lit_hostility = [CHR 0xEC, CHR 0xA0, CHR 0x81, CHR 0xEB, CHR 0x8C, CHR 0x80]"

definition lit_joy :: string where [lit_defs]:
  "lit_joy = [CHR 0xEA, CHR 0xB8, CHR 0xB0, CHR 0xEC, CHR 0x81, CHR 0xA8]"

definition lit_surprise :: string where [lit_defs]:
  "lit_surprise = [CHR 0xEB, CHR 0x86, CHR 0x80, CHR 0xEB, CHR 0x9E, CHR 0x8C]"

definition lit_expectation :: string where [lit_defs]:
  "lit_expectation = [CHR 0xEA, CHR 0xB8, CHR 0xB0, CHR 0xEB, CHR 0x8C, CHR 0x80]"

definition lit_compassion :: string where [lit_defs]:
  "lit_compassion = [CHR 0xEC, CHR 0x97, CHR 0xB0, CHR 0xEB, CHR 0xAF, CHR 0xBC]"

definition lit_excitement :: string where [lit_defs]:
  "lit_excitement = [CHR 0xED, CHR 0x9D, CHR 0xA5, CHR 0xEB, CHR 0xB6, CHR 0x84]"

definition lit_cheer :: string where [lit_defs]:
  "lit_cheer = [CHR 0xEC, CHR 0x9C, CHR 0xA0, CHR 0xEC, CHR 0xBE, CHR 0x8C]"

definition lit_fun :: string where [lit_defs]:
  "lit_fun = [CHR 0xEC, CHR 0x9E, CHR 0xAC, CHR 0xEB, CHR 0xAF, CHR 0xB8]"

definition lit_interest :: string where [lit_defs]:
  "lit_interest = [CHR 0xED, CHR 0x9D, CHR 0xA5, CHR 0xEB, CHR 0xAF, CHR 0xB8]"

definition lit_calm :: string where [lit_defs]:
  "lit_calm = [CHR 0xED, CHR 0x8F, CHR 0x89, CHR 0xEC, CHR 0x98, CHR 0xA8]"

definition lit_camp_eating :: string where [lit_defs]:
  "lit_camp_eating = [CHR 0xED, CHR 0x99, CHR 0xA9, CHR 0xEB, CHR 0xAC, CHR 0xB4, CHR 0xEC, CHR 0xA7,
    CHR 0x80, CHR 0x20, CHR 0xEC, CHR 0x95, CHR 0xBC, CHR 0xEC, CHR 0x98, CHR 0x81,
    CHR 0xEC, CHR 0xA7, CHR 0x80, CHR 0xEC, CHR 0x97, CHR 0x90, CHR 0xEC, CHR 0x84,
    CHR 0x9C, CHR 0x20, CHR 0xEC, CHR 0x8B, CHR 0x9D, CHR 0xEC, CHR 0x82, CHR 0xAC,
    CHR 0x20, CHR 0xEC, CHR 0xA4, CHR 0x91]"

definition lit_table_eating :: string where [lit_defs]:
  "lit_table_eating = [CHR 0xEC, CHR 0x8B, CHR 0x9D, CHR 0xED, CHR 0x83, CHR 0x81, CHR 0xEC, CHR 0x97,
    CHR 0x90, CHR 0x20, CHR 0xEC, CHR 0x95, CHR 0x89, CHR 0xEC, CHR 0x95, CHR 0x84,
    CHR 0x20, CHR 0xEC, CHR 0x8B, CHR 0x9D, CHR 0xEC, CHR 0x82, CHR 0xAC, CHR 0x20,
    CHR 0xEC, CHR 0xA4, CHR 0x91]"

definition lit_camp_sleeping :: string where [lit_defs]:
  "lit_camp_sleeping = [CHR 0xED, CHR 0x99, CHR 0xA9, CHR 0xEB, CHR 0xAC, CHR 0xB4, CHR 0xEC, CHR 0xA7,
    CHR 0x80, CHR 0x20, CHR 0xEC, CHR 0x95, CHR 0xBC, CHR 0xEC, CHR 0x98, CHR 0x81,
    CHR 0xEC, CHR 0xA7, CHR 0x80, CHR 0xEC, CHR 0x97, CHR 0x90, CHR 0xEC, CHR 0x84,
    CHR 0x9C, CHR 0x20, CHR 0xEC, CHR 0x88, CHR 0x99, CHR 0xEB, CHR 0xA9, CHR 0xB4,
    CHR 0x20, CHR 0xEC, CHR 0xA4, CHR 0x91]"

definition lit_bed_sleeping :: string where [lit_defs]:
  "lit_bed_sleeping = [CHR 0xEC, CHR 0xB9, CHR 0xA8, CHR 0xEB, CHR 0x8C, CHR 0x80, CHR 0xEC, CHR 0x97,
    CHR 0x90, CHR 0xEC, CHR 0x84, CHR 0x9C, CHR 0x20, CHR 0xEC, CHR 0x88, CHR 0x99,
    CHR 0xEB, CHR 0xA9, CHR 0xB4, CHR 0x20, CHR 0xEC, CHR 0xA4, CHR 0x91]"

definition lit_floor_eating :: string where [lit_defs]:
  "lit_floor_eating = [CHR 0xEC, CHR 0x9E, CHR 0x90, CHR 0xEB, CHR 0xA6, CHR 0xAC, CHR 0xEA, CHR 0xB0,
    CHR 0x80, CHR 0x20, CHR 0xEB, CHR 0xB6, CHR 0x80, CHR 0xEC, CHR 0xA1, CHR 0xB1,
    CHR 0xED, CHR 0x95, CHR 0xB4, CHR 0x20, CHR 0xEB, CHR 0xB0, CHR 0x94, CHR 0xEB,
    CHR 0x8B, CHR 0xA5, CHR 0xEC, CHR 0x97, CHR 0x90, CHR 0xEC, CHR 0x84, CHR 0x9C,
    CHR 0x20, CHR 0xEC, CHR 0x8B, CHR 0x9D, CHR 0xEC, CHR 0x82, CHR 0xAC, CHR 0x20,
    CHR 0xEC, CHR 0xA4, CHR 0x91]"

definition lit_floor_sleeping :: string where [lit_defs]:
  "lit_floor_sleeping = [CHR 0xEC, CHR 0x9E, CHR 0x90, CHR 0xEB, CHR 0xA6, CHR 0xAC, CHR 0xEA, CHR 0xB0,
    CHR 0x80, CHR 0x20, CHR 0xEB, CHR 0xB6, CHR 0x80, CHR 0xEC, CHR 0xA1, CHR 0xB1,
    CHR 0xED, CHR 0x95, CHR 0xB4, CHR 0x20, CHR 0xEA, CHR 0xB5, CHR 0xAC, CHR 0xEC,
    CHR 0x84, CHR 0x9D, CHR 0xEC, CHR 0x97, CHR 0x90, CHR 0xEC, CHR 0x84, CHR 0x9C,
    CHR 0x20, CHR 0xEC, CHR 0x84, CHR 0xA0, CHR 0xEC, CHR 0x9E, CHR 0xA0, CHR 0x20,
    CHR 0xEC, CHR 0xA4, CHR 0x91]"

definition lit_schedule_done :: string where [lit_defs]:
  "lit_schedule_done = [CHR 0xEC, CHR 0x8A, CHR 0xA4, CHR 0xEC, CHR 0xBC, CHR 0x80, CHR 0xEC, CHR 0xA4,
    CHR 0x84, CHR 0x20, CHR 0xEC, CHR 0x99, CHR 0x84, CHR 0xEB, CHR 0xA3, CHR 0x8C]"

definition lit_busy_dialogue_ctx :: string where [lit_defs]:
  "lit_busy_dialogue_ctx = [CHR 0xEB, CHR 0x8C, CHR 0x80, CHR 0xED, CHR 0x99, CHR 0x94, CHR 0x20, CHR 0xEA,
    CHR 0xB1, CHR 0xB8, CHR 0xEB, CHR 0xA0, CHR 0xA4, CHR 0xEC, CHR 0x84, CHR 0x9C,
    CHR 0x20, CHR 0xEB, CHR 0xB0, CHR 0x94, CHR 0xEC, CHR 0x81, CHR 0xA8, CHR 0x20,
    CHR 0xEC, CHR 0x83, CHR 0x81, CHR 0xED, CHR 0x83, CHR 0x9C, CHR 0xEB, CHR 0xA1,
    CHR 0x9C, CHR 0x20, CHR 0xEC, CHR 0xA0, CHR 0x84, CHR 0xED, CHR 0x99, CHR 0x98,
    CHR 0xEB, CHR 0x90, CHR 0xA8]"

definition lit_overheard :: string where [lit_defs]:
  "lit_overheard = [CHR 0x5B, CHR 0xEC, CHR 0x97, CHR 0xBF, CHR 0xEB, CHR 0x93, CHR 0xA4, CHR 0xEC,
    CHR 0x9D, CHR 0x8C, CHR 0x5D, CHR 0x20]"

definition lit_overheard_keywords :: string where [lit_defs]:
  "lit_overheard_keywords = [CHR 0x5B, CHR 0xEC, CHR 0x97, CHR 0xBF, CHR 0xEB, CHR 0x93, CHR 0xA4, CHR 0xEC,
    CHR 0x9D, CHR 0x8C, CHR 0x20, CHR 0x2D, CHR 0x20, CHR 0xEB, CHR 0x8B, CHR 0xA8,
    CHR 0xED, CHR 0x8E, CHR 0xB8, CHR 0xEC, CHR 0xA0, CHR 0x81, CHR 0x20, CHR 0xED,
    CHR 0x82, CHR 0xA4, CHR 0xEC, CHR 0x9B, CHR 0x8C, CHR 0xEB, CHR 0x93, CHR 0x9C,
    CHR 0x5D, CHR 0x20, CHR 0xEC, CHR 0xA3, CHR 0xBC, CHR 0xEC, CHR 0xA0, CHR 0x9C,
    CHR 0x3A, CHR 0x20]"

definition lit_unknown :: string where [lit_defs]:
  "lit_unknown = [CHR 0xEC, CHR 0x95, CHR 0x8C, CHR 0x20, CHR 0xEC, CHR 0x88, CHR 0x98, CHR 0x20,
    CHR 0xEC, CHR 0x97, CHR 0x86, CHR 0xEC, CHR 0x9D, CHR 0x8C]"

definition lit_lookup_failed :: string where [lit_defs]:
  "lit_lookup_failed = [CHR 0xEC, CHR 0xA1, CHR 0xB0, CHR 0xED, CHR 0x9A, CHR 0x8C, CHR 0x20, CHR 0xEC,
    CHR 0x8B, CHR 0xA4, CHR 0xED, CHR 0x8C, CHR 0xA8]"

definition lit_login_ok :: string where [lit_defs]:
  "lit_login_ok = [CHR 0xEB, CHR 0xA1, CHR 0x9C, CHR 0xEA, CHR 0xB7, CHR 0xB8, CHR 0xEC, CHR 0x9D,
    CHR 0xB8, CHR 0xEC, CHR 0x97, CHR 0x90, CHR 0x20, CHR 0xEC, CHR 0x84, CHR 0xB1,
    CHR 0xEA, CHR 0xB3, CHR 0xB5, CHR 0xED, CHR 0x96, CHR 0x88, CHR 0xEC, CHR 0x8A,
    CHR 0xB5, CHR 0xEB, CHR 0x8B, CHR 0x88, CHR 0xEB, CHR 0x8B, CHR 0xA4, CHR 0x2E]"

definition lit_relation :: string where [lit_defs]:
  "lit_relation = [CHR 0x5B, CHR 0xEA, CHR 0xB4, CHR 0x80, CHR 0xEA, CHR 0xB3, CHR 0x84, CHR 0x5D,
    CHR 0x20]"

definition lit_liking_label :: string where [lit_defs]:
  "lit_liking_label = [CHR 0x3A, CHR 0x20, CHR 0xED, CHR 0x98, CHR 0xB8, CHR 0xEA, CHR 0xB0, CHR 0x90,
    CHR 0xEB, CHR 0x8F, CHR 0x84, CHR 0x20]"

definition lit_trust_label :: string where [lit_defs]:
  "lit_trust_label = [CHR 0x20, CHR 0x2F, CHR 0x20, CHR 0xEC, CHR 0x8B, CHR 0xA0, CHR 0xEB, CHR 0xA2,
    CHR 0xB0, CHR 0xEB, CHR 0x8F, CHR 0x84, CHR 0x20]"

definition lit_batch_done :: string where [lit_defs]:
  "lit_batch_done = [CHR 0xEB, CHR 0xB0, CHR 0xB0, CHR 0xEC, CHR 0xB9, CHR 0x98, CHR 0x20, CHR 0xEC,
    CHR 0x97, CHR 0x85, CHR 0xEB, CHR 0x8D, CHR 0xB0, CHR 0xEC, CHR 0x9D, CHR 0xB4,
    CHR 0xED, CHR 0x8A, CHR 0xB8, CHR 0x20, CHR 0xEC, CHR 0x99, CHR 0x84, CHR 0xEB,
    CHR 0xA3, CHR 0x8C]"

definition lit_batch_ok_pre :: string where [lit_defs]:
  "lit_batch_ok_pre = [CHR 0xEB, CHR 0xB0, CHR 0xB0, CHR 0xEC, CHR 0xB9, CHR 0x98, CHR 0x20, CHR 0xEC,
    CHR 0x83, CHR 0x81, CHR 0xED, CHR 0x83, CHR 0x9C, CHR 0x20, CHR 0xEB, CHR 0x8F,
    CHR 0x99, CHR 0xEA, CHR 0xB8, CHR 0xB0, CHR 0xED, CHR 0x99, CHR 0x94, CHR 0x20,
    CHR 0xEC, CHR 0x84, CHR 0xB1, CHR 0xEA, CHR 0xB3, CHR 0xB5, CHR 0x3A, CHR 0x20]"

definition lit_batch_ok_post :: string where [lit_defs]:
  "lit_batch_ok_post = [CHR 0xEA, CHR 0xB0, CHR 0x9C, CHR 0x20, CHR 0xEC, CHR 0x97, CHR 0x90, CHR 0xEC,
    CHR 0x9D, CHR 0xB4, CHR 0xEC, CHR 0xA0, CHR 0x84, CHR 0xED, CHR 0x8A, CHR 0xB8,
    CHR 0x20, CHR 0xEC, CHR 0x97, CHR 0x85, CHR 0xEB, CHR 0x8D, CHR 0xB0, CHR 0xEC,
    CHR 0x9D, CHR 0xB4, CHR 0xED, CHR 0x8A, CHR 0xB8, CHR 0x20, CHR 0xEC, CHR 0x99,
    CHR 0x84, CHR 0xEB, CHR 0xA3, CHR 0x8C, CHR 0x2E]"

definition lit_grpc_error_ko :: string where [lit_defs]:
  "lit_grpc_error_ko = [CHR 0x67, CHR 0x52, CHR 0x50, CHR 0x43, CHR 0x20, CHR 0xEC, CHR 0x97, CHR 0x90,
    CHR 0xEB, CHR 0x9F, CHR 0xAC, CHR 0x20, CHR 0xEB, CHR 0xB0, CHR 0x9C, CHR 0xEC,
    CHR 0x83, CHR 0x9D, CHR 0x3A, CHR 0x20]"

end
