(* ===== verification/Float32.thy ===== *)
theory Float32
  imports Prelude_MV "HOL-Library.Log_Nat" Complex_Main
begin

text \<open>
  The C++ \<open>float\<close> and \<open>double\<close> types: IEEE 754 binary32 and binary64 with rounding to
  nearest, ties to even. A finite value is the rational number it stands for; the sign
  of a zero is not kept (the code never divides by a value that can be zero, and zeros
  compare equal). Every arithmetic operation computes the exact result and rounds it.
\<close>

section \<open>Rounding\<close>

datatype fmt = F32 | F64

fun prec :: "fmt \<Rightarrow> nat" where "prec F32 = 24" | "prec F64 = 53"
fun emin :: "fmt \<Rightarrow> int" where "emin F32 = -149" | "emin F64 = -1074"
fun emax :: "fmt \<Rightarrow> int" where "emax F32 = 128" | "emax F64 = 1024"

datatype fl = Fin rat | PInf | NInf | NaN

text \<open>Round a rational to the nearest integer, ties to the even one.\<close>

definition rne :: "rat \<Rightarrow> int" where
  "rne x = (let f = \<lfloor>x\<rfloor>; d = x - of_int f in
     if d < 1/2 then f else if d > 1/2 then f + 1 else if even f then f else f + 1)"

text \<open>The exponent of the leading binary digit of a positive rational.\<close>

definition ilog2 :: "rat \<Rightarrow> int" where
  "ilog2 x = (let pq = quotient_of x; k = bitlen (fst pq) - bitlen (snd pq)
              in if 2 powi k \<le> x then k else k - 1)"

text \<open>The exponent of the unit in the last place of the binade of \<open>x\<close>.\<close>

definition ulp_exp :: "fmt \<Rightarrow> rat \<Rightarrow> int" where
  "ulp_exp F x = max (ilog2 \<bar>x\<bar> - int (prec F - 1)) (emin F)"

definition rnd_rat :: "fmt \<Rightarrow> rat \<Rightarrow> rat" where
  "rnd_rat F x = (if x = 0 then 0
     else let e = ulp_exp F x in of_int (rne (x / 2 powi e)) * 2 powi e)"

definition rnd :: "fmt \<Rightarrow> rat \<Rightarrow> fl" where
  "rnd F x = (let y = rnd_rat F x in
     if 2 powi emax F \<le> y then PInf else if y \<le> - (2 powi emax F) then NInf else Fin y)"

subsection \<open>Rounding to an integer\<close>

lemma rne_of_int [simp]: "rne (of_int n) = n"
  by (simp add: rne_def)

lemma rne_bounds: "\<lfloor>x\<rfloor> \<le> rne x" "rne x \<le> \<lfloor>x\<rfloor> + 1"
  by (simp_all add: rne_def Let_def)

lemma rne_err: "\<bar>of_int (rne x) - x\<bar> \<le> 1/2"
proof -
  define f where "f = \<lfloor>x\<rfloor>"
  have f: "of_int f \<le> x" "x < of_int f + 1"
    using floor_correct [of x] by (simp_all add: f_def)
  have "rne x = (if x - of_int f < 1/2 then f else if x - of_int f > 1/2 then f + 1
      else if even f then f else f + 1)"
    by (simp add: rne_def f_def Let_def)
  with f show ?thesis by (auto split: if_splits simp: abs_if)
qed

lemma rne_mono: "x \<le> y \<Longrightarrow> rne x \<le> rne y"
proof (cases "\<lfloor>x\<rfloor> = \<lfloor>y\<rfloor>")
  case True
  assume "x \<le> y"
  with True show ?thesis by (auto simp: rne_def Let_def)
next
  case False
  assume "x \<le> y"
  then have "\<lfloor>x\<rfloor> \<le> \<lfloor>y\<rfloor>" by (rule floor_mono)
  with False have "\<lfloor>x\<rfloor> + 1 \<le> \<lfloor>y\<rfloor>" by simp
  with rne_bounds [of x] rne_bounds [of y] show ?thesis by linarith
qed

lemma rne_minus: "rne (- x) = - rne x"
proof (cases "x = of_int \<lfloor>x\<rfloor>")
  case True
  then obtain n where "x = of_int n" by blast
  then show ?thesis using rne_of_int [of "-n"] by simp
next
  case False
  define f where "f = \<lfloor>x\<rfloor>"
  have "of_int f < x" "x < of_int f + 1"
    using False floor_correct [of x] by (auto simp: f_def less_le)
  then have "\<lfloor>- x\<rfloor> = - f - 1"
    by (intro floor_unique) auto
  with False show ?thesis
    by (auto simp: rne_def Let_def f_def)
qed

lemma rne_ge_int: "of_int n \<le> x \<Longrightarrow> n \<le> rne x"
  using rne_mono [of "of_int n" x] by simp

lemma rne_le_int: "x \<le> of_int n \<Longrightarrow> rne x \<le> n"
  using rne_mono [of x "of_int n"] by simp

subsection \<open>The leading digit\<close>

lemma p2_mono: "(2::rat) powi a \<le> 2 powi b \<longleftrightarrow> a \<le> b"
  by (meson linorder_not_less power_int_increasing power_int_strict_increasing
      one_le_numeral one_less_numeral_iff semiring_norm(76) order_less_imp_not_less not_le)

lemma p2_add: "(2::rat) powi (a + b) = 2 powi a * 2 powi b"
  by (simp add: power_int_add)

lemma p2_int: "0 \<le> k \<Longrightarrow> (2::rat) powi k = of_int (2 ^ nat k)"
  by (simp add: power_int_nonneg_exp)

lemma p2_diff_int: "e \<le> k \<Longrightarrow> (2::rat) powi k / 2 powi e = of_int (2 ^ nat (k - e))"
  by (simp add: power_int_diff [symmetric] p2_int)

lemma rat_bitlen_bounds:
  assumes "0 < p"
  shows "2 powi (bitlen p - 1) \<le> (of_int p :: rat)" "(of_int p :: rat) < 2 powi bitlen p"
proof -
  have b: "2 ^ nat (bitlen p - 1) \<le> p" "p < 2 ^ nat (bitlen p)"
    using bitlen_bounds [OF assms] by auto
  have pos: "0 < bitlen p"
    using assms bitlen_nonneg [of p] bitlen_eq_zero_iff [of p] by linarith
  have "2 powi (bitlen p - 1) = (of_int (2 ^ nat (bitlen p - 1)) :: rat)"
    using pos by (intro p2_int) simp
  also have "\<dots> \<le> of_int p" using b(1) by (simp only: of_int_le_iff)
  finally show "2 powi (bitlen p - 1) \<le> (of_int p :: rat)" .
  have "(of_int p :: rat) < of_int (2 ^ nat (bitlen p))" using b(2) by (simp only: of_int_less_iff)
  also have "\<dots> = 2 powi bitlen p" using pos by (intro p2_int [symmetric]) simp
  finally show "(of_int p :: rat) < 2 powi bitlen p" .
qed

lemma ilog2_bounds:
  assumes "0 < x"
  shows "2 powi ilog2 x \<le> x" "x < 2 powi (ilog2 x + 1)"
proof -
  obtain p q where pq: "quotient_of x = (p, q)" by fastforce
  then have q: "0 < q" and x: "x = of_int p / of_int q"
    by (auto simp: quotient_of_denom_pos quotient_of_div)
  with assms have p: "0 < p" by (simp add: zero_less_divide_iff)
  define k where "k = bitlen p - bitlen q"
  have k: "ilog2 x = (if 2 powi k \<le> x then k else k - 1)"
    by (simp add: ilog2_def pq k_def Let_def)
  note bp = rat_bitlen_bounds [OF p] and bq = rat_bitlen_bounds [OF q]
  have q': "(0::rat) < of_int q" using q by simp
  have "(2::rat) powi (k - 1) * of_int q \<le> 2 powi (k - 1) * 2 powi bitlen q"
    using bq(2) by (intro mult_left_mono) auto
  also have "\<dots> = 2 powi (bitlen p - 1)" by (simp add: k_def flip: p2_add)
  also have "\<dots> \<le> of_int p" by (rule bp(1))
  finally have lo: "2 powi (k - 1) \<le> x" using q' by (simp add: x pos_le_divide_eq)
  have "(of_int p :: rat) < 2 powi bitlen p" by (rule bp(2))
  also have "\<dots> = 2 powi (k + 1) * 2 powi (bitlen q - 1)" by (simp add: k_def flip: p2_add)
  also have "\<dots> \<le> 2 powi (k + 1) * of_int q"
    using bq(1) by (intro mult_left_mono) auto
  finally have hi: "x < 2 powi (k + 1)" using q' by (simp add: x pos_divide_less_eq)
  show "2 powi ilog2 x \<le> x" using lo by (simp add: k)
  show "x < 2 powi (ilog2 x + 1)" using hi by (auto simp: k not_le)
qed

lemma ilog2_mono: "0 < x \<Longrightarrow> x \<le> y \<Longrightarrow> ilog2 x \<le> ilog2 y"
proof (rule ccontr)
  assume x: "0 < x" "x \<le> y" and "\<not> ilog2 x \<le> ilog2 y"
  then have "ilog2 y + 1 \<le> ilog2 x" by simp
  then have "(2::rat) powi (ilog2 y + 1) \<le> 2 powi ilog2 x" by (simp only: p2_mono)
  with ilog2_bounds(1) [OF x(1)] ilog2_bounds(2) [of y] x show False by simp
qed

subsection \<open>Rounding is monotone, exact on representable values, and close\<close>

lemma rnd_rat_0 [simp]: "rnd_rat F 0 = 0"
  by (simp add: rnd_rat_def)

lemma ulp_exp_minus [simp]: "ulp_exp F (- x) = ulp_exp F x"
  by (simp add: ulp_exp_def)

lemma rnd_rat_minus: "rnd_rat F (- x) = - rnd_rat F x"
  by (simp add: rnd_rat_def Let_def rne_minus)

lemma rnd_rat_nonneg: "0 \<le> x \<Longrightarrow> 0 \<le> rnd_rat F x"
  using rne_ge_int [of 0] by (auto simp: rnd_rat_def Let_def)

lemma ulp_exp_mono: "0 < x \<Longrightarrow> x \<le> y \<Longrightarrow> ulp_exp F x \<le> ulp_exp F y"
  using ilog2_mono [of x y] by (auto simp: ulp_exp_def)

lemma rnd_rat_mono_pos:
  assumes x: "0 < x" and xy: "x \<le> y"
  shows "rnd_rat F x \<le> rnd_rat F y"
proof -
  define ex where "ex = ulp_exp F x"
  define ey where "ey = ulp_exp F y"
  have y: "0 < y" using x xy by simp
  have rx: "rnd_rat F x = of_int (rne (x / 2 powi ex)) * 2 powi ex"
    and ry: "rnd_rat F y = of_int (rne (y / 2 powi ey)) * 2 powi ey"
    using x y by (auto simp: rnd_rat_def ex_def ey_def Let_def)
  have le: "ex \<le> ey" unfolding ex_def ey_def by (rule ulp_exp_mono [OF x xy])
  show ?thesis
  proof (cases "ex = ey")
    case True
    have "rne (x / 2 powi ex) \<le> rne (y / 2 powi ex)"
      using xy by (intro rne_mono divide_right_mono) auto
    then show ?thesis unfolding rx ry True [symmetric] by (intro mult_right_mono) auto
  next
    case False
    with le have lt: "ex < ey" by simp
    define l where "l = ilog2 y"
    have ey: "ey = l - int (prec F - 1)"
      using lt x y by (auto simp: ex_def ey_def ulp_exp_def l_def max_def split: if_splits)
    have lx: "ilog2 x < l"
      using lt ey x by (auto simp: ex_def ulp_exp_def)
    have "x < 2 powi (ilog2 x + 1)" using ilog2_bounds [OF x] by simp
    also have "\<dots> \<le> 2 powi l" using lx by (simp only: p2_mono)
    finally have xl: "x \<le> 2 powi l" by simp
    have exl: "ex \<le> l" using lt ey by simp
    have "x / 2 powi ex \<le> 2 powi l / 2 powi ex" using xl by (intro divide_right_mono) auto
    then have "x / 2 powi ex \<le> of_int (2 ^ nat (l - ex))" using p2_diff_int [OF exl] by simp
    then have "rne (x / 2 powi ex) \<le> 2 ^ nat (l - ex)" by (rule rne_le_int)
    then have "rnd_rat F x \<le> of_int (2 ^ nat (l - ex)) * 2 powi ex"
      unfolding rx by (intro mult_right_mono) (simp_all only: of_int_le_iff, simp)
    also have "\<dots> = 2 powi l" using p2_diff_int [OF exl] by (simp add: field_simps)
    finally have A: "rnd_rat F x \<le> 2 powi l" .
    have eyl: "ey \<le> l" using ey by simp
    have "2 powi l / 2 powi ey \<le> y / 2 powi ey"
      using ilog2_bounds(1) [OF y] by (intro divide_right_mono) (auto simp: l_def)
    then have "of_int (2 ^ nat (l - ey)) \<le> y / 2 powi ey" using p2_diff_int [OF eyl] by simp
    then have "2 ^ nat (l - ey) \<le> rne (y / 2 powi ey)" by (rule rne_ge_int)
    then have "of_int (2 ^ nat (l - ey)) * 2 powi ey \<le> rnd_rat F y"
      unfolding ry by (intro mult_right_mono) (simp_all only: of_int_le_iff, simp)
    moreover have "of_int (2 ^ nat (l - ey)) * 2 powi ey = (2::rat) powi l"
      using p2_diff_int [OF eyl] by (simp add: field_simps)
    ultimately show ?thesis using A by simp
  qed
qed

lemma rnd_rat_mono: "x \<le> y \<Longrightarrow> rnd_rat F x \<le> rnd_rat F y"
proof -
  assume xy: "x \<le> y"
  consider "0 < x" | "x \<le> 0" "0 \<le> y" | "y < 0" by linarith
  then show ?thesis
  proof cases
    case 1
    then show ?thesis by (rule rnd_rat_mono_pos [OF _ xy])
  next
    case 2
    then show ?thesis
      using rnd_rat_nonneg [of y F] rnd_rat_nonneg [of "- x" F] by (simp add: rnd_rat_minus)
  next
    case 3
    have "rnd_rat F (- y) \<le> rnd_rat F (- x)"
      using 3 xy by (intro rnd_rat_mono_pos) auto
    then show ?thesis by (simp add: rnd_rat_minus)
  qed
qed

lemma rnd_rat_err: "\<bar>rnd_rat F x - x\<bar> \<le> 2 powi ulp_exp F x / 2"
proof (cases "x = 0")
  case True
  then show ?thesis by simp
next
  case False
  define e where "e = ulp_exp F x"
  have eq: "rnd_rat F x - x = (of_int (rne (x / 2 powi e)) - x / 2 powi e) * 2 powi e"
    using False by (simp add: rnd_rat_def e_def Let_def algebra_simps)
  have "\<bar>rnd_rat F x - x\<bar> = \<bar>of_int (rne (x / 2 powi e)) - x / 2 powi e\<bar> * 2 powi e"
    unfolding eq by (simp add: abs_mult)
  also have "\<dots> \<le> 1/2 * 2 powi e" using rne_err by (intro mult_right_mono) auto
  finally show ?thesis by (simp add: e_def)
qed

text \<open>The values of a format: an integer below \<open>2 ^ prec\<close> times a power of two.\<close>

definition repr :: "fmt \<Rightarrow> rat \<Rightarrow> bool" where
  "repr F x \<longleftrightarrow> (\<exists>m k. x = of_int m * 2 powi k \<and> \<bar>m\<bar> < 2 ^ prec F \<and> emin F \<le> k)"

lemma prec_pos [simp]: "0 < prec F"
  by (cases F) auto

lemma repr_minus [simp]: "repr F (- x) \<longleftrightarrow> repr F x"
proof -
  have "repr F x \<Longrightarrow> repr F (- x)" for x
    unfolding repr_def by (metis abs_minus_cancel mult_minus_left of_int_minus)
  from this [of x] this [of "- x"] show ?thesis by auto
qed

lemma repr_pow2: "\<bar>m\<bar> \<le> 2 ^ prec F \<Longrightarrow> emin F \<le> k \<Longrightarrow> repr F (of_int m * 2 powi k)"
proof (cases "\<bar>m\<bar> = 2 ^ prec F")
  case True
  assume "emin F \<le> k"
  obtain h where h: "prec F = Suc h" using prec_pos [of F] gr0_implies_Suc by blast
  have m: "m = (if m < 0 then - 1 else 1) * 2 * 2 ^ h"
    using True h by (auto simp: abs_if split: if_splits)
  have k1: "(2::rat) powi (k + 1) = 2 powi k * 2" by (simp add: p2_add)
  have "of_int m * (2::rat) powi k = of_int ((if m < 0 then - 1 else 1) * 2 ^ h) * 2 powi (k + 1)"
    unfolding k1 by (subst m) (simp add: algebra_simps)
  then show ?thesis unfolding repr_def
    by (rule_tac x = "(if m < 0 then - 1 else 1) * 2 ^ h" in exI, rule_tac x = "k + 1" in exI)
       (use \<open>emin F \<le> k\<close> h in \<open>auto simp: abs_mult\<close>)
next
  case False
  assume "\<bar>m\<bar> \<le> 2 ^ prec F" "emin F \<le> k"
  with False show ?thesis unfolding repr_def by force
qed

lemma repr_of_int: "\<bar>m\<bar> \<le> 2 ^ prec F \<Longrightarrow> repr F (of_int m)"
  using repr_pow2 [of m F 0] by (cases F) auto

lemma rnd_rat_exact: "repr F x \<Longrightarrow> rnd_rat F x = x"
proof (cases "x = 0")
  case True
  then show ?thesis by simp
next
  case False
  assume "repr F x"
  then obtain m k where x: "x = of_int m * 2 powi k" and m: "\<bar>m\<bar> < 2 ^ prec F"
    and k: "emin F \<le> k" by (auto simp: repr_def)
  define e where "e = ulp_exp F x"
  have ek: "e \<le> k"
  proof (rule ccontr)
    assume "\<not> e \<le> k"
    then have "e = ilog2 \<bar>x\<bar> - int (prec F - 1)" "k < e"
      using k by (auto simp: e_def ulp_exp_def max_def split: if_splits)
    then have "k + int (prec F) \<le> ilog2 \<bar>x\<bar>" using prec_pos [of F] by linarith
    then have "(2::rat) powi (k + int (prec F)) \<le> 2 powi ilog2 \<bar>x\<bar>" by (simp only: p2_mono)
    also have "\<dots> \<le> \<bar>x\<bar>" using False by (intro ilog2_bounds) auto
    finally have "2 powi int (prec F) * 2 powi k \<le> of_int \<bar>m\<bar> * (2::rat) powi k"
      by (simp add: x abs_mult p2_add mult.commute)
    then have "(2::rat) ^ prec F \<le> of_int \<bar>m\<bar>" by (simp add: mult_le_cancel_right)
    with m show False
      by (metis linorder_not_less of_int_less_iff of_int_numeral of_int_power)
  qed
  have "x / 2 powi e = of_int m * (2 powi k / 2 powi e)" by (simp add: x)
  also have "\<dots> = of_int (m * 2 ^ nat (k - e))"
    unfolding p2_diff_int [OF ek] by simp
  finally have "x / 2 powi e = of_int (m * 2 ^ nat (k - e))" .
  then have "rne (x / 2 powi e) = m * 2 ^ nat (k - e)" by (simp only: rne_of_int)
  then have "rnd_rat F x = of_int (m * 2 ^ nat (k - e)) * 2 powi e"
    using False by (simp add: rnd_rat_def e_def Let_def)
  also have "\<dots> = x" using p2_diff_int [OF ek] by (simp add: x field_simps)
  finally show ?thesis .
qed

lemma repr_rnd_rat: "repr F (rnd_rat F x)"
proof (cases "x = 0")
  case True
  then show ?thesis using repr_of_int [of 0 F] by simp
next
  case False
  define e where "e = ulp_exp F x"
  have "\<bar>x\<bar> < 2 powi (ilog2 \<bar>x\<bar> + 1)" using False by (intro ilog2_bounds) auto
  also have "\<dots> \<le> 2 powi (e + int (prec F))"
    unfolding p2_mono using prec_pos [of F] unfolding e_def ulp_exp_def by linarith
  finally have "\<bar>x\<bar> < 2 powi e * of_int (2 ^ prec F)" by (simp add: p2_add)
  then have "\<bar>x / 2 powi e\<bar> \<le> of_int (2 ^ prec F)" by (simp add: abs_div field_simps)
  then have "x / 2 powi e \<le> of_int (2 ^ prec F)" "of_int (- (2 ^ prec F)) \<le> x / 2 powi e"
    unfolding abs_le_iff by simp_all
  then have "\<bar>rne (x / 2 powi e)\<bar> \<le> 2 ^ prec F"
    using rne_le_int rne_ge_int by (fastforce simp: abs_le_iff)
  then have "repr F (of_int (rne (x / 2 powi e)) * 2 powi e)"
    by (intro repr_pow2) (auto simp: e_def ulp_exp_def)
  then show ?thesis using False by (simp add: rnd_rat_def e_def Let_def)
qed

section \<open>Operations\<close>

lemma rnd_finite:
  assumes "lo \<le> x" "x \<le> hi" "repr F lo" "repr F hi" "- (2 powi emax F) < lo" "hi < 2 powi emax F"
  shows "\<exists>y. rnd F x = Fin y \<and> lo \<le> y \<and> y \<le> hi \<and> repr F y"
proof -
  have "lo \<le> rnd_rat F x" using rnd_rat_mono [OF assms(1), of F] assms(3) by (simp add: rnd_rat_exact)
  moreover have "rnd_rat F x \<le> hi"
    using rnd_rat_mono [OF assms(2), of F] assms(4) by (simp add: rnd_rat_exact)
  ultimately show ?thesis using assms by (auto simp: rnd_def Let_def repr_rnd_rat)
qed

lemma rnd_le: "rnd F x = Fin y \<Longrightarrow> x \<le> b \<Longrightarrow> repr F b \<Longrightarrow> y \<le> b"
  using rnd_rat_mono [of x b F] by (auto simp: rnd_def Let_def rnd_rat_exact split: if_splits)

lemma rnd_ge: "rnd F x = Fin y \<Longrightarrow> b \<le> x \<Longrightarrow> repr F b \<Longrightarrow> b \<le> y"
  using rnd_rat_mono [of b x F] by (auto simp: rnd_def Let_def rnd_rat_exact split: if_splits)

lemma rnd_exact: "repr F x \<Longrightarrow> \<bar>x\<bar> < 2 powi emax F \<Longrightarrow> rnd F x = Fin x"
  by (auto simp: rnd_def Let_def rnd_rat_exact)

lemma rnd_repr: "rnd F x = Fin y \<Longrightarrow> repr F y"
  by (auto simp: rnd_def Let_def repr_rnd_rat split: if_splits)

lemma rnd_not_NaN [simp]: "rnd F x \<noteq> NaN"
  by (simp add: rnd_def Let_def)

lemma rnd_of_int: "\<bar>n\<bar> \<le> 2 ^ prec F \<Longrightarrow> rnd F (of_int n) = Fin (of_int n)"
proof (rule rnd_exact [OF repr_of_int])
  assume n: "\<bar>n\<bar> \<le> 2 ^ prec F"
  have "\<bar>of_int n :: rat\<bar> \<le> of_int (2 ^ prec F)" using n by (simp only: of_int_abs [symmetric] of_int_le_iff)
  also have "\<dots> < 2 powi emax F" by (cases F) (simp_all)
  finally show "\<bar>of_int n :: rat\<bar> < 2 powi emax F" .
qed

subsection \<open>Arithmetic\<close>

fun fl_neg :: "fl \<Rightarrow> fl" where
  "fl_neg (Fin x) = Fin (- x)"
| "fl_neg PInf = NInf"
| "fl_neg NInf = PInf"
| "fl_neg NaN = NaN"

fun fl_add :: "fmt \<Rightarrow> fl \<Rightarrow> fl \<Rightarrow> fl" where
  "fl_add F (Fin x) (Fin y) = rnd F (x + y)"
| "fl_add F NaN _ = NaN"
| "fl_add F _ NaN = NaN"
| "fl_add F PInf NInf = NaN"
| "fl_add F NInf PInf = NaN"
| "fl_add F PInf _ = PInf"
| "fl_add F _ PInf = PInf"
| "fl_add F NInf _ = NInf"
| "fl_add F _ NInf = NInf"

definition fl_sub :: "fmt \<Rightarrow> fl \<Rightarrow> fl \<Rightarrow> fl" where
  "fl_sub F a b = fl_add F a (fl_neg b)"

definition signed_inf :: "rat \<Rightarrow> fl" where
  "signed_inf s = (if s = 0 then NaN else if 0 < s then PInf else NInf)"

fun fl_sgn :: "fl \<Rightarrow> rat" where
  "fl_sgn (Fin x) = sgn x" | "fl_sgn PInf = 1" | "fl_sgn NInf = -1" | "fl_sgn NaN = 0"

fun fl_mul :: "fmt \<Rightarrow> fl \<Rightarrow> fl \<Rightarrow> fl" where
  "fl_mul F (Fin x) (Fin y) = rnd F (x * y)"
| "fl_mul F a b = signed_inf (fl_sgn a * fl_sgn b)"

fun fl_div :: "fmt \<Rightarrow> fl \<Rightarrow> fl \<Rightarrow> fl" where
  "fl_div F (Fin x) (Fin y) = (if y = 0 then signed_inf (sgn x) else rnd F (x / y))"
| "fl_div F (Fin x) NaN = NaN"
| "fl_div F (Fin x) _ = Fin 0"
| "fl_div F a (Fin y) = signed_inf (fl_sgn a * (if y = 0 then 1 else sgn y))"
| "fl_div F _ _ = NaN"

abbreviation fadd :: "fl \<Rightarrow> fl \<Rightarrow> fl" where "fadd \<equiv> fl_add F32"
abbreviation fsub :: "fl \<Rightarrow> fl \<Rightarrow> fl" where "fsub \<equiv> fl_sub F32"
abbreviation fmul :: "fl \<Rightarrow> fl \<Rightarrow> fl" where "fmul \<equiv> fl_mul F32"
abbreviation fdiv :: "fl \<Rightarrow> fl \<Rightarrow> fl" where "fdiv \<equiv> fl_div F32"

text \<open>A decimal literal with suffix \<open>f\<close>; an integer converted to \<open>float\<close>.\<close>

abbreviation flit :: "rat \<Rightarrow> fl" where "flit \<equiv> rnd F32"
abbreviation of_i32 :: "int \<Rightarrow> fl" where "of_i32 n \<equiv> rnd F32 (of_int n)"

subsection \<open>Comparison\<close>

fun flt :: "fl \<Rightarrow> fl \<Rightarrow> bool" where
  "flt (Fin x) (Fin y) = (x < y)"
| "flt NInf (Fin _) = True"
| "flt NInf PInf = True"
| "flt (Fin _) PInf = True"
| "flt _ _ = False"

definition feq :: "fl \<Rightarrow> fl \<Rightarrow> bool" where
  "feq a b = (a = b \<and> a \<noteq> NaN)"

definition fle :: "fl \<Rightarrow> fl \<Rightarrow> bool" where
  "fle a b = (flt a b \<or> feq a b)"

lemma fle_Fin [simp]: "fle (Fin x) (Fin y) \<longleftrightarrow> x \<le> y"
  by (auto simp: fle_def feq_def)

lemma feq_Fin [simp]: "feq (Fin x) (Fin y) \<longleftrightarrow> x = y"
  by (simp add: feq_def)

lemma flt_trans: "flt a b \<Longrightarrow> flt b c \<Longrightarrow> flt a c"
  by (cases a; cases b; cases c) auto

lemma flt_irrefl [simp]: "\<not> flt a a"
  by (cases a) auto

text \<open>\<open>std::min\<close>, \<open>std::max\<close>, \<open>std::clamp\<close> and \<open>std::abs\<close>.\<close>

definition fmin :: "fl \<Rightarrow> fl \<Rightarrow> fl" where "fmin a b = (if flt b a then b else a)"
definition fmax :: "fl \<Rightarrow> fl \<Rightarrow> fl" where "fmax a b = (if flt a b then b else a)"
definition fclamp :: "fl \<Rightarrow> fl \<Rightarrow> fl \<Rightarrow> fl" where
  "fclamp v lo hi = (if flt v lo then lo else if flt hi v then hi else v)"

fun fabs :: "fl \<Rightarrow> fl" where
  "fabs (Fin x) = Fin \<bar>x\<bar>" | "fabs NInf = PInf" | "fabs a = a"

definition iclamp :: "int \<Rightarrow> int \<Rightarrow> int \<Rightarrow> int" where
  "iclamp v lo hi = (if v < lo then lo else if hi < v then hi else v)"

lemma iclamp_bounds: "lo \<le> hi \<Longrightarrow> lo \<le> iclamp v lo hi \<and> iclamp v lo hi \<le> hi"
  by (auto simp: iclamp_def)

lemma iclamp_id: "lo \<le> v \<Longrightarrow> v \<le> hi \<Longrightarrow> iclamp v lo hi = v"
  by (auto simp: iclamp_def)

subsection \<open>Conversions\<close>

text \<open>
  \<open>static_cast<int>\<close> truncates. Out of range, and for a NaN, C++ leaves it undefined;
  the program is built for x86-64, whose conversion instruction yields \<open>INT_MIN\<close>.
\<close>

definition int_min :: int where "int_min = - (2 ^ 31)"

fun f2i :: "fl \<Rightarrow> int" where
  "f2i (Fin x) = (let t = (if 0 \<le> x then \<lfloor>x\<rfloor> else - \<lfloor>- x\<rfloor>) in
     if - (2 ^ 31) \<le> t \<and> t < 2 ^ 31 then t else int_min)"
| "f2i _ = int_min"

fun fl_floor :: "fl \<Rightarrow> fl" where "fl_floor (Fin x) = Fin (of_int \<lfloor>x\<rfloor>)" | "fl_floor a = a"
fun fl_ceil :: "fl \<Rightarrow> fl" where "fl_ceil (Fin x) = Fin (of_int \<lceil>x\<rceil>)" | "fl_ceil a = a"

text \<open>\<open>std::round\<close>: halfway cases away from zero.\<close>

fun fl_round :: "fl \<Rightarrow> fl" where
  "fl_round (Fin x) = Fin (of_int (if 0 \<le> x then \<lfloor>x + 1/2\<rfloor> else - \<lfloor>1/2 - x\<rfloor>))"
| "fl_round a = a"

lemma f2i_of_int: "- (2 ^ 31) \<le> n \<Longrightarrow> n < 2 ^ 31 \<Longrightarrow> f2i (Fin (of_int n)) = n"
  by (auto simp: Let_def floor_minus simp flip: of_int_minus)

lemma fl_round_of_int [simp]: "fl_round (Fin (of_int n)) = Fin (of_int n)"
proof -
  have "\<lfloor>of_int n + 1/2 :: rat\<rfloor> = n" "\<lfloor>1/2 - of_int n :: rat\<rfloor> = - n"
    by (intro floor_unique; simp)+
  then show ?thesis by simp
qed

subsection \<open>Square root\<close>

text \<open>The integer square root, one binary digit of the result at a time.\<close>

function isqrt :: "int \<Rightarrow> int" where
  "isqrt n = (if n \<le> 0 then 0
     else let r = 2 * isqrt (n div 4) in if (r + 1) ^ 2 \<le> n then r + 1 else r)"
  by pat_completeness auto
termination
  by (relation "measure nat") auto

declare isqrt.simps [simp del]

lemma isqrt_correct: "0 \<le> n \<Longrightarrow> 0 \<le> isqrt n \<and> isqrt n ^ 2 \<le> n \<and> n < (isqrt n + 1) ^ 2"
proof (induction n rule: isqrt.induct)
  case (1 n)
  show ?case
  proof (cases "n = 0")
    case True
    then show ?thesis by (simp add: isqrt.simps)
  next
    case False
    define s where "s = isqrt (n div 4)"
    have IH: "0 \<le> s" "s ^ 2 \<le> n div 4" "n div 4 < (s + 1) ^ 2"
      using 1 False by (auto simp: s_def)
    have lo: "(2 * s) ^ 2 \<le> n" using IH(2) by (simp add: power2_eq_square)
    have hi: "n < (2 * s + 2) ^ 2" using IH(3) by (simp add: power2_eq_square algebra_simps)
    have "isqrt n = (if (2 * s + 1) ^ 2 \<le> n then 2 * s + 1 else 2 * s)"
      using False 1 by (subst isqrt.simps) (simp add: s_def Let_def)
    with lo hi IH(1) show ?thesis by (auto simp: not_le add.commute)
  qed
qed

lemma isqrt_nonneg: "0 \<le> isqrt n"
  using isqrt_correct [of n] by (cases "0 \<le> n") (auto simp: isqrt.simps)

text \<open>
  \<open>std::sqrt\<close>, correctly rounded: with \<open>y = x / 4 powi e\<close> and \<open>m = \<lfloor>sqrt y\<rfloor>\<close> the
  result is \<open>m\<close> or \<open>m + 1\<close> units, decided by comparing \<open>y\<close> with \<open>(m + 1/2)\<^sup>2\<close>.
\<close>

definition sqrt_units :: "rat \<Rightarrow> int" where
  "sqrt_units y = (let m = isqrt \<lfloor>y\<rfloor>; h = (of_int m + 1/2) ^ 2 in
     if y < h then m else if h < y then m + 1 else if even m then m else m + 1)"

fun fl_sqrt :: "fmt \<Rightarrow> fl \<Rightarrow> fl" where
  "fl_sqrt F (Fin x) = (if x < 0 then NaN else if x = 0 then Fin 0
     else let e = max (ilog2 x div 2 - int (prec F - 1)) (emin F)
          in Fin (of_int (sqrt_units (x / 4 powi e)) * 2 powi e))"
| "fl_sqrt F PInf = PInf"
| "fl_sqrt F _ = NaN"

abbreviation fsqrt :: "fl \<Rightarrow> fl" where "fsqrt \<equiv> fl_sqrt F32"

lemma sqrt_units_nonneg: "0 \<le> sqrt_units y"
  using isqrt_nonneg [of "\<lfloor>y\<rfloor>"] by (simp add: sqrt_units_def Let_def)

lemma fl_sqrt_nonneg: "fl_sqrt F v = Fin r \<Longrightarrow> 0 \<le> r"
  using sqrt_units_nonneg by (cases v) (auto simp: Let_def simp del: power_int_numeral split: if_splits)

end
