(* ===== verification/GridMap.thy ===== *)
theory GridMap
  imports Float32 "HOL-Library.AList"
begin

text \<open>
  \<open>GridMap\<close> (\<open>GridMap.h\<close>, \<open>GridMap.cpp\<close>) without the path search: the walkability grid,
  the obstacle file, the location table and the line-of-sight test \<open>IsPathBlocked\<close>
  (Bresenham's algorithm). \<open>AStar\<close> adds \<open>FindPath\<close>.
\<close>

section \<open>State\<close>

record GridVector2 =
  gv_x :: fl
  gv_z :: fl

record PathResult =
  pr_waypoints :: "GridVector2 list"
  pr_is_partial :: bool
  pr_is_failed :: bool

record PathCacheEntry =
  ce_waypoints :: "GridVector2 list"
  ce_tick_computed :: int

text \<open>\<open>PathCacheKey\<close>: the start and end buckets of 8 by 8 tiles.\<close>

type_synonym PathCacheKey = "int \<times> int \<times> int \<times> int"

definition WIDTH :: int where "WIDTH = 2000"
definition HEIGHT :: int where "HEIGHT = 2000"

text \<open>
  \<open>grid_\<close> is a flat vector; \<open>grid\<close> gives its value at each index. The tables are
  hash maps; the cache keeps its size, hence the association list.
\<close>

record grid_map =
  grid :: "int \<Rightarrow> bool"
  location_coords :: "string \<rightharpoonup> GridVector2"
  path_cache :: "(PathCacheKey \<times> PathCacheEntry) list"

definition GridMap_init :: grid_map where
  "GridMap_init = \<lparr>grid = (\<lambda>_. True), location_coords = Map.empty, path_cache = []\<rparr>"

definition ClearCache :: "grid_map \<Rightarrow> grid_map" where
  "ClearCache m = m\<lparr>path_cache := []\<rparr>"

definition cell :: "int \<Rightarrow> int \<Rightarrow> int" where
  "cell x z = x * HEIGHT + z"

definition on_map :: "int \<Rightarrow> int \<Rightarrow> bool" where
  "on_map x z \<longleftrightarrow> 0 \<le> x \<and> x < WIDTH \<and> 0 \<le> z \<and> z < HEIGHT"

definition IsWalkable :: "grid_map \<Rightarrow> int \<Rightarrow> int \<Rightarrow> bool" where
  "IsWalkable m x z =
     (if x < 0 \<or> x \<ge> WIDTH \<or> z < 0 \<or> z \<ge> HEIGHT then False else grid m (cell x z))"

definition GetLocationCoords :: "grid_map \<Rightarrow> string \<Rightarrow> GridVector2 option" where
  "GetLocationCoords m loc_name = location_coords m loc_name"

lemma cell_inj: "on_map x z \<Longrightarrow> on_map x' z' \<Longrightarrow> cell x z = cell x' z' \<longleftrightarrow> x = x' \<and> z = z'"
proof
  assume a: "on_map x z" "on_map x' z'" "cell x z = cell x' z'"
  then have "(x * 2000 + z) div 2000 = (x' * 2000 + z') div 2000"
    by (simp add: cell_def HEIGHT_def)
  then have "x = x'" using a(1,2) by (simp add: on_map_def HEIGHT_def)
  with a show "x = x' \<and> z = z'" by (simp add: cell_def)
qed simp

lemma cell_in_range: "on_map x z \<Longrightarrow> 0 \<le> cell x z \<and> cell x z < WIDTH * HEIGHT"
  by (simp add: on_map_def cell_def WIDTH_def HEIGHT_def)

lemma IsWalkable_on_map: "IsWalkable m x z \<Longrightarrow> on_map x z"
  by (auto simp: IsWalkable_def on_map_def split: if_splits)

lemma IsWalkable_iff: "IsWalkable m x z \<longleftrightarrow> on_map x z \<and> grid m (cell x z)"
  by (auto simp: IsWalkable_def on_map_def)

section \<open>\<open>LoadMap\<close>\<close>

text \<open>
  The obstacle file as the JSON library delivers it: absent, not parsable, or an array.
  An entry maps its keys to integers or to values \<open>get<int>\<close> throws on.
\<close>

datatype json_value = JInt int | JOther

type_synonym json_entry = "string \<rightharpoonup> json_value"

datatype obstacle_file = NoFile | ParseError | JArray "json_entry list"

record LocationData =
  ld_name :: string
  ld_x :: fl
  ld_y :: fl
  ld_z :: fl
  ld_type :: nat
  ld_region_id :: u32
  ld_territory_id :: u32

definition load_locations :: "LocationData list \<Rightarrow> grid_map \<Rightarrow> grid_map" where
  "load_locations locations m = m\<lparr>location_coords :=
     fold (\<lambda>loc c. c(ld_name loc \<mapsto> \<lparr>gv_x = ld_x loc, gv_z = ld_z loc\<rparr>)) locations
       (location_coords m)\<rparr>"

text \<open>The double loop that blocks a rectangle.\<close>

definition block_rect :: "int \<Rightarrow> int \<Rightarrow> int \<Rightarrow> int \<Rightarrow> (int \<Rightarrow> bool) \<Rightarrow> int \<Rightarrow> bool" where
  "block_rect min_x max_x min_z max_z g =
     fold (\<lambda>x g. fold (\<lambda>z g. g(cell x z := False)) [min_z..max_z] g) [min_x..max_x] g"

definition clamp_x :: "int \<Rightarrow> int" where "clamp_x v = iclamp v 0 (WIDTH - 1)"
definition clamp_z :: "int \<Rightarrow> int" where "clamp_z v = iclamp v 0 (HEIGHT - 1)"

text \<open>One entry: \<open>None\<close> is the exception of \<open>get<int>\<close>, caught outside the loop.\<close>

definition entry_rect :: "json_entry \<Rightarrow> (int \<times> int \<times> int \<times> int) option option" where
  "entry_rect e =
     (case (e ''min_x'', e ''min_z'', e ''max_x'', e ''max_z'') of
        (Some a, Some b, Some c, Some d) \<Rightarrow>
          (case (a, b, c, d) of
             (JInt min_x, JInt min_z, JInt max_x, JInt max_z) \<Rightarrow>
               Some (Some (min_x, min_z, max_x, max_z))
           | _ \<Rightarrow> None)
      | _ \<Rightarrow> Some None)"

fun load_entries :: "json_entry list \<Rightarrow> (int \<Rightarrow> bool) \<Rightarrow> int \<Rightarrow> bool" where
  "load_entries [] g = g"
| "load_entries (e # es) g =
     (case entry_rect e of
        None \<Rightarrow> g
      | Some None \<Rightarrow> load_entries es g
      | Some (Some (min_x, min_z, max_x, max_z)) \<Rightarrow>
          load_entries es
            (block_rect (clamp_x min_x) (clamp_x max_x) (clamp_z min_z) (clamp_z max_z) g))"

definition default_wall :: "(int \<Rightarrow> bool) \<Rightarrow> int \<Rightarrow> bool" where
  "default_wall g = fold (\<lambda>z g. g(cell 45 z := False)) [30..70] g"

definition LoadMap :: "LocationData list \<Rightarrow> obstacle_file \<Rightarrow> grid_map \<Rightarrow> grid_map" where
  "LoadMap locations file m =
     (let m1 = load_locations locations m in
      case file of
        NoFile \<Rightarrow> m1\<lparr>grid := default_wall (grid m1)\<rparr>
      | ParseError \<Rightarrow> m1
      | JArray es \<Rightarrow> m1\<lparr>grid := load_entries es (grid m1)\<rparr>)"

lemma fold_block_column:
  "fold (\<lambda>z g. g(cell x z := False)) zs g i = (g i \<and> \<not> (\<exists>z\<in>set zs. i = cell x z))"
  by (induction zs arbitrary: g) auto

lemma fold_block_rect:
  "fold (\<lambda>x g. fold (\<lambda>z g. g(cell x z := False)) zs g) xs g i =
     (g i \<and> \<not> (\<exists>x\<in>set xs. \<exists>z\<in>set zs. i = cell x z))"
  by (induction xs arbitrary: g) (auto simp: fold_block_column)

lemma clamp_x_bounds: "0 \<le> clamp_x v \<and> clamp_x v < WIDTH"
  using iclamp_bounds [of 0 "WIDTH - 1" v] by (simp add: clamp_x_def WIDTH_def)

lemma clamp_z_bounds: "0 \<le> clamp_z v \<and> clamp_z v < HEIGHT"
  using iclamp_bounds [of 0 "HEIGHT - 1" v] by (simp add: clamp_z_def HEIGHT_def)

lemma block_rect_cell:
  assumes "on_map x z"
  shows "block_rect (clamp_x ax) (clamp_x bx) (clamp_z az) (clamp_z bz) g (cell x z) \<longleftrightarrow>
    g (cell x z) \<and> \<not> (clamp_x ax \<le> x \<and> x \<le> clamp_x bx \<and> clamp_z az \<le> z \<and> z \<le> clamp_z bz)"
proof -
  have "(\<exists>x'\<in>{clamp_x ax..clamp_x bx}. \<exists>z'\<in>{clamp_z az..clamp_z bz}. cell x z = cell x' z') \<longleftrightarrow>
      clamp_x ax \<le> x \<and> x \<le> clamp_x bx \<and> clamp_z az \<le> z \<and> z \<le> clamp_z bz"
  proof
    assume "\<exists>x'\<in>{clamp_x ax..clamp_x bx}. \<exists>z'\<in>{clamp_z az..clamp_z bz}. cell x z = cell x' z'"
    then obtain x' z' where r: "clamp_x ax \<le> x'" "x' \<le> clamp_x bx" "clamp_z az \<le> z'" "z' \<le> clamp_z bz"
      and e: "cell x z = cell x' z'" by auto
    have "on_map x' z'"
      using r clamp_x_bounds [of ax] clamp_x_bounds [of bx] clamp_z_bounds [of az] clamp_z_bounds [of bz]
      by (simp add: on_map_def)
    with e assms r show "clamp_x ax \<le> x \<and> x \<le> clamp_x bx \<and> clamp_z az \<le> z \<and> z \<le> clamp_z bz"
      by (simp add: cell_inj)
  next
    assume "clamp_x ax \<le> x \<and> x \<le> clamp_x bx \<and> clamp_z az \<le> z \<and> z \<le> clamp_z bz"
    then show "\<exists>x'\<in>{clamp_x ax..clamp_x bx}. \<exists>z'\<in>{clamp_z az..clamp_z bz}. cell x z = cell x' z'"
      by (intro bexI [of _ x] bexI [of _ z]) auto
  qed
  then show ?thesis by (simp add: block_rect_def fold_block_rect)
qed

text \<open>The rectangles an obstacle array blocks: up to the first entry that throws.\<close>

fun entry_rects :: "json_entry list \<Rightarrow> (int \<times> int \<times> int \<times> int) list" where
  "entry_rects [] = []"
| "entry_rects (e # es) =
     (case entry_rect e of None \<Rightarrow> [] | Some None \<Rightarrow> entry_rects es
      | Some (Some r) \<Rightarrow> r # entry_rects es)"

definition in_clamped_rect :: "int \<times> int \<times> int \<times> int \<Rightarrow> int \<Rightarrow> int \<Rightarrow> bool" where
  "in_clamped_rect r x z = (case r of (min_x, min_z, max_x, max_z) \<Rightarrow>
     clamp_x min_x \<le> x \<and> x \<le> clamp_x max_x \<and> clamp_z min_z \<le> z \<and> z \<le> clamp_z max_z)"

lemma block_rect_in_rect:
  "on_map x z \<Longrightarrow>
     block_rect (clamp_x a) (clamp_x c) (clamp_z b) (clamp_z d) g (cell x z) \<longleftrightarrow>
     g (cell x z) \<and> \<not> in_clamped_rect (a, b, c, d) x z"
  by (simp add: block_rect_cell in_clamped_rect_def)

lemma load_entries_cell:
  "on_map x z \<Longrightarrow> load_entries es g (cell x z) \<longleftrightarrow>
     g (cell x z) \<and> \<not> list_ex (\<lambda>r. in_clamped_rect r x z) (entry_rects es)"
proof (induction es arbitrary: g)
  case Nil
  then show ?case by simp
next
  case (Cons e es)
  show ?case
  proof (cases "entry_rect e")
    case None
    then show ?thesis by simp
  next
    case (Some o1)
    show ?thesis
    proof (cases o1)
      case None
      with Some Cons show ?thesis by simp
    next
      case (Some r)
      obtain a b c d where r: "r = (a, b, c, d)" by (metis prod_cases4)
      with \<open>entry_rect e = Some o1\<close> Some Cons show ?thesis
        by (auto simp: block_rect_in_rect)
    qed
  qed
qed

lemma LoadMap_walkable:
  "IsWalkable (LoadMap locs (JArray es) GridMap_init) x z \<longleftrightarrow>
     on_map x z \<and> \<not> list_ex (\<lambda>r. in_clamped_rect r x z) (entry_rects es)"
  by (auto simp: IsWalkable_iff LoadMap_def load_locations_def GridMap_init_def Let_def
      load_entries_cell)

section \<open>\<open>IsPathBlocked\<close>\<close>

definition tile_x :: "fl \<Rightarrow> int" where "tile_x v = iclamp (f2i (fl_round v)) 0 (WIDTH - 1)"
definition tile_z :: "fl \<Rightarrow> int" where "tile_z v = iclamp (f2i (fl_round v)) 0 (HEIGHT - 1)"

text \<open>The \<open>while (true)\<close> of the line test; the locals it never assigns are its first arguments.\<close>

partial_function (option) blocked_loop ::
  "grid_map \<Rightarrow> int \<Rightarrow> int \<Rightarrow> int \<Rightarrow> int \<Rightarrow> int \<Rightarrow> int \<Rightarrow> int \<Rightarrow> int \<Rightarrow> int \<Rightarrow> bool option" where
  "blocked_loop m ix2 iz2 dx dy sx sy cx cz err =
     (if \<not> IsWalkable m cx cz then Some True
      else if cx = ix2 \<and> cz = iz2 then Some False
      else (let e2 = 2 * err;
                err1 = (if e2 > - dy then err - dy else err);
                cx1 = (if e2 > - dy then cx + sx else cx);
                err2 = (if e2 < dx then err1 + dx else err1);
                cz1 = (if e2 < dx then cz + sy else cz)
            in blocked_loop m ix2 iz2 dx dy sx sy cx1 cz1 err2))"

definition IsPathBlocked :: "grid_map \<Rightarrow> fl \<Rightarrow> fl \<Rightarrow> fl \<Rightarrow> fl \<Rightarrow> bool option" where
  "IsPathBlocked m x1 z1 x2 z2 =
     (let ix1 = tile_x x1; iz1 = tile_z z1; ix2 = tile_x x2; iz2 = tile_z z2;
          dx = \<bar>ix2 - ix1\<bar>; dy = \<bar>iz2 - iz1\<bar>;
          sx = (if ix1 < ix2 then 1 else -1); sy = (if iz1 < iz2 then 1 else -1)
      in blocked_loop m ix2 iz2 dx dy sx sy ix1 iz1 (dx - dy))"

lemma tile_bounds: "0 \<le> tile_x v" "tile_x v < WIDTH" "0 \<le> tile_z v" "tile_z v < HEIGHT"
  using iclamp_bounds [of 0 "WIDTH - 1" "f2i (fl_round v)"]
    iclamp_bounds [of 0 "HEIGHT - 1" "f2i (fl_round v)"]
  by (simp_all add: tile_x_def tile_z_def WIDTH_def HEIGHT_def)

definition king_adj :: "int \<times> int \<Rightarrow> int \<times> int \<Rightarrow> bool" where
  "king_adj p q \<longleftrightarrow> \<bar>fst p - fst q\<bar> \<le> 1 \<and> \<bar>snd p - snd q\<bar> \<le> 1 \<and> p \<noteq> q"

text \<open>
  \<open>line_pos\<close>: \<open>a\<close> steps along x and \<open>b\<close> along z have been made; the error term is the
  linear function of \<open>a\<close> and \<open>b\<close> that keeps the line from overshooting either end.
\<close>

definition line_pos ::
  "int \<Rightarrow> int \<Rightarrow> int \<Rightarrow> int \<Rightarrow> int \<Rightarrow> int \<Rightarrow> int \<Rightarrow> int \<Rightarrow> int \<Rightarrow> int \<Rightarrow> int \<Rightarrow> bool" where
  "line_pos ix2 iz2 dx dy sx sy cx cz err a b \<longleftrightarrow>
     0 \<le> a \<and> 0 \<le> b \<and> a \<le> dx \<and> b \<le> dy \<and> ix2 = cx + (dx - a) * sx \<and> iz2 = cz + (dy - b) * sy \<and>
     err = dx - dy - a * dy + b * dx \<and> \<bar>sx\<bar> = 1 \<and> \<bar>sy\<bar> = 1"

lemma line_x_stops:
  "line_pos ix2 iz2 dx dy sx sy cx cz err dx b \<Longrightarrow> b < dy \<Longrightarrow> \<not> 2 * err > - dy"
proof -
  assume a: "line_pos ix2 iz2 dx dy sx sy cx cz err dx b" and b: "b < dy"
  have "dx * (dy - b - 1) \<ge> 0" using a b by (simp add: line_pos_def)
  with a b show ?thesis by (simp add: line_pos_def algebra_simps)
qed

lemma line_z_stops:
  "line_pos ix2 iz2 dx dy sx sy cx cz err a dy \<Longrightarrow> a < dx \<Longrightarrow> \<not> 2 * err < dx"
proof -
  assume a: "line_pos ix2 iz2 dx dy sx sy cx cz err a dy" and b: "a < dx"
  have "dy * (dx - a - 1) \<ge> 0" using a b by (simp add: line_pos_def)
  with a b show ?thesis by (simp add: line_pos_def algebra_simps)
qed

lemma line_pos_end:
  "line_pos ix2 iz2 dx dy sx sy cx cz err a b \<Longrightarrow> cx = ix2 \<and> cz = iz2 \<longleftrightarrow> a = dx \<and> b = dy"
  by (auto simp: line_pos_def)

lemma line_step_bounds:
  assumes lp: "line_pos ix2 iz2 dx dy sx sy cx cz err a b" and ne: "a < dx \<or> b < dy"
  shows "2 * err > - dy \<Longrightarrow> a < dx" "2 * err < dx \<Longrightarrow> b < dy" "2 * err > - dy \<or> 2 * err < dx"
proof -
  have le: "a \<le> dx" "b \<le> dy" "0 \<le> a" "0 \<le> b" using lp by (auto simp: line_pos_def)
  show "a < dx" if "2 * err > - dy"
  proof (rule ccontr)
    assume "\<not> a < dx"
    with le have "a = dx" by simp
    with line_x_stops lp ne that show False by auto
  qed
  show "b < dy" if "2 * err < dx"
  proof (rule ccontr)
    assume "\<not> b < dy"
    with le have "b = dy" by simp
    with line_z_stops lp ne that show False by auto
  qed
  show "2 * err > - dy \<or> 2 * err < dx" using le ne by auto
qed

lemma line_pos_step:
  assumes lp: "line_pos ix2 iz2 dx dy sx sy cx cz err a b"
    and ux: "ux \<Longrightarrow> a < dx" and uz: "uz \<Longrightarrow> b < dy"
  shows "line_pos ix2 iz2 dx dy sx sy (if ux then cx + sx else cx) (if uz then cz + sy else cz)
    (if uz then (if ux then err - dy else err) + dx else (if ux then err - dy else err))
    (if ux then a + 1 else a) (if uz then b + 1 else b)"
  using assms by (cases ux; cases uz) (simp_all add: line_pos_def algebra_simps)

lemma line_measure:
  "ux \<or> uz \<Longrightarrow> (ux \<Longrightarrow> a < dx) \<Longrightarrow> (uz \<Longrightarrow> b < dy) \<Longrightarrow> a \<le> dx \<Longrightarrow> b \<le> (dy::int) \<Longrightarrow>
   nat (dx - (if ux then a + 1 else a) + (dy - (if uz then b + 1 else b))) < nat (dx - a + (dy - b))"
  by (cases ux; cases uz) auto

lemma line_adj:
  "ux \<or> uz \<Longrightarrow> \<bar>sx\<bar> = 1 \<Longrightarrow> \<bar>sy\<bar> = 1 \<Longrightarrow>
   king_adj (cx, cz) (if ux then cx + sx else cx, if uz then cz + sy else cz)"
  by (cases ux; cases uz) (auto simp: king_adj_def)

lemma blocked_loop_line:
  assumes "line_pos ix2 iz2 dx dy sx sy cx cz err a b"
  shows "\<exists>ps. ps \<noteq> [] \<and> hd ps = (cx, cz) \<and> last ps = (ix2, iz2) \<and> successively king_adj ps \<and>
     length ps \<le> nat (dx - a + (dy - b)) + 1 \<and>
     (\<forall>m. blocked_loop m ix2 iz2 dx dy sx sy cx cz err =
            Some (\<not> list_all (\<lambda>p. IsWalkable m (fst p) (snd p)) ps))"
  using assms
proof (induction "nat (dx - a + (dy - b))" arbitrary: cx cz err a b rule: less_induct)
  case less
  note lp = less.prems
  show ?case
  proof (cases "a = dx \<and> b = dy")
    case True
    with line_pos_end [OF lp] have e: "cx = ix2" "cz = iz2" by auto
    show ?thesis
      by (rule exI [of _ "[(cx, cz)]"]) (simp add: e blocked_loop.simps)
  next
    case False
    then have ne: "a < dx \<or> b < dy" using lp by (auto simp: line_pos_def)
    have ncur: "\<not> (cx = ix2 \<and> cz = iz2)" using False line_pos_end [OF lp] by simp
    note sb = line_step_bounds [OF lp ne]
    have le: "a \<le> dx" "b \<le> dy" and sg: "\<bar>sx\<bar> = 1" "\<bar>sy\<bar> = 1" using lp by (auto simp: line_pos_def)
    define ux where "ux = (2 * err > - dy)"
    define uz where "uz = (2 * err < dx)"
    define a1 where "a1 = (if ux then a + 1 else a)"
    define b1 where "b1 = (if uz then b + 1 else b)"
    define cx1 where "cx1 = (if ux then cx + sx else cx)"
    define cz1 where "cz1 = (if uz then cz + sy else cz)"
    define err2 where "err2 = (if uz then (if ux then err - dy else err) + dx
      else (if ux then err - dy else err))"
    have lp1: "line_pos ix2 iz2 dx dy sx sy cx1 cz1 err2 a1 b1"
      unfolding a1_def b1_def cx1_def cz1_def err2_def
      by (rule line_pos_step [OF lp]) (use sb in \<open>simp_all add: ux_def uz_def\<close>)
    have lt: "nat (dx - a1 + (dy - b1)) < nat (dx - a + (dy - b))"
      unfolding a1_def b1_def by (rule line_measure) (use sb le in \<open>auto simp: ux_def uz_def\<close>)
    obtain ps where ps: "ps \<noteq> []" "hd ps = (cx1, cz1)" "last ps = (ix2, iz2)"
      "successively king_adj ps" "length ps \<le> nat (dx - a1 + (dy - b1)) + 1"
      "\<And>m. blocked_loop m ix2 iz2 dx dy sx sy cx1 cz1 err2 =
         Some (\<not> list_all (\<lambda>p. IsWalkable m (fst p) (snd p)) ps)"
      using less.hyps [OF lt lp1] by blast
    have adj: "king_adj (cx, cz) (cx1, cz1)"
      unfolding cx1_def cz1_def by (rule line_adj) (use sb sg in \<open>auto simp: ux_def uz_def\<close>)
    have step: "blocked_loop m ix2 iz2 dx dy sx sy cx cz err =
        (if \<not> IsWalkable m cx cz then Some True
         else blocked_loop m ix2 iz2 dx dy sx sy cx1 cz1 err2)" for m
      unfolding cx1_def cz1_def err2_def ux_def uz_def
      by (subst blocked_loop.simps) (simp only: ncur if_False Let_def)
    have len: "length ps \<le> nat (dx - a + (dy - b))" using ps(5) lt by linarith
    show ?thesis
      by (rule exI [of _ "(cx, cz) # ps"])
        (use ps(1-4) adj len in \<open>simp add: step ps(6) successively_Cons\<close>)
  qed
qed

text \<open>The line test always ends; the tiles it looks at depend on the end points only.\<close>

lemma IsPathBlocked_line:
  "\<exists>ps. ps \<noteq> [] \<and> hd ps = (tile_x x1, tile_z z1) \<and> last ps = (tile_x x2, tile_z z2) \<and>
     successively king_adj ps \<and>
     length ps \<le> nat (\<bar>tile_x x2 - tile_x x1\<bar> + \<bar>tile_z z2 - tile_z z1\<bar>) + 1 \<and>
     (\<forall>m. IsPathBlocked m x1 z1 x2 z2 =
            Some (\<not> list_all (\<lambda>p. IsWalkable m (fst p) (snd p)) ps))"
proof -
  have lp: "line_pos (tile_x x2) (tile_z z2) \<bar>tile_x x2 - tile_x x1\<bar> \<bar>tile_z z2 - tile_z z1\<bar>
      (if tile_x x1 < tile_x x2 then 1 else -1) (if tile_z z1 < tile_z z2 then 1 else -1)
      (tile_x x1) (tile_z z1) (\<bar>tile_x x2 - tile_x x1\<bar> - \<bar>tile_z z2 - tile_z z1\<bar>) 0 0"
    by (auto simp: line_pos_def)
  from blocked_loop_line [OF this] show ?thesis
    by (simp add: IsPathBlocked_def Let_def)
qed


section \<open>Properties of the map\<close>

lemma wall_cells:
  assumes "on_map x z" "0 \<le> lo" "hi < HEIGHT" "on_map c 0"
  shows "fold (\<lambda>z g. g(cell c z := False)) [lo..hi] g (cell x z) \<longleftrightarrow>
    g (cell x z) \<and> \<not> (x = c \<and> lo \<le> z \<and> z \<le> hi)"
proof -
  have "on_map c z'" if "z' \<in> {lo..hi}" for z' using that assms by (auto simp: on_map_def)
  then have "(\<exists>z'\<in>{lo..hi}. cell x z = cell c z') \<longleftrightarrow> x = c \<and> lo \<le> z \<and> z \<le> hi"
    using assms(1) by (auto simp: cell_inj)
  then show ?thesis by (simp add: fold_block_column)
qed

text \<open>C14: The grid is what the obstacle file says: after loading an array of entries a tile is
  walkable exactly when it is on the map and outside every clamped rectangle read before the
  first entry that throws; without a file exactly the default wall is blocked.\<close>

theorem LoadMap_grid:
  "(IsWalkable (LoadMap locs (JArray es) GridMap_init) x z \<longleftrightarrow>
      on_map x z \<and> \<not> list_ex (\<lambda>r. in_clamped_rect r x z) (entry_rects es)) \<and>
   (IsWalkable (LoadMap locs NoFile GridMap_init) x z \<longleftrightarrow>
      on_map x z \<and> \<not> (x = 45 \<and> 30 \<le> z \<and> z \<le> 70)) \<and>
   (IsWalkable (LoadMap locs ParseError GridMap_init) x z \<longleftrightarrow> on_map x z)"
proof -
  have "on_map 45 0" by (simp add: on_map_def WIDTH_def HEIGHT_def)
  note wall = wall_cells [of x z 30 70 45, OF _ _ _ this]
  have "IsWalkable (LoadMap locs NoFile GridMap_init) x z \<longleftrightarrow>
      on_map x z \<and> \<not> (x = 45 \<and> 30 \<le> z \<and> z \<le> 70)"
    using wall [of "\<lambda>_. True"]
    by (cases "on_map x z") (simp_all only: IsWalkable_iff LoadMap_def load_locations_def GridMap_init_def Let_def
        default_wall_def obstacle_file.simps grid_map.simps HEIGHT_def, simp_all)
  then show ?thesis
    by (simp add: LoadMap_walkable) (simp add: IsWalkable_iff LoadMap_def load_locations_def GridMap_init_def Let_def)
qed

text \<open>C13: The line-of-sight test terminates for any two positions, within as many steps as their
  tiles are apart, and decides whether every tile of one line of neighbouring tiles from the
  first to the second is walkable; the line depends on the two positions only, not on the
  map.\<close>

theorem IsPathBlocked_decides_line:
  "\<exists>ps. ps \<noteq> [] \<and> hd ps = (tile_x x1, tile_z z1) \<and> last ps = (tile_x x2, tile_z z2) \<and>
     successively king_adj ps \<and>
     length ps \<le> nat (\<bar>tile_x x2 - tile_x x1\<bar> + \<bar>tile_z z2 - tile_z z1\<bar>) + 1 \<and>
     (\<forall>m. IsPathBlocked m x1 z1 x2 z2 =
            Some (\<not> list_all (\<lambda>p. IsWalkable m (fst p) (snd p)) ps))"
  by (rule IsPathBlocked_line)

end
