(* ===== verification/Components.thy ===== *)
theory Components
  imports Literals GridMap
begin

text \<open>
  The entity-component registry: the component structs of \<open>Components.h\<close>, one pool per
  component type, the context resources, and the registry operations the systems use
  (\<open>create\<close>, \<open>destroy\<close>, \<open>valid\<close>, \<open>get\<close>, \<open>emplace\<close>, \<open>erase\<close>, views).

  An entity is named by the order of its creation; a handle that was destroyed never
  becomes valid again (EnTT's versions). \<open>entt::null\<close> is \<open>None\<close> of an \<open>entity option\<close>.
  Reading a component that is absent is undefined behaviour: \<open>None\<close> of the result.
\<close>

section \<open>Components\<close>

type_synonym entity = nat

record IdentityComp =
  npc_id :: u32
  display_name :: string

record RelationshipEntry =
  liking :: int
  trust :: int

datatype LocationType = LtUnspecified | LtPub | LtMarket | LtSquare | LtChurch | LtWilderness
  | LtResidential | LtForge | LtManor | LtCountry | LtCity | LtPlace

record LocationComp =
  zone_id :: u32
  location_name :: string
  lc_x :: fl
  lc_y :: fl
  lc_z :: fl
  loc_type :: LocationType
  region_id :: u32
  territory_id :: u32

record EmotionComp =
  current_emotion :: string
  base_emotion :: string
  current_emotion_id :: u8
  base_emotion_id :: u8
  decay_ticks_remaining :: int

record CooldownComp =
  cooldown_per_target :: "u32 \<rightharpoonup> int"
  last_initiative_tick :: int
  social_energy :: int
  max_social_energy :: int
  cognitive_refractory_until :: int

record VelocityComp =
  vel_speed :: fl
  dir_x :: fl
  dir_z :: fl

record PathfindingComp =
  waypoints :: "GridVector2 list"
  current_waypoint_index :: nat
  last_target_x :: fl
  last_target_z :: fl
  path_is_partial :: bool
  cap_retry_count :: int
  last_cap_pos_x :: fl
  last_cap_pos_z :: fl

datatype JobCategory = JcUnspecified | JcSleep | JcEat | JcSocial | JcWork | JcTravel
  | JcSurvival | JcCombat

record JobComp =
  job_id :: u64
  target_location :: string
  target_x :: fl
  target_y :: fl
  target_z :: fl
  intent :: string
  target_agent_id :: u32
  priority :: int
  is_active :: bool
  category :: JobCategory

datatype ToilState = TsIdle | TsMoving | TsWorking | TsInterrupted

record ToilComp =
  toil_state :: ToilState
  current_action :: string
  duration_ticks :: int

datatype SurvivalType = SvNone | SvHunger | SvFatigue

record NeedsComp =
  hunger :: fl
  fatigue :: fl
  is_resolving_survival :: bool
  current_survival_type :: SurvivalType
  occupied_furniture :: "entity option"

datatype AffordanceType = AfUnspecified | AfSit | AfSleep | AfEat | AfDrink | AfPray

record AffordanceComp =
  aff_type :: AffordanceType
  occupied_by :: "entity option"
  is_temporary :: bool

record LastSyncedComp =
  ls_location :: string
  ls_emotion :: string
  ls_activity :: string

datatype BusyReason = BrDialogue | BrReflection | BrScheduleWait

record BusyTag =
  busy_reason :: BusyReason
  anim_timer :: fl

record PlayerDialogueComp =
  pd_session_id :: u64
  npc_entity :: "entity option"

record HealthComp =
  hp :: fl
  max_hp :: fl
  is_dead :: bool

record CombatComp =
  target_entity :: "entity option"
  attack_range :: fl
  attack_damage :: fl
  cooldown_ticks :: int

record AggroComp =
  threat_entity :: "entity option"
  aggro_score :: int
  inhibit_wait_ticks :: int
  is_inhibited :: bool

text \<open>The default member initialisers.\<close>

definition LocationComp_default :: LocationComp where
  "LocationComp_default = \<lparr>zone_id = 0, location_name = '''', lc_x = Fin 0, lc_y = Fin 0,
     lc_z = Fin 0, loc_type = LtUnspecified, region_id = 0, territory_id = 0\<rparr>"

definition CooldownComp_default :: CooldownComp where
  "CooldownComp_default = \<lparr>cooldown_per_target = Map.empty, last_initiative_tick = 0,
     social_energy = 100, max_social_energy = 100, cognitive_refractory_until = 0\<rparr>"

definition VelocityComp_default :: VelocityComp where
  "VelocityComp_default = \<lparr>vel_speed = flit 2, dir_x = Fin 0, dir_z = Fin 0\<rparr>"

definition PathfindingComp_default :: PathfindingComp where
  "PathfindingComp_default = \<lparr>waypoints = [], current_waypoint_index = 0, last_target_x = Fin 0,
     last_target_z = Fin 0, path_is_partial = False, cap_retry_count = 0,
     last_cap_pos_x = Fin 0, last_cap_pos_z = Fin 0\<rparr>"

definition JobComp_default :: JobComp where
  "JobComp_default = \<lparr>job_id = 0, target_location = '''', target_x = Fin 0, target_y = Fin 0,
     target_z = Fin 0, intent = '''', target_agent_id = 0, priority = 0, is_active = False,
     category = JcUnspecified\<rparr>"

definition ToilComp_default :: ToilComp where
  "ToilComp_default = \<lparr>toil_state = TsIdle, current_action = '''', duration_ticks = 0\<rparr>"

definition NeedsComp_default :: NeedsComp where
  "NeedsComp_default = \<lparr>hunger = flit 100, fatigue = flit 100, is_resolving_survival = False,
     current_survival_type = SvNone, occupied_furniture = None\<rparr>"

definition LastSyncedComp_default :: LastSyncedComp where
  "LastSyncedComp_default = \<lparr>ls_location = '''', ls_emotion = '''', ls_activity = ''''\<rparr>"

definition BusyTag_default :: BusyTag where
  "BusyTag_default = \<lparr>busy_reason = BrDialogue, anim_timer = Fin 0\<rparr>"

definition HealthComp_default :: HealthComp where
  "HealthComp_default = \<lparr>hp = flit 100, max_hp = flit 100, is_dead = False\<rparr>"

definition CombatComp_default :: CombatComp where
  "CombatComp_default = \<lparr>target_entity = None, attack_range = flit 2, attack_damage = flit 10,
     cooldown_ticks = 0\<rparr>"

definition AggroComp_default :: AggroComp where
  "AggroComp_default = \<lparr>threat_entity = None, aggro_score = 0, inhibit_wait_ticks = 0,
     is_inhibited = False\<rparr>"

section \<open>Context resources\<close>

record EntityIndex =
  by_npc_id :: "u32 \<rightharpoonup> entity"
  by_session_index :: "u32 \<rightharpoonup> entity"

record AgentIdMapper =
  string_to_numeric :: "string \<rightharpoonup> u32"
  numeric_to_string :: "u32 \<rightharpoonup> string"

datatype EmotionCategory = EcNeutral | EcAnger | EcHostility | EcFear

record EmotionRegistry =
  name_to_id :: "string \<rightharpoonup> u8"
  decay_ticks_table :: "int list"
  category_table :: "EmotionCategory list"

record SimulationSettings =
  npc_speed :: fl
  ticks_per_game_hour :: int

section \<open>Behaviour trees\<close>

text \<open>The node classes; the trees hold no state besides their shape.\<close>

datatype bt_leaf = ConditionIsHungry | ConditionIsFatigued | ConditionIsScheduledEat
  | ConditionIsScheduledSleep | ActionFindFurniture | ActionMoveToTarget
  | ActionInteractFurniture | ConditionHasCombatTarget | ConditionIsLowHealth | ActionFlee
  | ConditionCanWander | ActionWander | ActionMeleeAttack | ConditionIsAggroHigh
  | ActionInhibitOrAttack

datatype BTNode = Selector "BTNode list" | Sequence "BTNode list" | Inverter BTNode
  | Leaf bt_leaf

datatype NodeStatus = StSuccess | StFailure | StRunning

section \<open>The registry\<close>

record registry =
  live :: "entity list"
  next_entity :: nat
  identity :: "entity \<rightharpoonup> IdentityComp"
  personality :: "entity \<rightharpoonup> fl"
  relationships :: "entity \<rightharpoonup> (u32 \<times> RelationshipEntry) list"
  location :: "entity \<rightharpoonup> LocationComp"
  emotion :: "entity \<rightharpoonup> EmotionComp"
  activity :: "entity \<rightharpoonup> string"
  cooldown :: "entity \<rightharpoonup> CooldownComp"
  velocity :: "entity \<rightharpoonup> VelocityComp"
  pathfinding :: "entity \<rightharpoonup> PathfindingComp"
  job :: "entity \<rightharpoonup> JobComp"
  toil :: "entity \<rightharpoonup> ToilComp"
  needs :: "entity \<rightharpoonup> NeedsComp"
  affordance :: "entity \<rightharpoonup> AffordanceComp"
  last_synced :: "entity \<rightharpoonup> LastSyncedComp"
  busy :: "entity \<rightharpoonup> BusyTag"
  player_tag :: "entity \<rightharpoonup> u32"
  player_dialogue :: "entity \<rightharpoonup> PlayerDialogueComp"
  behavior_tree :: "entity \<rightharpoonup> BTNode option"
  health :: "entity \<rightharpoonup> HealthComp"
  combat :: "entity \<rightharpoonup> CombatComp"
  faction :: "entity \<rightharpoonup> string"
  sentience :: "entity \<rightharpoonup> bool"
  aggro :: "entity \<rightharpoonup> AggroComp"
  entity_index :: "EntityIndex option"
  id_mapper :: "AgentIdMapper option"
  emotion_registry :: "EmotionRegistry option"
  settings :: "SimulationSettings option"
  bootstrap_locations :: "LocationData list option"
  bt_context_tick :: "int option"

definition registry_init :: registry where
  "registry_init = \<lparr>live = [], next_entity = 0, identity = Map.empty, personality = Map.empty,
     relationships = Map.empty, location = Map.empty, emotion = Map.empty, activity = Map.empty,
     cooldown = Map.empty, velocity = Map.empty, pathfinding = Map.empty, job = Map.empty,
     toil = Map.empty, needs = Map.empty, affordance = Map.empty, last_synced = Map.empty,
     busy = Map.empty, player_tag = Map.empty, player_dialogue = Map.empty,
     behavior_tree = Map.empty, health = Map.empty, combat = Map.empty, faction = Map.empty,
     sentience = Map.empty, aggro = Map.empty, entity_index = None, id_mapper = None,
     emotion_registry = None, settings = None, bootstrap_locations = None,
     bt_context_tick = None\<rparr>"

definition valid :: "registry \<Rightarrow> entity \<Rightarrow> bool" where
  "valid r e \<longleftrightarrow> e \<in> set (live r)"

text \<open>\<open>reg.valid\<close> of a handle that may be \<open>entt::null\<close>.\<close>

definition valid_ref :: "registry \<Rightarrow> entity option \<Rightarrow> bool" where
  "valid_ref r eo = (case eo of None \<Rightarrow> False | Some e \<Rightarrow> valid r e)"

definition create :: "registry \<Rightarrow> entity \<times> registry" where
  "create r = (next_entity r, r\<lparr>live := live r @ [next_entity r], next_entity := next_entity r + 1\<rparr>)"

text \<open>\<open>reg.destroy\<close>: the entity leaves every pool.\<close>

definition destroy :: "entity \<Rightarrow> registry \<Rightarrow> registry" where
  "destroy e r = r\<lparr>live := erase_value e (live r),
     identity := (identity r)(e := None), personality := (personality r)(e := None),
     relationships := (relationships r)(e := None), location := (location r)(e := None),
     emotion := (emotion r)(e := None), activity := (activity r)(e := None),
     cooldown := (cooldown r)(e := None), velocity := (velocity r)(e := None),
     pathfinding := (pathfinding r)(e := None), job := (job r)(e := None),
     toil := (toil r)(e := None), needs := (needs r)(e := None),
     affordance := (affordance r)(e := None), last_synced := (last_synced r)(e := None),
     busy := (busy r)(e := None), player_tag := (player_tag r)(e := None),
     player_dialogue := (player_dialogue r)(e := None),
     behavior_tree := (behavior_tree r)(e := None), health := (health r)(e := None),
     combat := (combat r)(e := None), faction := (faction r)(e := None),
     sentience := (sentience r)(e := None), aggro := (aggro r)(e := None)\<rparr>"

definition has :: "(entity \<rightharpoonup> 'c) \<Rightarrow> entity \<Rightarrow> bool" where
  "has pool e \<longleftrightarrow> pool e \<noteq> None"

text \<open>\<open>get_or_emplace\<close>: the component to work on.\<close>

definition get_or :: "'c \<Rightarrow> (entity \<rightharpoonup> 'c) \<Rightarrow> entity \<Rightarrow> 'c" where
  "get_or d pool e = (case pool e of None \<Rightarrow> d | Some c \<Rightarrow> c)"

lemma has_Some [simp]: "has pool e \<longleftrightarrow> (\<exists>c. pool e = Some c)"
  by (simp add: has_def)

lemma valid_ref_simps [simp]: "valid_ref r None = False" "valid_ref r (Some e) = valid r e"
  by (simp_all add: valid_ref_def)

section \<open>Agent identifiers\<close>

definition GetAgentNumericId :: "registry \<Rightarrow> string \<Rightarrow> u32" where
  "GetAgentNumericId r string_id =
     (case id_mapper r of None \<Rightarrow> 0
      | Some m \<Rightarrow> (case string_to_numeric m string_id of Some n \<Rightarrow> n | None \<Rightarrow> 0))"

definition GetAgentStringId :: "registry \<Rightarrow> u32 \<Rightarrow> string" where
  "GetAgentStringId r numeric_id =
     (case id_mapper r of None \<Rightarrow> ''''
      | Some m \<Rightarrow> (case numeric_to_string m numeric_id of Some s \<Rightarrow> s | None \<Rightarrow> ''''))"

end
