(* ===== verification/LocationReg.thy ===== *)
theory LocationReg
  imports Components
begin

unbundle bit_operations_syntax

text \<open>
  \<open>LocationRegistry\<close> (\<open>LocationRegistry.h\<close>, \<open>LocationRegistry.cpp\<close>): zone identifiers,
  the baked region map, and the spatial hash that keeps every entity in the list of its
  8 m cell.
\<close>

section \<open>State\<close>

record LocationMeta =
  lm_x :: fl
  lm_z :: fl
  lm_type :: LocationType
  lm_region_id :: u32
  lm_territory_id :: u32

text \<open>
  \<open>location_centers_\<close> keeps its iteration order; a cell without a list is an empty list.
  \<open>region_map_\<close> is its size and the value at each index.
\<close>

record location_registry =
  location_centers :: "(string \<times> LocationMeta) list"
  cell_entities :: "u64 \<Rightarrow> entity list"
  entity_to_cell :: "entity \<rightharpoonup> u64"
  name_to_zone :: "string \<rightharpoonup> u32"
  zone_to_name :: "string list"
  next_zone_id :: u32
  region_map_size :: int
  region_map :: "int \<Rightarrow> u32"
  map_width :: int
  map_height :: int

definition LocationRegistry_init :: location_registry where
  "LocationRegistry_init = \<lparr>location_centers = [], cell_entities = (\<lambda>_. []),
     entity_to_cell = Map.empty, name_to_zone = Map.empty, zone_to_name = [], next_zone_id = 1,
     region_map_size = 0, region_map = (\<lambda>_. 0), map_width = 0, map_height = 0\<rparr>"

section \<open>Zones\<close>

definition GetOrCreateZoneId :: "string \<Rightarrow> location_registry \<Rightarrow> u32 \<times> location_registry" where
  "GetOrCreateZoneId name g =
     (let g1 = (if zone_to_name g = [] then g\<lparr>zone_to_name := [''Wilderness'']\<rparr> else g)
      in case name_to_zone g1 name of
           Some z \<Rightarrow> (z, g1)
         | None \<Rightarrow> (next_zone_id g1,
             g1\<lparr>next_zone_id := next_zone_id g1 + 1,
                name_to_zone := (name_to_zone g1)(name \<mapsto> next_zone_id g1),
                zone_to_name := zone_to_name g1 @ [name]\<rparr>))"

definition RegisterLocation ::
  "string \<Rightarrow> fl \<Rightarrow> fl \<Rightarrow> LocationType \<Rightarrow> u32 \<Rightarrow> u32 \<Rightarrow> location_registry \<Rightarrow> location_registry" where
  "RegisterLocation name x z type region territory g =
     snd (GetOrCreateZoneId name (g\<lparr>location_centers := AList.update name
       \<lparr>lm_x = x, lm_z = z, lm_type = type, lm_region_id = region, lm_territory_id = territory\<rparr>
       (location_centers g)\<rparr>))"

text \<open>Zone names and zone numbers determine each other.\<close>

definition zones_ok :: "location_registry \<Rightarrow> bool" where
  "zones_ok g \<longleftrightarrow>
     (if zone_to_name g = [] then name_to_zone g = Map.empty \<and> next_zone_id g = 1
      else unat (next_zone_id g) = length (zone_to_name g) \<and>
        (\<forall>n z. name_to_zone g n = Some z \<longrightarrow> 0 < unat z \<and> unat z < length (zone_to_name g) \<and>
           zone_to_name g ! unat z = n))"

lemma zones_ok_init: "zones_ok LocationRegistry_init"
  by (simp add: zones_ok_def LocationRegistry_init_def)

lemma unat_Suc_u32: "unat w + 1 < 2 ^ 32 \<Longrightarrow> unat (w + 1) = unat (w :: u32) + 1"
  by (simp add: unat_word_ariths)

lemma GetOrCreateZoneId_ok:
  assumes "zones_ok g" "length (zone_to_name g) + 2 < 2 ^ 32"
  shows "zones_ok (snd (GetOrCreateZoneId name g)) \<and>
    name_to_zone (snd (GetOrCreateZoneId name g)) name = Some (fst (GetOrCreateZoneId name g)) \<and>
    (\<forall>n z. name_to_zone g n = Some z \<longrightarrow> name_to_zone (snd (GetOrCreateZoneId name g)) n = Some z) \<and>
    length (zone_to_name (snd (GetOrCreateZoneId name g))) \<le> length (zone_to_name g) + 2"
proof -
  define g1 where "g1 = (if zone_to_name g = [] then g\<lparr>zone_to_name := [''Wilderness'']\<rparr> else g)"
  have g1: "zones_ok g1" "zone_to_name g1 \<noteq> []" "name_to_zone g1 = name_to_zone g"
    "length (zone_to_name g1) \<le> length (zone_to_name g) + 1"
    using assms(1) by (auto simp: g1_def zones_ok_def split: if_splits)
  show ?thesis
  proof (cases "name_to_zone g1 name")
    case (Some z)
    then show ?thesis
      using g1 by (simp add: GetOrCreateZoneId_def g1_def [symmetric])
  next
    case None
    define g2 where "g2 = g1\<lparr>next_zone_id := next_zone_id g1 + 1,
        name_to_zone := (name_to_zone g1)(name \<mapsto> next_zone_id g1),
        zone_to_name := zone_to_name g1 @ [name]\<rparr>"
    have eq: "GetOrCreateZoneId name g = (next_zone_id g1, g2)"
      using None by (simp add: GetOrCreateZoneId_def g1_def [symmetric] g2_def)
    have n: "unat (next_zone_id g1) = length (zone_to_name g1)"
      using g1 by (simp add: zones_ok_def)
    have n': "unat (next_zone_id g1 + 1) = length (zone_to_name g1) + 1"
      using unat_Suc_u32 [of "next_zone_id g1"] n assms(2) g1(4) by simp
    have "zones_ok g2"
      using g1(1,2) n n' by (auto simp: zones_ok_def g2_def nth_append less_SucI)
    then show ?thesis
      using None g1(3,4) unfolding eq by (auto simp: g2_def)
  qed
qed

section \<open>The region map\<close>

definition LOCATION_RADIUS :: fl where "LOCATION_RADIUS = flit 8"
definition CELL_SIZE :: fl where "CELL_SIZE = flit 8"

definition bake_bounds :: "fl \<Rightarrow> int \<Rightarrow> int list" where
  "bake_bounds c extent =
     [max 0 (f2i (fl_floor (fsub c LOCATION_RADIUS)))..min (extent - 1) (f2i (fl_ceil (fadd c LOCATION_RADIUS)))]"

definition in_radius :: "LocationMeta \<Rightarrow> int \<Rightarrow> int \<Rightarrow> bool" where
  "in_radius loc x z =
     (let dx = fsub (of_i32 x) (lm_x loc); dz = fsub (of_i32 z) (lm_z loc)
      in fle (fadd (fmul dx dx) (fmul dz dz)) (fmul LOCATION_RADIUS LOCATION_RADIUS))"

definition bake_location ::
  "int \<Rightarrow> int \<Rightarrow> u32 \<Rightarrow> LocationMeta \<Rightarrow> (int \<Rightarrow> u32) \<Rightarrow> int \<Rightarrow> u32" where
  "bake_location width height zone loc m =
     fold (\<lambda>x m. fold (\<lambda>z m. if in_radius loc x z then m(x * height + z := zone) else m)
         (bake_bounds (lm_z loc) height) m) (bake_bounds (lm_x loc) width) m"

definition BakeRegionMap :: "int \<Rightarrow> int \<Rightarrow> location_registry \<Rightarrow> location_registry" where
  "BakeRegionMap width height g =
     fold (\<lambda>(name, loc) g.
         let (zone, g1) = GetOrCreateZoneId name g
         in g1\<lparr>region_map := bake_location width height zone loc (region_map g1)\<rparr>)
       (location_centers g)
       (g\<lparr>map_width := width, map_height := height, region_map_size := width * height,
          region_map := (\<lambda>_. 0)\<rparr>)"

definition nearest_center :: "fl \<Rightarrow> fl \<Rightarrow> (string \<times> LocationMeta) list \<Rightarrow> fl \<times> string" where
  "nearest_center x z cs =
     fold (\<lambda>(name, coords) (min_dist, closest).
         let dx = fsub (lm_x coords) x; dz = fsub (lm_z coords) z;
             dist = fsqrt (fadd (fmul dx dx) (fmul dz dz))
         in if flt dist min_dist then (dist, name) else (min_dist, closest))
       cs (flit 999999, ''Wilderness'')"

definition region_index :: "location_registry \<Rightarrow> fl \<Rightarrow> fl \<Rightarrow> int" where
  "region_index g x z =
     (let ix = iclamp (f2i (fl_round x)) 0 (if map_width g > 0 then map_width g - 1 else 1999);
          iz = iclamp (f2i (fl_round z)) 0 (if map_height g > 0 then map_height g - 1 else 1999)
      in ix * map_height g + iz)"

definition GetLocationNameAt :: "location_registry \<Rightarrow> fl \<Rightarrow> fl \<Rightarrow> string" where
  "GetLocationNameAt g x z =
     (if region_map_size g \<noteq> 0
      then let resolved = region_map g (region_index g x z)
           in if resolved \<noteq> 0 \<and> unat resolved < length (zone_to_name g)
              then zone_to_name g ! unat resolved else ''Wilderness''
      else let (min_dist, closest) = nearest_center x z (location_centers g)
           in if fle min_dist LOCATION_RADIUS then closest else ''Wilderness'')"

section \<open>The spatial hash\<close>

definition cell_coord :: "fl \<Rightarrow> int" where
  "cell_coord v = f2i (fl_floor (fdiv v CELL_SIZE))"

text \<open>The key packs the two 32-bit coordinates.\<close>

definition cell_key :: "int \<Rightarrow> int \<Rightarrow> u64" where
  "cell_key cx cz = push_bit 32 (ucast (word_of_int cx :: u32)) OR ucast (word_of_int cz :: u32)"

definition GetCellKey :: "fl \<Rightarrow> fl \<Rightarrow> u64" where
  "GetCellKey x z = cell_key (cell_coord x) (cell_coord z)"

text \<open>The two halves of the spatial update: leave the old cell, enter the new one.\<close>

definition place_entity :: "entity \<Rightarrow> u64 \<Rightarrow> location_registry \<Rightarrow> location_registry" where
  "place_entity e new_cell g =
     (case entity_to_cell g e of
        Some old \<Rightarrow>
          if old = new_cell then g
          else (let g1 = g\<lparr>cell_entities := (cell_entities g)(old := erase_value e (cell_entities g old))\<rparr>
                in g1\<lparr>entity_to_cell := (entity_to_cell g1)(e \<mapsto> new_cell),
                      cell_entities := (cell_entities g1)(new_cell := cell_entities g1 new_cell @ [e])\<rparr>)
      | None \<Rightarrow>
          g\<lparr>entity_to_cell := (entity_to_cell g)(e \<mapsto> new_cell),
            cell_entities := (cell_entities g)(new_cell := cell_entities g new_cell @ [e])\<rparr>)"

definition RemoveEntity :: "entity \<Rightarrow> location_registry \<Rightarrow> location_registry" where
  "RemoveEntity e g =
     (case entity_to_cell g e of
        None \<Rightarrow> g
      | Some old \<Rightarrow> g\<lparr>cell_entities := (cell_entities g)(old := erase_value e (cell_entities g old)),
                       entity_to_cell := (entity_to_cell g)(e := None)\<rparr>)"

definition LocationComp_resolve ::
  "location_registry \<Rightarrow> string \<Rightarrow> u32 \<Rightarrow> LocationComp \<Rightarrow> LocationComp" where
  "LocationComp_resolve g resolved_loc resolved_zone loc =
     (if location_name loc \<noteq> resolved_loc \<or> zone_id loc \<noteq> resolved_zone
      then let loc1 = loc\<lparr>location_name := resolved_loc, zone_id := resolved_zone\<rparr>
           in case map_of (location_centers g) resolved_loc of
                Some m \<Rightarrow> loc1\<lparr>loc_type := lm_type m, region_id := lm_region_id m,
                                territory_id := lm_territory_id m\<rparr>
              | None \<Rightarrow> loc1\<lparr>loc_type := (if resolved_loc = ''Wilderness'' then LtWilderness else LtUnspecified),
                               region_id := 0, territory_id := 0\<rparr>
      else loc)"

definition UpdateEntityPosition ::
  "entity \<Rightarrow> fl \<Rightarrow> fl \<Rightarrow> registry \<times> location_registry \<Rightarrow> registry \<times> location_registry" where
  "UpdateEntityPosition e x z rg =
     (let (r, g0) = rg; g = place_entity e (GetCellKey x z) g0
      in case location r e of
           None \<Rightarrow> (r, g)
         | Some loc \<Rightarrow>
             let resolved_loc = GetLocationNameAt g x z;
                 (resolved_zone, g1) = GetOrCreateZoneId resolved_loc g;
                 loc1 = LocationComp_resolve g1 resolved_loc resolved_zone loc
             in (r\<lparr>location := (location r)(e \<mapsto> loc1\<lparr>lc_x := x, lc_z := z\<rparr>)\<rparr>, g1))"

text \<open>
  \<open>GetNearbyEntities\<close>: the lists of the 3 by 3 cells in the loop order, filtered. The sum
  \<open>cx + i\<close> stays in range for every position whose quotient is an \<open>int\<close>.
\<close>

definition dist_sq :: "LocationComp \<Rightarrow> fl \<Rightarrow> fl \<Rightarrow> fl" where
  "dist_sq loc x z = (let dx = fsub (lc_x loc) x; dz = fsub (lc_z loc) z
     in fadd (fmul dx dx) (fmul dz dz))"

definition nearby_cells :: "fl \<Rightarrow> fl \<Rightarrow> u64 list" where
  "nearby_cells x z = concat (List.map (\<lambda>i. List.map (\<lambda>j. cell_key (cell_coord x + i) (cell_coord z + j))
     [-1, 0, 1]) [-1, 0, 1])"

definition in_range :: "registry \<Rightarrow> fl \<Rightarrow> fl \<Rightarrow> fl \<Rightarrow> entity \<Rightarrow> bool" where
  "in_range r x z radius e \<longleftrightarrow> valid r e \<and>
     (case location r e of None \<Rightarrow> False
      | Some loc \<Rightarrow> fle (dist_sq loc x z) (fmul radius radius))"

definition GetNearbyEntities ::
  "location_registry \<Rightarrow> fl \<Rightarrow> fl \<Rightarrow> fl \<Rightarrow> registry \<Rightarrow> entity list" where
  "GetNearbyEntities g x z radius r =
     concat (List.map (\<lambda>k. filter (in_range r x z radius) (cell_entities g k)) (nearby_cells x z))"

text \<open>\<open>RandomizeWithinRadius\<close>: the drawn angle and unit number, and libm's sine and cosine, are arguments.\<close>

definition RandomizeWithinRadius ::
  "(fl \<Rightarrow> fl) \<Rightarrow> (fl \<Rightarrow> fl) \<Rightarrow> fl \<Rightarrow> fl \<Rightarrow> fl \<Rightarrow> fl \<Rightarrow> fl \<Rightarrow> fl \<times> fl" where
  "RandomizeWithinRadius cos_f sin_f angle unit center_x center_z radius =
     (let r = fmul radius (fsqrt unit)
      in (fadd center_x (fmul r (cos_f angle)), fadd center_z (fmul r (sin_f angle))))"

subsection \<open>The index and the lists agree\<close>

locale cell_index =
  fixes key :: "'p \<Rightarrow> 'k"
    and init :: "'s \<Rightarrow> bool"
    and place :: "'e \<Rightarrow> 'p \<Rightarrow> 's \<Rightarrow> 's"
    and remove :: "'e \<Rightarrow> 's \<Rightarrow> 's"
    and cell_of :: "'s \<Rightarrow> 'e \<Rightarrow> 'k option"
    and members :: "'s \<Rightarrow> 'k \<Rightarrow> 'e list"
    and inv :: "'s \<Rightarrow> bool"
  assumes inv_init: "init s \<Longrightarrow> inv s"
    and inv_place: "inv s \<Longrightarrow> inv (place e p s)"
    and inv_remove: "inv s \<Longrightarrow> inv (remove e s)"
    and cell_of_init: "init s \<Longrightarrow> cell_of s e = None"
    and cell_of_place: "inv s \<Longrightarrow> cell_of (place e p s) e' = (if e' = e then Some (key p) else cell_of s e')"
    and cell_of_remove: "inv s \<Longrightarrow> cell_of (remove e s) e' = (if e' = e then None else cell_of s e')"
    and members_iff: "inv s \<Longrightarrow> e \<in> set (members s k) \<longleftrightarrow> cell_of s e = Some k"
    and members_distinct: "inv s \<Longrightarrow> distinct (members s k)"
begin

text \<open>Operations: \<open>Some p\<close> places the entity, \<open>None\<close> removes it.\<close>

definition run :: "('e \<times> 'p option) list \<Rightarrow> 's \<Rightarrow> 's" where
  "run ops s = fold (\<lambda>(e, ko) s. case ko of None \<Rightarrow> remove e s | Some p \<Rightarrow> place e p s) ops s"

lemma run_inv: "inv s \<Longrightarrow> inv (run ops s)"
  unfolding run_def
  by (induction ops arbitrary: s) (auto simp: inv_place inv_remove split: option.split)

lemma run_cell_of:
  "inv s \<Longrightarrow> cell_of (run ops s) e =
     (case map_of (rev ops) e of None \<Rightarrow> cell_of s e | Some po \<Rightarrow> map_option key po)"
proof (induction ops rule: rev_induct)
  case Nil
  then show ?case by (simp add: run_def)
next
  case (snoc x ops)
  have "inv (run ops s)" by (rule run_inv [OF snoc.prems])
  with snoc show ?case
    by (cases x) (auto simp: run_def cell_of_place cell_of_remove split: option.splits)
qed

lemma run_members:
  "init s \<Longrightarrow> e \<in> set (members (run ops s) k) \<longleftrightarrow> (\<exists>p. map_of (rev ops) e = Some (Some p) \<and> key p = k)"
  using run_inv [OF inv_init, of s ops]
  by (auto simp: members_iff run_cell_of inv_init cell_of_init split: option.splits)

lemma run_members_distinct: "init s \<Longrightarrow> distinct (members (run ops s) k)"
  by (rule members_distinct [OF run_inv [OF inv_init]])

end

definition cells_ok :: "location_registry \<Rightarrow> bool" where
  "cells_ok g \<longleftrightarrow> (\<forall>e k. e \<in> set (cell_entities g k) \<longleftrightarrow> entity_to_cell g e = Some k) \<and>
     (\<forall>k. distinct (cell_entities g k))"

lemma place_entity_ok: "cells_ok g \<Longrightarrow> cells_ok (place_entity e k g)"
  unfolding cells_ok_def place_entity_def
  by (auto simp: Let_def split: option.splits)

lemma RemoveEntity_ok: "cells_ok g \<Longrightarrow> cells_ok (RemoveEntity e g)"
  unfolding cells_ok_def RemoveEntity_def
  by (auto split: option.splits)

definition no_entities :: "location_registry \<Rightarrow> bool" where
  "no_entities g \<longleftrightarrow> entity_to_cell g = Map.empty \<and> cell_entities g = (\<lambda>_. [])"

lemma place_entity_cell:
  "entity_to_cell (place_entity e k g) e' = (if e' = e then Some k else entity_to_cell g e')"
  by (auto simp: place_entity_def Let_def split: option.split)

lemma RemoveEntity_cell:
  "entity_to_cell (RemoveEntity e g) e' = (if e' = e then None else entity_to_cell g e')"
  by (auto simp: RemoveEntity_def split: option.split)

lemma GetOrCreateZoneId_cells [simp]:
  "entity_to_cell (snd (GetOrCreateZoneId n g)) = entity_to_cell g"
  "cell_entities (snd (GetOrCreateZoneId n g)) = cell_entities g"
  by (auto simp: GetOrCreateZoneId_def Let_def split: option.split)

lemma UpdateEntityPosition_cells:
  "entity_to_cell (snd (UpdateEntityPosition e x z (r, g))) = entity_to_cell (place_entity e (GetCellKey x z) g)"
  "cell_entities (snd (UpdateEntityPosition e x z (r, g))) = cell_entities (place_entity e (GetCellKey x z) g)"
  by (auto simp: UpdateEntityPosition_def Let_def split: option.split prod.split)
    (metis GetOrCreateZoneId_cells snd_conv)+

lemma cells_ok_cong:
  "entity_to_cell g = entity_to_cell g' \<Longrightarrow> cell_entities g = cell_entities g' \<Longrightarrow> cells_ok g = cells_ok g'"
  by (simp add: cells_ok_def)

lemma UpdateEntityPosition_ok: "cells_ok (snd rg) \<Longrightarrow> cells_ok (snd (UpdateEntityPosition e x z rg))"
  using place_entity_ok [of "snd rg" e "GetCellKey x z"]
  by (cases rg) (simp add: cells_ok_def UpdateEntityPosition_cells)

interpretation grid: cell_index "\<lambda>(x, z). GetCellKey x z" "\<lambda>rg. no_entities (snd rg)"
  "\<lambda>e (x, z). UpdateEntityPosition e x z" "\<lambda>e (r, g). (r, RemoveEntity e g)"
  "\<lambda>rg. entity_to_cell (snd rg)" "\<lambda>rg. cell_entities (snd rg)" "\<lambda>rg. cells_ok (snd rg)"
  by unfold_locales
    (auto simp: no_entities_def cells_ok_def UpdateEntityPosition_cells place_entity_cell
      RemoveEntity_cell RemoveEntity_ok [unfolded cells_ok_def]
      UpdateEntityPosition_ok [unfolded cells_ok_def] split: prod.splits)

text \<open>A history of position updates and removals.\<close>

definition grid_run ::
  "(entity \<times> (fl \<times> fl) option) list \<Rightarrow> registry \<times> location_registry \<Rightarrow> registry \<times> location_registry" where
  "grid_run ops rg = fold (\<lambda>(e, po) rg. case po of
       None \<Rightarrow> (fst rg, RemoveEntity e (snd rg))
     | Some (x, z) \<Rightarrow> UpdateEntityPosition e x z rg) ops rg"

lemma grid_run_run: "grid_run ops rg = grid.run ops rg"
  unfolding grid_run_def grid.run_def
  by (intro fold_cong refl) (auto simp: fun_eq_iff split: option.split prod.split)

text \<open>C8: After any history of position updates and removals, an entity stands in the list of a
  cell exactly when its last operation placed it at a position of that cell, and no list
  holds an entity twice.\<close>

theorem grid_run_cells:
  "(e \<in> set (cell_entities (snd (grid_run ops (r, LocationRegistry_init))) k) \<longleftrightarrow>
      (\<exists>x z. map_of (rev ops) e = Some (Some (x, z)) \<and> GetCellKey x z = k)) \<and>
   distinct (cell_entities (snd (grid_run ops (r, LocationRegistry_init))) k)"
  using grid.run_members [of "(r, LocationRegistry_init)" e ops k]
    grid.run_members_distinct [of "(r, LocationRegistry_init)" ops k]
  by (simp add: grid_run_run no_entities_def LocationRegistry_init_def)

section \<open>The neighbourhood query\<close>

lemma cell_key_inj:
  assumes "cell_key a b = cell_key c d"
  shows "(word_of_int a :: u32) = word_of_int c \<and> (word_of_int b :: u32) = word_of_int d"
proof -
  have hi: "drop_bit 32 (cell_key x y) = ucast (word_of_int x :: u32)" for x y
    by (rule bit_word_eqI) (auto simp: cell_key_def bit_simps dest: bit_imp_le_length)
  have lo: "take_bit 32 (cell_key x y) = ucast (word_of_int y :: u32)" for x y
    by (rule bit_word_eqI) (auto simp: cell_key_def bit_simps dest: bit_imp_le_length)
  have inj: "x = y" if h: "(ucast (x :: u32) :: u64) = ucast y" for x y
  proof (rule bit_word_eqI)
    fix n assume "n < LENGTH(32)"
    with arg_cong [OF h, of "\<lambda>w. bit w n"] show "bit x n \<longleftrightarrow> bit y n" by (simp add: bit_simps)
  qed
  from arg_cong [OF assms, of "drop_bit 32"] arg_cong [OF assms, of "take_bit 32"]
  show ?thesis unfolding hi lo by (blast intro: inj)
qed

lemma GetNearbyEntities_iff:
  "e \<in> set (GetNearbyEntities g x z radius r) \<longleftrightarrow>
     in_range r x z radius e \<and> (\<exists>k\<in>set (nearby_cells x z). e \<in> set (cell_entities g k))"
  by (auto simp: GetNearbyEntities_def)

lemma nearby_cells_mem:
  "\<bar>i - cell_coord x\<bar> \<le> 1 \<Longrightarrow> \<bar>j - cell_coord z\<bar> \<le> 1 \<Longrightarrow> cell_key i j \<in> set (nearby_cells x z)"
proof -
  assume i: "\<bar>i - cell_coord x\<bar> \<le> 1" and j: "\<bar>j - cell_coord z\<bar> \<le> 1"
  define di where "di = i - cell_coord x"
  define dj where "dj = j - cell_coord z"
  have "i = cell_coord x + di" "j = cell_coord z + dj" by (simp_all add: di_def dj_def)
  moreover have "di = -1 \<or> di = 0 \<or> di = 1" using i by (auto simp: di_def)
  moreover have "dj = -1 \<or> dj = 0 \<or> dj = 1" using j by (auto simp: dj_def)
  ultimately show ?thesis by (auto simp: nearby_cells_def)
qed

lemma nearby_cells_distinct: "distinct (nearby_cells x z)"
proof -
  have o: "word_of_int (a + i) = (word_of_int (a + j) :: u32) \<longleftrightarrow> word_of_int i = (word_of_int j :: u32)" for a i j
    by (simp add: wi_hom_add [symmetric])
  have k: "i = j \<and> i' = j'" if "cell_key (a + i) (b + i') = cell_key (a + j) (b + j')"
    "i \<in> {-1, 0, 1}" "j \<in> {-1, 0, 1}" "i' \<in> {-1, 0, 1}" "j' \<in> {-1, 0, 1}" for a b i j i' j'
    using cell_key_inj [OF that(1)] that(2-) unfolding o by auto
  have "distinct (List.map (\<lambda>p. cell_key (a + fst p) (b + snd p)) ps)"
    if "distinct ps" "set ps \<subseteq> {-1, 0, 1} \<times> {-1, 0, 1}" for a b and ps :: "(int \<times> int) list"
    unfolding distinct_map using that k [of a _ b] by (auto simp: inj_on_def) blast+
  from this [of "[(-1,-1),(-1,0),(-1,1),(0,-1),(0,0),(0,1),(1,-1),(1,0),(1,1)]" "cell_coord x" "cell_coord z"]
  show ?thesis by (simp add: nearby_cells_def)
qed

lemma GetNearbyEntities_distinct:
  assumes "cells_ok g"
  shows "distinct (GetNearbyEntities g x z radius r)"
proof -
  have "distinct (concat (List.map (\<lambda>k. filter P (cell_entities g k)) ks))" if "distinct ks" for P ks
    using that
  proof (induction ks)
    case (Cons k ks)
    have "e \<notin> set (cell_entities g k')" if "e \<in> set (cell_entities g k)" "k' \<in> set ks" for e k'
      using assms that Cons.prems by (auto simp: cells_ok_def)
    with Cons assms show ?case by (auto simp: cells_ok_def)
  qed simp
  then show ?thesis using nearby_cells_distinct by (simp add: GetNearbyEntities_def)
qed

lemma cell_coord_floor:
  assumes r: "repr F32 v" and v: "0 \<le> v" "v \<le> 2000"
  shows "cell_coord (Fin v) = \<lfloor>v / 8\<rfloor>"
proof -
  define n where "n = \<lfloor>v / 8\<rfloor>"
  have n: "of_int n \<le> v / 8" "v / 8 < of_int n + 1" unfolding n_def by linarith+
  have nb: "0 \<le> n" "n \<le> 250" using v unfolding n_def by linarith+
  have c8: "CELL_SIZE = Fin 8" unfolding CELL_SIZE_def using rnd_of_int [of 8 F32] by simp
  have "\<exists>y. rnd F32 (v / 8) = Fin y \<and> of_int n \<le> y \<and> y < of_int n + 1"
  proof -
    obtain m k where mk: "v = of_int m * 2 powi k" "\<bar>m\<bar> < 2 ^ prec F32" "emin F32 \<le> k"
      using r by (auto simp: repr_def)
    show ?thesis
    proof (cases "emin F32 \<le> k - 3")
      case True
      have "v / 8 = of_int m * 2 powi (k - 3)" by (simp add: mk(1) power_int_diff)
      with mk(2) True have "repr F32 (v / 8)" unfolding repr_def by blast
      then have "rnd F32 (v / 8) = Fin (v / 8)" by (rule rnd_exact) (use v in simp)
      with n show ?thesis by (intro exI [of _ "v / 8"]) simp
    next
      case False
      have "(2::rat) powi k \<le> 2 powi (-24)" using False by (subst p2_mono) simp
      moreover have "of_int m \<le> (of_int (2 ^ 24) :: rat)" using mk(2) by (subst of_int_le_iff) simp
      ultimately have "of_int m * 2 powi k \<le> (of_int (2 ^ 24) :: rat) * 2 powi (-24)"
        by (intro mult_mono) auto
      then have v1: "v \<le> 1" by (simp add: mk(1) power_int_minus)
      then have n0: "n = 0" using v unfolding n_def by (intro floor_unique) auto
      have "repr F32 (1 / 8)"
        unfolding repr_def by (intro exI [of _ 1] exI [of _ "-3"]) (simp add: power_int_minus)
      moreover have "repr F32 0" using repr_of_int [of 0 F32] by simp
      ultimately show ?thesis
        using rnd_finite [of 0 "v / 8" "1 / 8" F32] v v1 n0 by force
    qed
  qed
  then obtain y where y: "rnd F32 (v / 8) = Fin y" "of_int n \<le> y" "y < of_int n + 1" by blast
  from y(2,3) have "\<lfloor>y\<rfloor> = n" by (intro floor_unique) auto
  with y(1) nb show ?thesis
    by (simp add: cell_coord_def c8 n_def [symmetric] f2i_of_int del: f2i.simps)
qed

lemma floor_close: "\<bar>a - b\<bar> < 8 \<Longrightarrow> \<bar>\<lfloor>a / 8\<rfloor> - \<lfloor>(b :: rat) / 8\<rfloor>\<bar> \<le> 1"
  by linarith

text \<open>A float difference, square or sum is not below a representable bound of the exact value.\<close>

lemma fl_sq_bound:
  assumes d: "fsub (Fin a) (Fin b) = Fin d" and s: "fmul (Fin d) (Fin d) = Fin s" "s \<le> 225 / 4"
  shows "\<bar>a - b\<bar> < 8"
proof (rule ccontr)
  assume n: "\<not> \<bar>a - b\<bar> < 8"
  have r8: "repr F32 8" "repr F32 64" "repr F32 (-8)"
    using repr_of_int [of 8 F32] repr_of_int [of 64 F32] repr_of_int [of "-8" F32] by simp_all
  have rd: "rnd F32 (a - b) = Fin d" using d by (simp add: fl_sub_def)
  have "8 \<le> d \<or> d \<le> -8"
  proof (cases "0 \<le> a - b")
    case True
    then have "8 \<le> a - b" using n by simp
    from rnd_ge [OF rd this r8(1)] show ?thesis by simp
  next
    case False
    then have "a - b \<le> -8" using n by simp
    from rnd_le [OF rd this r8(3)] show ?thesis by simp
  qed
  then have "8 * 8 \<le> \<bar>d\<bar> * \<bar>d\<bar>" by (intro mult_mono) auto
  then have "64 \<le> d * d" by simp
  moreover have "rnd F32 (d * d) = Fin s" using s(1) by simp
  ultimately have "64 \<le> s" using rnd_ge r8(2) by blast
  with s(2) show False by simp
qed

lemma fl_sq_nonneg: "fmul (Fin d) (Fin d) = Fin s \<Longrightarrow> 0 \<le> s"
  using rnd_ge [of F32 "d * d" s 0] repr_of_int [of 0 F32] by simp


definition demo_grid :: "registry \<times> location_registry" where
  "demo_grid = grid_run [(0, Some (Fin 4, Fin 4))]
     (registry_init\<lparr>live := [0], location := [0 \<mapsto> LocationComp_default]\<rparr>, LocationRegistry_init)"

lemma demo_grid_facts:
  "location (fst demo_grid) 0 = Some (LocationComp_default\<lparr>lc_x := Fin 4, lc_z := Fin 4,
     zone_id := 1, location_name := ''Wilderness'', loc_type := LtWilderness\<rparr>)"
  "entity_to_cell (snd demo_grid) 0 = Some (GetCellKey (Fin 4) (Fin 4))"
  "valid (fst demo_grid) 0"
  by code_simp+

lemma demo_cells_ok: "cells_ok (snd demo_grid)"
  using UpdateEntityPosition_ok [of "(registry_init\<lparr>live := [0], location := [0 \<mapsto> LocationComp_default]\<rparr>, LocationRegistry_init)" 0 "Fin 4" "Fin 4"]
  by (simp add: demo_grid_def grid_run_def cells_ok_def LocationRegistry_init_def)


text \<open>
  A radius of 20 m reaches further than the 3 by 3 cells: 19 m away, and not found.
\<close>

lemma GetNearbyEntities_misses:
  "in_range (fst demo_grid) (Fin 23) (Fin 4) (Fin 20) 0 \<and>
   0 \<notin> set (GetNearbyEntities (snd demo_grid) (Fin 23) (Fin 4) (Fin 20) (fst demo_grid))"
  by code_simp

end
