(* ===== verification/AStar.thy ===== *)
theory AStar
  imports GridMap "HOL-Library.Multiset"
begin

text \<open>
  \<open>GridMap::FindPath\<close> (\<open>GridMap.cpp\<close>): A* over the walkable tiles with eight neighbours,
  a cap on the iterations and a best-so-far fallback, the destination cluster cache,
  and the \<open>thread_local\<close> arrays that survive from one search to the next.
\<close>

section \<open>The open set\<close>

record AStarNode =
  an_x :: int
  an_z :: int
  an_g :: fl
  an_f :: fl

text \<open>
  What the search relies on of \<open>std::priority_queue\<close> with \<open>std::greater\<close>: the top is an
  element no other element is smaller than, and \<open>pop\<close> removes that element.
\<close>

locale min_queue =
  fixes lt :: "'a \<Rightarrow> 'a \<Rightarrow> bool"
    and push :: "'a \<Rightarrow> 'q \<Rightarrow> 'q"
    and top :: "'q \<Rightarrow> 'a"
    and pop :: "'q \<Rightarrow> 'q"
    and elems :: "'q \<Rightarrow> 'a multiset"
  assumes elems_push: "elems (push x q) = add_mset x (elems q)"
    and top_elem: "elems q \<noteq> {#} \<Longrightarrow> top q \<in># elems q"
    and top_min: "elems q \<noteq> {#} \<Longrightarrow> y \<in># elems q \<Longrightarrow> \<not> lt y (top q)"
    and elems_pop: "elems q \<noteq> {#} \<Longrightarrow> elems (pop q) = elems q - {#top q#}"
begin

lemma pop_subset: "elems q \<noteq> {#} \<Longrightarrow> x \<in># elems (pop q) \<Longrightarrow> x \<in># elems q"
  by (metis elems_pop in_diffD)

lemma all_pop: "elems q \<noteq> {#} \<Longrightarrow> \<forall>x\<in>#elems q. P x \<Longrightarrow> P (top q) \<and> (\<forall>x\<in>#elems (pop q). P x)"
  using top_elem pop_subset by blast

lemma all_push: "(\<forall>y\<in>#elems (push x q). P y) \<longleftrightarrow> P x \<and> (\<forall>y\<in>#elems q. P y)"
  by (simp add: elems_push)

lemma size_pop: "elems q \<noteq> {#} \<Longrightarrow> size (elems (pop q)) < size (elems q)"
  using top_elem [of q] by (simp add: elems_pop size_Diff_singleton nonempty_has_size)

end

text \<open>
  The queue as the list of its elements, last pushed first. Between elements of equal
  \<open>f\<close> the order is the library's choice: \<open>tie\<close> is an arbitrary function of the history.
\<close>

type_synonym tie_break = "AStarNode list \<Rightarrow> nat"

definition node_lt :: "AStarNode \<Rightarrow> AStarNode \<Rightarrow> bool" where
  "node_lt a b = flt (an_f a) (an_f b)"

definition pq_push :: "AStarNode \<Rightarrow> AStarNode list \<Rightarrow> AStarNode list" where
  "pq_push n q = n # q"

definition pq_minima :: "AStarNode list \<Rightarrow> AStarNode list" where
  "pq_minima q = filter (\<lambda>n. \<not> list_ex (\<lambda>n'. node_lt n' n) q) q"

definition pq_top :: "tie_break \<Rightarrow> AStarNode list \<Rightarrow> AStarNode" where
  "pq_top tie q = (let ms = pq_minima q in ms ! (tie q mod length ms))"

definition pq_pop :: "tie_break \<Rightarrow> AStarNode list \<Rightarrow> AStarNode list" where
  "pq_pop tie q = remove1 (pq_top tie q) q"

lemma node_lt_trans: "node_lt a b \<Longrightarrow> node_lt b c \<Longrightarrow> node_lt a c"
  unfolding node_lt_def by (rule flt_trans)

lemma node_lt_irrefl [simp]: "\<not> node_lt a a"
  by (simp add: node_lt_def)

lemma minimal_exists: "q \<noteq> [] \<Longrightarrow> \<exists>n\<in>set q. \<forall>n'\<in>set q. \<not> node_lt n' n"
proof (induction q rule: induct_list012)
  case 1
  then show ?case by simp
next
  case (2 x)
  then show ?case by simp
next
  case (3 x y zs)
  then obtain n where n: "n \<in> set (y # zs)" "\<forall>n'\<in>set (y # zs). \<not> node_lt n' n" by blast
  show ?case
  proof (cases "node_lt x n")
    case True
    with n(2) node_lt_trans have "\<forall>n'\<in>set (x # y # zs). \<not> node_lt n' x" by auto
    then show ?thesis by (intro bexI [of _ x]) auto
  next
    case False
    with n show ?thesis by (intro bexI [of _ n]) auto
  qed
qed

lemma pq_minima_nonempty: "q \<noteq> [] \<Longrightarrow> pq_minima q \<noteq> []"
  using minimal_exists [of q] by (auto simp: pq_minima_def filter_empty_conv list_ex_iff)

lemma pq_top_minimum: "q \<noteq> [] \<Longrightarrow> pq_top tie q \<in> set (pq_minima q)"
  using pq_minima_nonempty [of q] by (simp add: pq_top_def Let_def)

interpretation pq: min_queue node_lt pq_push "pq_top tie" "pq_pop tie" mset for tie
proof
  fix q :: "AStarNode list" and y
  assume "mset q \<noteq> {#}"
  then have top: "pq_top tie q \<in> set (pq_minima q)" by (intro pq_top_minimum) simp
  then show el: "pq_top tie q \<in># mset q" by (simp add: pq_minima_def)
  show "\<not> node_lt y (pq_top tie q)" if "y \<in># mset q"
    using top that by (auto simp: pq_minima_def list_ex_iff)
  show "mset (pq_pop tie q) = mset q - {#pq_top tie q#}"
    by (simp add: pq_pop_def)
qed (simp add: pq_push_def)

section \<open>State of a search\<close>

text \<open>The \<open>thread_local\<close> arrays, by index.\<close>

record search_scratch =
  g_score :: "int \<Rightarrow> fl"
  parent :: "int \<Rightarrow> int \<times> int"
  visited_nodes :: "int list"

text \<open>The locals the main loop assigns.\<close>

record search = search_scratch +
  open_set :: "AStarNode list"
  found :: bool
  hit_cap :: bool
  iterations :: int
  best_x :: int
  best_z :: int
  best_h :: fl

definition fresh_scratch :: search_scratch where
  "fresh_scratch = \<lparr>g_score = (\<lambda>_. flit 1000000000), parent = (\<lambda>_. (-1, -1)), visited_nodes = []\<rparr>"

text \<open>The selective reset: only the entries the last search wrote.\<close>

definition reset_visited :: "search_scratch \<Rightarrow> search_scratch" where
  "reset_visited s = fold (\<lambda>idx s. s\<lparr>g_score := (g_score s)(idx := flit 1000000000),
        parent := (parent s)(idx := (-1, -1))\<rparr>) (visited_nodes s) s \<lparr>visited_nodes := []\<rparr>"

definition heuristic :: "int \<Rightarrow> int \<Rightarrow> int \<Rightarrow> int \<Rightarrow> fl" where
  "heuristic x1 z1 x2 z2 =
     (let dx = \<bar>x1 - x2\<bar>; dz = \<bar>z1 - z2\<bar>
      in fadd (of_i32 (dx + dz))
           (fmul (fsub (flit 1.41421356) (flit 2)) (of_i32 (min dx dz))))"

text \<open>The arrays \<open>dx\<close>, \<open>dz\<close> and \<open>move_cost\<close>, one triple per \<open>i\<close>.\<close>

definition neighbours :: "(int \<times> int \<times> fl) list" where
  "neighbours =
     [(-1, 0, flit 1), (1, 0, flit 1), (0, -1, flit 1), (0, 1, flit 1),
      (-1, -1, flit 1.41421356), (-1, 1, flit 1.41421356),
      (1, -1, flit 1.41421356), (1, 1, flit 1.41421356)]"

text \<open>The body of the \<open>for\<close> loop over the neighbours.\<close>

definition relax :: "grid_map \<Rightarrow> int \<Rightarrow> int \<Rightarrow> AStarNode \<Rightarrow> nat \<Rightarrow> search \<Rightarrow> search" where
  "relax m ex ez cur i s =
     (let (dx, dz, cost) = neighbours ! i; nx = an_x cur + dx; nz = an_z cur + dz
      in if \<not> IsWalkable m nx nz then s
         else if i \<ge> 4 \<and> (\<not> IsWalkable m nx (an_z cur) \<or> \<not> IsWalkable m (an_x cur) nz) then s
         else let tentative_g = fadd (an_g cur) cost; n_idx = cell nx nz
              in if \<not> flt tentative_g (g_score s n_idx) then s
                 else let s1 = (if fle (flit 1000000000) (g_score s n_idx)
                                then s\<lparr>visited_nodes := visited_nodes s @ [n_idx]\<rparr> else s)
                      in s1\<lparr>g_score := (g_score s1)(n_idx := tentative_g),
                            parent := (parent s1)(n_idx := (an_x cur, an_z cur)),
                            open_set := pq_push \<lparr>an_x = nx, an_z = nz, an_g = tentative_g,
                              an_f = fadd tentative_g (heuristic nx nz ex ez)\<rparr> (open_set s1)\<rparr>)"

definition expand :: "grid_map \<Rightarrow> int \<Rightarrow> int \<Rightarrow> AStarNode \<Rightarrow> search \<Rightarrow> search" where
  "expand m ex ez cur s = fold (relax m ex ez cur) [0..<8] s"

definition update_best :: "int \<Rightarrow> int \<Rightarrow> AStarNode \<Rightarrow> search \<Rightarrow> search" where
  "update_best ex ez cur s =
     (let cur_h = heuristic (an_x cur) (an_z cur) ex ez
      in if flt cur_h (best_h s)
         then s\<lparr>best_h := cur_h, best_x := an_x cur, best_z := an_z cur\<rparr> else s)"

text \<open>The main loop; the iteration count bounds it.\<close>

function search_loop :: "tie_break \<Rightarrow> grid_map \<Rightarrow> int \<Rightarrow> int \<Rightarrow> int \<Rightarrow> search \<Rightarrow> search" where
  "search_loop tie m max_iterations ex ez s =
     (if open_set s = [] then s
      else let s1 = s\<lparr>iterations := iterations s + 1\<rparr>
           in if iterations s1 > max_iterations then s1\<lparr>hit_cap := True\<rparr>
              else let cur = pq_top tie (open_set s1);
                       s2 = s1\<lparr>open_set := pq_pop tie (open_set s1)\<rparr>
                   in if an_x cur = ex \<and> an_z cur = ez
                      then s2\<lparr>found := True, best_x := an_x cur, best_z := an_z cur\<rparr>
                      else if flt (g_score s2 (cell (an_x cur) (an_z cur))) (an_g cur)
                      then search_loop tie m max_iterations ex ez s2
                      else search_loop tie m max_iterations ex ez
                             (expand m ex ez cur (update_best ex ez cur s2)))"
  by pat_completeness auto

lemma iterations_relax [simp]: "iterations (relax m ex ez cur i s) = iterations s"
  by (simp add: relax_def Let_def split: prod.split)

lemma iterations_expand [simp]: "iterations (expand m ex ez cur s) = iterations s"
proof -
  have "iterations (fold (relax m ex ez cur) is s) = iterations s" for "is"
    by (induction "is" arbitrary: s) auto
  then show ?thesis by (simp add: expand_def)
qed

lemma iterations_update_best [simp]: "iterations (update_best ex ez cur s) = iterations s"
  by (simp add: update_best_def Let_def)

termination search_loop
  by (relation "measure (\<lambda>(tie, m, k, ex, ez, s). nat (k - iterations s))") auto

declare search_loop.simps [simp del]

section \<open>\<open>FindPath\<close>\<close>

text \<open>The trace from the last node back to the one whose parent is \<open>(-1, -1)\<close>.\<close>

partial_function (option) trace_back ::
  "(int \<Rightarrow> int \<times> int) \<Rightarrow> int \<Rightarrow> int \<Rightarrow> GridVector2 list \<Rightarrow> GridVector2 list option" where
  "trace_back par cx cz rev_path =
     (if cx \<noteq> -1 \<and> cz \<noteq> -1
      then trace_back par (fst (par (cell cx cz))) (snd (par (cell cx cz)))
             (rev_path @ [\<lparr>gv_x = of_i32 cx, gv_z = of_i32 cz\<rparr>])
      else Some rev_path)"

definition start_search :: "search_scratch \<Rightarrow> int \<Rightarrow> int \<Rightarrow> int \<Rightarrow> int \<Rightarrow> search" where
  "start_search s0 sx sz ex ez =
     (let s = reset_visited s0; h_start = heuristic sx sz ex ez
      in \<lparr>g_score = (g_score s)(cell sx sz := Fin 0), parent = parent s,
          visited_nodes = visited_nodes s @ [cell sx sz],
          open_set = pq_push \<lparr>an_x = sx, an_z = sz, an_g = Fin 0, an_f = h_start\<rparr> [],
          found = False, hit_cap = False, iterations = 0,
          best_x = sx, best_z = sz, best_h = h_start\<rparr>)"

text \<open>What follows the main loop; \<open>None\<close> would be a trace that never ends.\<close>

definition finish_search ::
  "int \<Rightarrow> int \<Rightarrow> int \<Rightarrow> int \<Rightarrow> search \<Rightarrow> grid_map \<Rightarrow> (PathResult \<times> grid_map) option" where
  "finish_search sx sz ex ez s m =
     (let trace_x = (if found s then ex else best_x s);
          trace_z = (if found s then ez else best_z s)
      in if trace_x = sx \<and> trace_z = sz
         then Some (\<lparr>pr_waypoints = [], pr_is_partial = False, pr_is_failed = True\<rparr>, m)
         else do {
           rev_path \<leftarrow> trace_back (parent s) trace_x trace_z [];
           let waypoints = rev rev_path;
           let m1 = (if found s \<and> waypoints \<noteq> []
                     then let m0 = (if length (path_cache m) > 500 then ClearCache m else m)
                          in m0\<lparr>path_cache := AList.update (sx div 8, sz div 8, ex div 8, ez div 8)
                                 \<lparr>ce_waypoints = waypoints, ce_tick_computed = 0\<rparr> (path_cache m0)\<rparr>
                     else m);
           Some (\<lparr>pr_waypoints = waypoints, pr_is_partial = hit_cap s \<and> \<not> found s,
                  pr_is_failed = False\<rparr>, m1)
         })"

definition run_search ::
  "tie_break \<Rightarrow> int \<Rightarrow> grid_map \<Rightarrow> search_scratch \<Rightarrow> int \<Rightarrow> int \<Rightarrow> int \<Rightarrow> int \<Rightarrow>
     (PathResult \<times> grid_map \<times> search_scratch) option" where
  "run_search tie max_iterations m s0 sx sz ex ez =
     (let s = search_loop tie m max_iterations ex ez (start_search s0 sx sz ex ez)
      in map_option (\<lambda>(r, m1). (r, m1, search_scratch.truncate s)) (finish_search sx sz ex ez s m))"

definition FindPath_tiles ::
  "tie_break \<Rightarrow> int \<Rightarrow> grid_map \<Rightarrow> search_scratch \<Rightarrow> int \<Rightarrow> int \<Rightarrow> int \<Rightarrow> int \<Rightarrow>
     (PathResult \<times> grid_map \<times> search_scratch) option" where
  "FindPath_tiles tie max_iterations m s0 sx sz ex ez =
     (if sx = ex \<and> sz = ez
      then Some (\<lparr>pr_waypoints = [\<lparr>gv_x = of_i32 ex, gv_z = of_i32 ez\<rparr>],
                  pr_is_partial = False, pr_is_failed = False\<rparr>, m, s0)
      else if \<not> IsWalkable m ex ez
      then Some (\<lparr>pr_waypoints = [], pr_is_partial = False, pr_is_failed = True\<rparr>, m, s0)
      else case map_of (path_cache m) (sx div 8, sz div 8, ex div 8, ez div 8) of
        Some entry \<Rightarrow>
          if ce_waypoints entry \<noteq> []
          then Some (\<lparr>pr_waypoints = ce_waypoints entry, pr_is_partial = False,
                      pr_is_failed = False\<rparr>, m, s0)
          else run_search tie max_iterations m s0 sx sz ex ez
      | None \<Rightarrow> run_search tie max_iterations m s0 sx sz ex ez)"

definition FindPath ::
  "tie_break \<Rightarrow> int \<Rightarrow> grid_map \<Rightarrow> search_scratch \<Rightarrow> fl \<Rightarrow> fl \<Rightarrow> fl \<Rightarrow> fl \<Rightarrow>
     (PathResult \<times> grid_map \<times> search_scratch) option" where
  "FindPath tie max_iterations m s0 start_x start_z end_x end_z =
     FindPath_tiles tie max_iterations m s0
       (tile_x start_x) (tile_z start_z) (tile_x end_x) (tile_z end_z)"

text \<open>The default argument of the declaration; no caller passes another.\<close>

abbreviation default_iterations :: int where "default_iterations \<equiv> 10000"

section \<open>Costs\<close>

lemma sentinel: "flit 1000000000 = Fin 1000000000"
  by code_simp

lemma flit_1: "flit 1 = Fin 1"
  using rnd_of_int [of 1 F32] by simp

lemma diagonal_cost: "\<exists>q. flit 1.41421356 = Fin q \<and> 1 \<le> q \<and> q \<le> 2"
proof -
  have "repr F32 1" "repr F32 2" using repr_of_int [of 1 F32] repr_of_int [of 2 F32] by simp_all
  with rnd_finite [of 1 "1.41421356" 2 F32] show ?thesis by simp blast
qed

lemma neighbours_cost: "i < 8 \<Longrightarrow> \<exists>q. snd (snd (neighbours ! i)) = Fin q \<and> 1 \<le> q \<and> q \<le> 2"
proof -
  have "\<forall>n\<in>set neighbours. \<exists>q. snd (snd n) = Fin q \<and> 1 \<le> q \<and> q \<le> 2"
    using diagonal_cost by (simp add: neighbours_def flit_1)
  moreover assume "i < 8"
  then have "neighbours ! i \<in> set neighbours" by (intro nth_mem) (simp add: neighbours_def)
  ultimately show ?thesis by blast
qed

text \<open>Below \<open>2 ^ 23\<close> a step makes the rounded sum strictly larger.\<close>

lemma add_cost:
  assumes g: "0 \<le> g" "g \<le> of_int (2 * k)" and q: "1 \<le> q" "q \<le> 2" and k: "k < 4000000"
  shows "\<exists>r. fadd (Fin g) (Fin q) = Fin r \<and> g < r \<and> r \<le> of_int (2 * (k + 1))"
proof -
  have k0: "0 \<le> k"
  proof -
    have "(0::rat) \<le> of_int (2 * k)" using g by linarith
    then have "0 \<le> 2 * k" by (simp only: of_int_0_le_iff)
    then show ?thesis by simp
  qed
  define x where "x = g + q"
  have x: "0 < x" using g q by (simp add: x_def)
  have xk: "x \<le> of_int (2 * (k + 1))" using g q by (simp add: x_def)
  have "2 * (k + 1) \<le> 8000000" using k by simp
  then have kr: "(of_int (2 * (k + 1)) :: rat) \<le> of_int 8000000" by (simp only: of_int_le_iff)
  have hi: "x < 2 powi 23" using xk kr by simp
  have rep: "repr F32 (of_int (2 * (k + 1)))" by (rule repr_of_int) (use k k0 in simp)
  have lim: "(of_int (2 * (k + 1)) :: rat) < 2 powi emax F32" using kr by simp
  have rep0: "repr F32 0" using repr_of_int [of 0 F32] by simp
  have low: "- ((2::rat) powi emax F32) < 0" by simp
  from rnd_finite [OF less_imp_le [OF x] xk rep0 rep low lim]
  obtain r where r: "rnd F32 x = Fin r" "r \<le> of_int (2 * (k + 1))" by blast
  have "(2::rat) powi ilog2 x < 2 powi 23" using ilog2_bounds(1) [OF x] hi by linarith
  then have "ilog2 x < 23" using p2_mono [of 23 "ilog2 x"] by (simp add: not_le [symmetric] del: power_int_numeral)
  then have "ulp_exp F32 x \<le> -1" using x by (simp add: ulp_exp_def)
  then have "(2::rat) powi ulp_exp F32 x \<le> 2 powi (-1)" by (simp only: p2_mono)
  then have "\<bar>rnd_rat F32 x - x\<bar> \<le> 1/2" using rnd_rat_err [of F32 x] by (simp add: power_int_minus)
  moreover have "r = rnd_rat F32 x" using r(1) by (auto simp: rnd_def Let_def split: if_splits)
  ultimately have "x - 1/2 \<le> r" by arith
  with q have "g < r" by (simp add: x_def)
  with r show ?thesis by (auto simp: x_def)
qed

section \<open>Invariant of the search\<close>

definition legal_step :: "grid_map \<Rightarrow> int \<times> int \<Rightarrow> int \<times> int \<Rightarrow> bool" where
  "legal_step m p q \<longleftrightarrow> king_adj p q \<and> IsWalkable m (fst q) (snd q) \<and>
     (fst p \<noteq> fst q \<and> snd p \<noteq> snd q \<longrightarrow>
        IsWalkable m (fst q) (snd p) \<and> IsWalkable m (fst p) (snd q))"

text \<open>The tile has been reached at cost \<open>r\<close> within \<open>k\<close> iterations.\<close>

definition reached :: "(int \<Rightarrow> fl) \<Rightarrow> int \<Rightarrow> int \<times> int \<Rightarrow> rat \<Rightarrow> bool" where
  "reached g k p r \<longleftrightarrow> on_map (fst p) (snd p) \<and> g (cell (fst p) (snd p)) = Fin r \<and>
     0 \<le> r \<and> r \<le> of_int (2 * k)"

text \<open>The tile's parent is a reached tile, strictly cheaper, one legal step away.\<close>

definition linked :: "grid_map \<Rightarrow> (int \<Rightarrow> fl) \<Rightarrow> (int \<Rightarrow> int \<times> int) \<Rightarrow> int \<Rightarrow> int \<times> int \<Rightarrow> bool" where
  "linked m g par k p \<longleftrightarrow> (\<exists>r r'. reached g k p r \<and>
     reached g k (par (cell (fst p) (snd p))) r' \<and> r' < r \<and>
     legal_step m (par (cell (fst p) (snd p))) p)"

definition unseen :: "(int \<Rightarrow> fl) \<Rightarrow> (int \<Rightarrow> int \<times> int) \<Rightarrow> int \<Rightarrow> bool" where
  "unseen g par i \<longleftrightarrow> g i = flit 1000000000 \<and> par i = (-1, -1)"

definition tree_inv ::
  "grid_map \<Rightarrow> int \<times> int \<Rightarrow> (int \<Rightarrow> fl) \<Rightarrow> (int \<Rightarrow> int \<times> int) \<Rightarrow> int \<Rightarrow> bool" where
  "tree_inv m st g par k \<longleftrightarrow>
     0 \<le> k \<and> reached g k st 0 \<and> par (cell (fst st) (snd st)) = (-1, -1) \<and>
     (\<forall>x z. on_map x z \<longrightarrow> (x, z) \<noteq> st \<longrightarrow> unseen g par (cell x z) \<or> linked m g par k (x, z))"

definition open_inv :: "(int \<Rightarrow> fl) \<Rightarrow> int \<Rightarrow> AStarNode list \<Rightarrow> bool" where
  "open_inv g k q \<longleftrightarrow> (\<forall>n\<in>#mset q. \<exists>r r'. an_g n = Fin r \<and> r \<le> of_int (2 * k) \<and>
     reached g k (an_x n, an_z n) r' \<and> r' \<le> r)"

definition written_inv :: "(int \<Rightarrow> fl) \<Rightarrow> (int \<Rightarrow> int \<times> int) \<Rightarrow> int list \<Rightarrow> bool" where
  "written_inv g par vs \<longleftrightarrow> (\<forall>i. i \<notin> set vs \<longrightarrow> unseen g par i)"

definition search_inv :: "grid_map \<Rightarrow> int \<times> int \<Rightarrow> int \<Rightarrow> search \<Rightarrow> bool" where
  "search_inv m st k s \<longleftrightarrow>
     tree_inv m st (g_score s) (parent s) k \<and> open_inv (g_score s) k (open_set s) \<and>
     written_inv (g_score s) (parent s) (visited_nodes s) \<and>
     (\<exists>r. reached (g_score s) k (best_x s, best_z s) r)"

lemma reached_mono: "reached g k p r \<Longrightarrow> k \<le> k' \<Longrightarrow> reached g k' p r"
proof -
  assume a: "reached g k p r" and k: "k \<le> k'"
  then have "(of_int (2 * k) :: rat) \<le> of_int (2 * k')" by (simp only: of_int_le_iff)
  with a show ?thesis by (auto simp: reached_def)
qed

lemma search_inv_mono: "search_inv m st k s \<Longrightarrow> k \<le> k' \<Longrightarrow> search_inv m st k' s"
proof -
  assume a: "search_inv m st k s" and k: "k \<le> k'"
  have le: "(of_int (2 * k) :: rat) \<le> of_int (2 * k')" using k by (simp only: of_int_le_iff)
  have mono: "reached (g_score s) k p r \<Longrightarrow> reached (g_score s) k' p r" for p r
    by (rule reached_mono [OF _ k])
  have l: "linked m (g_score s) (parent s) k p \<Longrightarrow> linked m (g_score s) (parent s) k' p" for p
    unfolding linked_def using mono by meson
  have t: "tree_inv m st (g_score s) (parent s) k'"
    using a k mono l unfolding search_inv_def tree_inv_def by (meson order_trans)
  have o: "open_inv (g_score s) k' (open_set s)"
    using a le mono unfolding search_inv_def open_inv_def by (meson order_trans)
  show ?thesis using a t o mono unfolding search_inv_def by blast
qed

text \<open>One improvement: tile \<open>q\<close> gets cost \<open>r\<close> through \<open>p\<close>.\<close>

lemma reached_update:
  assumes "reached g k p r'" "on_map (fst q) (snd q)" "0 \<le> r" "r \<le> of_int (2 * k)"
    and "flt (Fin r) (g (cell (fst q) (snd q)))"
  shows "\<exists>r''. reached (g(cell (fst q) (snd q) := Fin r)) k p r'' \<and> r'' \<le> r'"
  using assms by (cases "cell (fst p) (snd p) = cell (fst q) (snd q)") (auto simp: reached_def)

lemma linked_update:
  assumes l: "linked m g par k p" and ne: "p \<noteq> q" and q: "on_map (fst q) (snd q)"
    and r: "0 \<le> r" "r \<le> of_int (2 * k)" and lt: "flt (Fin r) (g (cell (fst q) (snd q)))"
  shows "linked m (g(cell (fst q) (snd q) := Fin r)) (par(cell (fst q) (snd q) := c)) k p"
proof -
  obtain a b where a: "reached g k p a" and b: "reached g k (par (cell (fst p) (snd p))) b"
    and ab: "b < a" and s: "legal_step m (par (cell (fst p) (snd p))) p"
    using l by (auto simp: linked_def)
  have p: "on_map (fst p) (snd p)" using a by (simp add: reached_def)
  have nc: "cell (fst p) (snd p) \<noteq> cell (fst q) (snd q)"
    using cell_inj [OF p q] ne by (simp add: prod_eq_iff)
  have a': "reached (g(cell (fst q) (snd q) := Fin r)) k p a" using a nc by (simp add: reached_def)
  obtain b' where "reached (g(cell (fst q) (snd q) := Fin r)) k (par (cell (fst p) (snd p))) b'" "b' \<le> b"
    using reached_update [OF b q r lt] by blast
  with a' s ab nc show ?thesis
    unfolding linked_def by (intro exI [of _ a] exI [of _ b']) simp
qed

lemma unseen_update: "i \<noteq> j \<Longrightarrow> unseen (g(j := v)) (par(j := c)) i = unseen g par i"
  by (simp add: unseen_def)

lemma tree_inv_update:
  assumes inv: "tree_inv m st g par k" and p: "reached g k p r'" "r' < r"
    and q: "on_map (fst q) (snd q)" and step: "legal_step m p q"
    and r: "r \<le> of_int (2 * k)" and lt: "flt (Fin r) (g (cell (fst q) (snd q)))"
  shows "tree_inv m st (g(cell (fst q) (snd q) := Fin r)) (par(cell (fst q) (snd q) := p)) k"
proof -
  define i where "i = cell (fst q) (snd q)"
  have r0: "0 \<le> r" using p by (simp add: reached_def)
  have st: "reached g k st 0" "par (cell (fst st) (snd st)) = (-1, -1)"
    using inv by (auto simp: tree_inv_def)
  have on: "on_map (fst st) (snd st)" "on_map (fst p) (snd p)" using st p by (auto simp: reached_def)
  have "st \<noteq> q" using st(1) lt r0 by (auto simp: reached_def)
  then have nst: "cell (fst st) (snd st) \<noteq> i"
    using cell_inj [OF on(1) q] by (simp add: i_def prod_eq_iff)
  have "p \<noteq> q" using step by (auto simp: legal_step_def king_adj_def)
  then have np: "cell (fst p) (snd p) \<noteq> i"
    using cell_inj [OF on(2) q] by (simp add: i_def prod_eq_iff)
  have q': "linked m (g(i := Fin r)) (par(i := p)) k q"
    unfolding linked_def using p r r0 q step np
    by (intro exI [of _ r] exI [of _ r']) (simp add: reached_def i_def)
  have "unseen (g(i := Fin r)) (par(i := p)) (cell x z) \<or> linked m (g(i := Fin r)) (par(i := p)) k (x, z)"
    if xz: "on_map x z" "(x, z) \<noteq> st" for x z
  proof (cases "(x, z) = q")
    case True
    with q' show ?thesis by simp
  next
    case False
    then have "cell x z \<noteq> i" using cell_inj [OF xz(1) q] by (auto simp: i_def prod_eq_iff)
    moreover have "unseen g par (cell x z) \<or> linked m g par k (x, z)"
      using inv xz by (simp add: tree_inv_def)
    ultimately show ?thesis
      using linked_update [where p = "(x, z)" and g = g and q = q and c = p and m = m, OF _ False q r0 r lt] by (auto simp: unseen_update i_def)
  qed
  then show ?thesis
    using inv st nst unfolding i_def [symmetric] by (simp add: tree_inv_def reached_def)
qed

lemma open_inv_update:
  assumes inv: "open_inv g k q" and n: "on_map (an_x n) (an_z n)" "an_g n = Fin r"
    and r: "0 \<le> r" "r \<le> of_int (2 * k)" and lt: "flt (Fin r) (g (cell (an_x n) (an_z n)))"
  shows "open_inv (g(cell (an_x n) (an_z n) := Fin r)) k (pq_push n q)"
  unfolding open_inv_def pq.all_push
proof
  show "\<exists>ra r'. an_g n = Fin ra \<and> ra \<le> of_int (2 * k) \<and>
      reached (g(cell (an_x n) (an_z n) := Fin r)) k (an_x n, an_z n) r' \<and> r' \<le> ra"
    using n r by (auto simp: reached_def)
  show "\<forall>y\<in>#mset q. \<exists>ra r'. an_g y = Fin ra \<and> ra \<le> of_int (2 * k) \<and>
      reached (g(cell (an_x n) (an_z n) := Fin r)) k (an_x y, an_z y) r' \<and> r' \<le> ra"
  proof
    fix y
    assume "y \<in># mset q"
    with inv obtain ra r' where y: "an_g y = Fin ra" "ra \<le> of_int (2 * k)"
      "reached g k (an_x y, an_z y) r'" "r' \<le> ra" unfolding open_inv_def by blast
    from reached_update [OF y(3), of "(an_x n, an_z n)" r] n r lt
    obtain r'' where "reached (g(cell (an_x n) (an_z n) := Fin r)) k (an_x y, an_z y) r''" "r'' \<le> r'"
      by auto
    with y show "\<exists>ra r'. an_g y = Fin ra \<and> ra \<le> of_int (2 * k) \<and>
      reached (g(cell (an_x n) (an_z n) := Fin r)) k (an_x y, an_z y) r' \<and> r' \<le> ra"
      by (meson order_trans)
  qed
qed

lemma written_inv_update:
  assumes inv: "written_inv g par vs" and mem: "unseen g par i \<longrightarrow> i \<in> set vs'" and vs: "set vs \<subseteq> set vs'"
  shows "written_inv (g(i := v)) (par(i := c)) vs'"
  unfolding written_inv_def
proof (intro allI impI)
  fix j
  assume j: "j \<notin> set vs'"
  with vs inv have "unseen g par j" by (auto simp: written_inv_def)
  moreover from this mem j have "j \<noteq> i" by auto
  ultimately show "unseen (g(i := v)) (par(i := c)) j" by (simp add: unseen_update)
qed

text \<open>The node being expanded: its recorded cost is an upper bound of its score.\<close>

definition cur_ok :: "int \<Rightarrow> AStarNode \<Rightarrow> search \<Rightarrow> bool" where
  "cur_ok k cur s \<longleftrightarrow> (\<exists>g r'. an_g cur = Fin g \<and> g \<le> of_int (2 * k) \<and>
     reached (g_score s) k (an_x cur, an_z cur) r' \<and> r' \<le> g)"

lemma neighbours_step:
  "i < 8 \<Longrightarrow> neighbours ! i = (dx, dz, c) \<Longrightarrow>
     \<bar>dx\<bar> \<le> 1 \<and> \<bar>dz\<bar> \<le> 1 \<and> \<not> (dx = 0 \<and> dz = 0) \<and> (dx \<noteq> 0 \<and> dz \<noteq> 0 \<longrightarrow> 4 \<le> i)"
proof -
  assume i: "i < 8" and n: "neighbours ! i = (dx, dz, c)"
  from i consider "i = 0" | "i = 1" | "i = 2" | "i = 3" | "i = 4" | "i = 5" | "i = 6" | "i = 7"
    by linarith
  then show ?thesis using n by cases (auto simp: neighbours_def)
qed

text \<open>The three outcomes of one pass of the neighbour loop.\<close>

lemma relax_cases:
  assumes "i < 8"
  obtains (skip) "relax m ex ez cur i s = s"
  | (improve) nx nz cost where
      "IsWalkable m nx nz" "legal_step m (an_x cur, an_z cur) (nx, nz)"
      "snd (snd (neighbours ! i)) = cost"
      "flt (fadd (an_g cur) cost) (g_score s (cell nx nz))"
      "g_score (relax m ex ez cur i s) = (g_score s)(cell nx nz := fadd (an_g cur) cost)"
      "parent (relax m ex ez cur i s) = (parent s)(cell nx nz := (an_x cur, an_z cur))"
      "open_set (relax m ex ez cur i s) = pq_push \<lparr>an_x = nx, an_z = nz, an_g = fadd (an_g cur) cost,
         an_f = fadd (fadd (an_g cur) cost) (heuristic nx nz ex ez)\<rparr> (open_set s)"
      "visited_nodes (relax m ex ez cur i s) = (if fle (flit 1000000000) (g_score s (cell nx nz))
         then visited_nodes s @ [cell nx nz] else visited_nodes s)"
      "best_x (relax m ex ez cur i s) = best_x s" "best_z (relax m ex ez cur i s) = best_z s"
proof -
  obtain dx dz cost where n: "neighbours ! i = (dx, dz, cost)" by (metis prod_cases3)
  define nx where "nx = an_x cur + dx"
  define nz where "nz = an_z cur + dz"
  define go where "go \<longleftrightarrow> IsWalkable m nx nz \<and>
    (4 \<le> i \<longrightarrow> IsWalkable m nx (an_z cur) \<and> IsWalkable m (an_x cur) nz) \<and>
    flt (fadd (an_g cur) cost) (g_score s (cell nx nz))"
  show thesis
  proof (cases go)
    case False
    then have "relax m ex ez cur i s = s"
      by (auto simp: relax_def n Let_def nx_def nz_def go_def)
    then show thesis by (rule skip)
  next
    case True
    have "legal_step m (an_x cur, an_z cur) (nx, nz)"
      using neighbours_step [OF assms n] True
      by (auto simp: legal_step_def king_adj_def nx_def nz_def go_def)
    with True show thesis
      by (intro improve [of nx nz cost])
        (auto simp: go_def relax_def n Let_def simp flip: nx_def nz_def)
  qed
qed

lemma relax_inv:
  assumes inv: "search_inv m st (k + 1) s" and cur: "cur_ok k cur s" and k: "k < 4000000" and i: "i < 8"
  shows "search_inv m st (k + 1) (relax m ex ez cur i s) \<and> cur_ok k cur (relax m ex ez cur i s)"
  using i
proof (cases rule: relax_cases [of i m ex ez cur s])
  case skip
  with inv cur show ?thesis by simp
next
  case (improve nx nz cost)
  obtain g r' where g: "an_g cur = Fin g" "g \<le> of_int (2 * k)"
    and r': "reached (g_score s) k (an_x cur, an_z cur) r'" "r' \<le> g"
    using cur by (auto simp: cur_ok_def)
  obtain c where c: "cost = Fin c" "1 \<le> c" "c \<le> 2" using neighbours_cost [OF i] improve(3) by auto
  have g0: "0 \<le> g" using r' by (simp add: reached_def)
  obtain t where t: "fadd (Fin g) (Fin c) = Fin t" "g < t" "t \<le> of_int (2 * (k + 1))"
    using add_cost [OF g0 g(2) c(2,3) k] by blast
  have t0: "0 \<le> t" and r't: "r' < t" using g0 t r' by auto
  have on: "on_map nx nz" by (rule IsWalkable_on_map [OF improve(1)])
  have lt: "flt (Fin t) (g_score s (cell nx nz))" using improve(4) by (simp only: g c t)
  have rk: "reached (g_score s) (k + 1) (an_x cur, an_z cur) r'"
    by (rule reached_mono [OF r'(1)]) simp
  have tree: "tree_inv m st ((g_score s)(cell nx nz := Fin t))
      ((parent s)(cell nx nz := (an_x cur, an_z cur))) (k + 1)"
    using tree_inv_update [of m st "g_score s" "parent s" "k + 1" "(an_x cur, an_z cur)" r' t "(nx, nz)"]
      inv rk r't on improve(2) t lt by (simp add: search_inv_def)
  have opn: "open_inv ((g_score s)(cell nx nz := Fin t)) (k + 1) (open_set (relax m ex ez cur i s))"
    using open_inv_update [of "g_score s" "k + 1" "open_set s" "\<lparr>an_x = nx, an_z = nz, an_g = Fin t,
         an_f = fadd (Fin t) (heuristic nx nz ex ez)\<rparr>" t] inv on t t0 lt
    by (simp add: search_inv_def improve(7) g c)
  have wr: "written_inv ((g_score s)(cell nx nz := Fin t))
      ((parent s)(cell nx nz := (an_x cur, an_z cur))) (visited_nodes (relax m ex ez cur i s))"
    by (rule written_inv_update [where vs = "visited_nodes s"])
      (use inv in \<open>auto simp: search_inv_def improve(8) unseen_def sentinel\<close>)
  have best: "\<exists>r. reached ((g_score s)(cell nx nz := Fin t)) (k + 1) (best_x s, best_z s) r"
    using inv reached_update [of "g_score s" "k + 1" "(best_x s, best_z s)" _ "(nx, nz)" t]
      on t0 t lt by (auto simp: search_inv_def)
  have "cur_ok k cur (relax m ex ez cur i s)"
  proof -
    have "cell (an_x cur) (an_z cur) \<noteq> cell nx nz"
      using cell_inj [OF _ on, of "an_x cur" "an_z cur"] r'(1) improve(2)
      by (auto simp: reached_def legal_step_def king_adj_def)
    with g r' show ?thesis by (auto simp: cur_ok_def improve(5) reached_def)
  qed
  with tree opn wr best show ?thesis
    unfolding search_inv_def improve(5,6,9,10) g(1) c(1) t(1) by blast
qed

lemma expand_inv:
  assumes "search_inv m st (k + 1) s" "cur_ok k cur s" "k < 4000000"
  shows "search_inv m st (k + 1) (expand m ex ez cur s)"
proof -
  have "set is \<subseteq> {0..<8} \<Longrightarrow> search_inv m st (k + 1) s \<Longrightarrow> cur_ok k cur s \<Longrightarrow>
      search_inv m st (k + 1) (fold (relax m ex ez cur) is s)" for "is" s
  proof (induction "is" arbitrary: s)
    case Nil
    then show ?case by simp
  next
    case (Cons i "is")
    then show ?case using relax_inv [OF Cons.prems(2,3) assms(3), of i ex ez] by simp
  qed
  with assms show ?thesis by (simp add: expand_def)
qed

lemma update_best_inv:
  "search_inv m st k s \<Longrightarrow> reached (g_score s) k (an_x cur, an_z cur) r \<Longrightarrow>
     search_inv m st k (update_best ex ez cur s)"
  by (auto simp: update_best_def Let_def search_inv_def)

lemma update_best_g [simp]: "g_score (update_best ex ez cur s) = g_score s"
  by (simp add: update_best_def Let_def)

lemma search_inv_pop:
  assumes "search_inv m st k s" "open_set s \<noteq> []"
  shows "search_inv m st k (s\<lparr>iterations := n, open_set := pq_pop tie (open_set s)\<rparr>)"
    "cur_ok k (pq_top tie (open_set s)) (s\<lparr>iterations := n', open_set := q\<rparr>)"
proof -
  have ne: "mset (open_set s) \<noteq> {#}" using assms(2) by simp
  have o: "open_inv (g_score s) k (open_set s)" using assms(1) by (simp add: search_inv_def)
  from pq.all_pop [OF ne o [unfolded open_inv_def]]
  have "open_inv (g_score s) k (pq_pop tie (open_set s))"
    and c: "\<exists>r r'. an_g (pq_top tie (open_set s)) = Fin r \<and> r \<le> of_int (2 * k) \<and>
      reached (g_score s) k (an_x (pq_top tie (open_set s)), an_z (pq_top tie (open_set s))) r' \<and> r' \<le> r"
    by (auto simp: open_inv_def)
  then show "search_inv m st k (s\<lparr>iterations := n, open_set := pq_pop tie (open_set s)\<rparr>)"
    using assms(1) by (simp add: search_inv_def)
  show "cur_ok k (pq_top tie (open_set s)) (s\<lparr>iterations := n', open_set := q\<rparr>)"
    using c by (simp add: cur_ok_def)
qed

lemma found_relax [simp]: "found (relax m ex ez cur i s) = found s"
  by (simp add: relax_def Let_def split: prod.split)

lemma found_expand [simp]: "found (expand m ex ez cur s) = found s"
proof -
  have "found (fold (relax m ex ez cur) is s) = found s" for "is"
    by (induction "is" arbitrary: s) auto
  then show ?thesis by (simp add: expand_def)
qed

lemma found_update_best [simp]: "found (update_best ex ez cur s) = found s"
  by (simp add: update_best_def Let_def)

lemma search_loop_inv:
  assumes "search_inv m st (iterations s) s" "K \<le> 4000000" "iterations s \<le> K"
    and "\<not> found s"
  shows "\<exists>k. search_inv m st k (search_loop tie m K ex ez s) \<and>
    (found (search_loop tie m K ex ez s) \<longrightarrow>
       (\<exists>r. reached (g_score (search_loop tie m K ex ez s)) k (ex, ez) r)) \<and> k \<le> 4000000"
  using assms
proof (induction "nat (K - iterations s)" arbitrary: s rule: less_induct)
  case less
  note inv = less.prems(1) and K = less.prems(2) and it = less.prems(3) and fnd = less.prems(4)
  define cur where "cur = pq_top tie (open_set s)"
  define s2 where "s2 = s\<lparr>iterations := iterations s + 1, open_set := pq_pop tie (open_set s)\<rparr>"
  consider "open_set s = []" | "open_set s \<noteq> []" "iterations s + 1 > K"
    | "open_set s \<noteq> []" "iterations s + 1 \<le> K" by linarith
  then show ?case
  proof cases
    case 1
    then have "search_loop tie m K ex ez s = s" by (simp add: search_loop.simps)
    with inv fnd K it show ?thesis by (intro exI [of _ "iterations s"]) simp
  next
    case 2
    then have "search_loop tie m K ex ez s = s\<lparr>iterations := iterations s + 1, hit_cap := True\<rparr>"
      by (simp add: search_loop.simps)
    with inv fnd K it show ?thesis by (intro exI [of _ "iterations s"]) (simp add: search_inv_def)
  next
    case 3
    have inv2: "search_inv m st (iterations s) s2" and cok: "cur_ok (iterations s) cur s2"
      unfolding s2_def cur_def using search_inv_pop [OF inv 3(1)] by auto
    from search_inv_mono [OF inv2, of "iterations s + 1"]
    have inv3: "search_inv m st (iterations s + 1) s2" by simp
    obtain r' where r': "reached (g_score s2) (iterations s) (an_x cur, an_z cur) r'"
      using cok by (auto simp: cur_ok_def)
    from reached_mono [OF r', of "iterations s + 1"]
    have r1: "reached (g_score s2) (iterations s + 1) (an_x cur, an_z cur) r'" by simp
    have dec: "nat (K - (iterations s + 1)) < nat (K - iterations s)" using 3 by simp
    have s2i: "iterations s2 = iterations s + 1" and s2f: "found s2 = found s" by (simp_all add: s2_def)
    have eq: "search_loop tie m K ex ez s =
        (if an_x cur = ex \<and> an_z cur = ez
         then s2\<lparr>found := True, best_x := an_x cur, best_z := an_z cur\<rparr>
         else if flt (g_score s2 (cell (an_x cur) (an_z cur))) (an_g cur)
         then search_loop tie m K ex ez s2
         else search_loop tie m K ex ez (expand m ex ez cur (update_best ex ez cur s2)))"
      using 3 by (subst search_loop.simps) (simp add: Let_def s2_def cur_def)
    consider "an_x cur = ex \<and> an_z cur = ez"
      | "\<not> (an_x cur = ex \<and> an_z cur = ez)" "flt (g_score s2 (cell (an_x cur) (an_z cur))) (an_g cur)"
      | "\<not> (an_x cur = ex \<and> an_z cur = ez)" "\<not> flt (g_score s2 (cell (an_x cur) (an_z cur))) (an_g cur)"
      by blast
    then show ?thesis
    proof cases
      case 1
      then have "search_loop tie m K ex ez s = s2\<lparr>found := True, best_x := ex, best_z := ez\<rparr>"
        by (simp add: eq)
      with inv3 r1 1 K 3 show ?thesis
        by (intro exI [of _ "iterations s + 1"]) (auto simp: search_inv_def)
    next
      case 2
      then have e: "search_loop tie m K ex ez s = search_loop tie m K ex ez s2"
        by (simp only: eq if_False if_True)
      show ?thesis unfolding e
        by (rule less.hyps) (use dec inv3 K 3 fnd in \<open>simp_all add: s2i s2f\<close>)
    next
      case 3
      define s3 where "s3 = expand m ex ez cur (update_best ex ez cur s2)"
      have s3: "iterations s3 = iterations s + 1" "found s3 = found s" by (simp_all add: s3_def s2i s2f)
      have inv4: "search_inv m st (iterations s + 1) s3" unfolding s3_def
        by (rule expand_inv [OF update_best_inv [OF inv3 r1]])
          (use cok it K \<open>iterations s + 1 \<le> K\<close> in \<open>simp_all add: cur_ok_def\<close>)
      from 3 have e: "search_loop tie m K ex ez s = search_loop tie m K ex ez s3"
        by (simp only: eq s3_def if_False)
      show ?thesis unfolding e
        by (rule less.hyps) (use dec inv4 K \<open>iterations s + 1 \<le> K\<close> fnd in \<open>simp_all add: s3\<close>)
    qed
  qed
qed

section \<open>The trace\<close>

definition to_vec :: "int \<times> int \<Rightarrow> GridVector2" where
  "to_vec p = \<lparr>gv_x = of_i32 (fst p), gv_z = of_i32 (snd p)\<rparr>"

text \<open>A walk over the map: only its first tile may be unwalkable.\<close>

definition tile_path :: "grid_map \<Rightarrow> (int \<times> int) list \<Rightarrow> bool" where
  "tile_path m ts \<longleftrightarrow> ts \<noteq> [] \<and> on_map (fst (hd ts)) (snd (hd ts)) \<and> successively (legal_step m) ts"

definition cheaper :: "(int \<Rightarrow> fl) \<Rightarrow> int \<Rightarrow> rat \<Rightarrow> (int \<times> int) set" where
  "cheaper g k r = {q. \<exists>r'. reached g k q r' \<and> r' < r}"

lemma finite_cheaper: "finite (cheaper g k r)"
proof -
  have "cheaper g k r \<subseteq> {0..<WIDTH} \<times> {0..<HEIGHT}"
    by (auto simp: cheaper_def reached_def on_map_def)
  then show ?thesis by (rule finite_subset) simp
qed

lemma cheaper_less: "reached g k q r' \<Longrightarrow> r' < r \<Longrightarrow> card (cheaper g k r') < card (cheaper g k r)"
proof (rule psubset_card_mono [OF finite_cheaper])
  assume a: "reached g k q r'" "r' < r"
  then have "q \<in> cheaper g k r" "q \<notin> cheaper g k r'" by (auto simp: cheaper_def reached_def)
  moreover have "cheaper g k r' \<subseteq> cheaper g k r" using a(2) by (force simp: cheaper_def)
  ultimately show "cheaper g k r' \<subset> cheaper g k r" by blast
qed

lemma trace_back_path:
  assumes inv: "tree_inv m st g par k" and p: "reached g k p r" and k: "k \<le> 4000000"
  shows "\<exists>ts. tile_path m ts \<and> hd ts = st \<and> last ts = p \<and>
    (\<forall>acc. trace_back par (fst p) (snd p) acc = Some (acc @ rev (map to_vec ts)))"
  using p
proof (induction "card (cheaper g k r)" arbitrary: p r rule: less_induct)
  case less
  note p = less.prems
  have on: "on_map (fst p) (snd p)" using p by (simp add: reached_def)
  then have pos: "fst p \<noteq> -1" "snd p \<noteq> -1" by (auto simp: on_map_def)
  have unfold: "trace_back par (fst p) (snd p) acc =
      trace_back par (fst (par (cell (fst p) (snd p)))) (snd (par (cell (fst p) (snd p)))) (acc @ [to_vec p])" for acc
    using pos by (subst trace_back.simps) (simp add: to_vec_def)
  show ?case
  proof (cases "p = st")
    case True
    have "trace_back par (fst p) (snd p) acc = Some (acc @ [to_vec p])" for acc
      unfolding unfold by (subst trace_back.simps) (use inv True in \<open>simp add: tree_inv_def\<close>)
    then show ?thesis using on True
      by (intro exI [of _ "[p]"]) (simp add: tile_path_def)
  next
    case False
    have "linked m g par k p"
    proof -
      have "unseen g par (cell (fst p) (snd p)) \<or> linked m g par k (fst p, snd p)"
        using inv on False unfolding tree_inv_def by (metis prod.collapse)
      moreover have "\<not> unseen g par (cell (fst p) (snd p))"
      proof
        assume "unseen g par (cell (fst p) (snd p))"
        with p have r: "r = 1000000000" by (simp add: unseen_def reached_def sentinel)
        with p have "(of_int 1000000000::rat) \<le> of_int (2 * k)" by (simp add: reached_def)
        then have "1000000000 \<le> 2 * k" by (simp only: of_int_le_iff)
        with k show False by simp
      qed
      ultimately show ?thesis by simp
    qed
    then obtain r1 r' where r': "reached g k (par (cell (fst p) (snd p))) r'" "r' < r"
      and step: "legal_step m (par (cell (fst p) (snd p))) p"
      using p by (auto simp: linked_def reached_def)
    from less.hyps [OF cheaper_less [OF r'] r'(1)]
    obtain ts where ts: "tile_path m ts" "hd ts = st" "last ts = par (cell (fst p) (snd p))"
      "\<And>acc. trace_back par (fst (par (cell (fst p) (snd p)))) (snd (par (cell (fst p) (snd p)))) acc =
         Some (acc @ rev (map to_vec ts))" by blast
    have "trace_back par (fst p) (snd p) acc = Some (acc @ rev (map to_vec (ts @ [p])))" for acc
      unfolding unfold ts(4) by simp
    moreover have "tile_path m (ts @ [p])"
      using ts(1,3) step by (auto simp: tile_path_def successively_append_iff)
    ultimately show ?thesis using ts(1,2)
      by (intro exI [of _ "ts @ [p]"]) (simp add: tile_path_def)
  qed
qed

section \<open>The selective reset\<close>

definition scratch_ok :: "search_scratch \<Rightarrow> bool" where
  "scratch_ok s \<longleftrightarrow> written_inv (g_score s) (parent s) (visited_nodes s)"

lemma fresh_scratch_ok: "scratch_ok fresh_scratch"
  by (simp add: scratch_ok_def fresh_scratch_def written_inv_def unseen_def)

lemma reset_fold:
  "g_score (fold (\<lambda>idx s. s\<lparr>g_score := (g_score s)(idx := v), parent := (parent s)(idx := c)\<rparr>) is s) =
     (\<lambda>i. if i \<in> set is then v else g_score s i)"
  "parent (fold (\<lambda>idx s. s\<lparr>g_score := (g_score s)(idx := v), parent := (parent s)(idx := c)\<rparr>) is s) =
     (\<lambda>i. if i \<in> set is then c else parent s i)"
  by (induction "is" arbitrary: s) (auto simp: fun_eq_iff)

lemma reset_visited_fresh: "scratch_ok s \<Longrightarrow> reset_visited s = fresh_scratch"
  by (rule search_scratch.equality)
    (auto simp: reset_visited_def fresh_scratch_def reset_fold fun_eq_iff scratch_ok_def
      written_inv_def unseen_def)

lemma start_search_inv:
  assumes "scratch_ok s0" "on_map sx sz"
  shows "search_inv m (sx, sz) 0 (start_search s0 sx sz ex ez)"
proof -
  have r: "reached ((g_score fresh_scratch)(cell sx sz := Fin 0)) 0 (sx, sz) 0"
    using assms(2) by (simp add: reached_def)
  have "unseen ((g_score fresh_scratch)(cell sx sz := Fin 0)) (parent fresh_scratch) (cell x z)"
    if "on_map x z" "(x, z) \<noteq> (sx, sz)" for x z
    using that assms(2) cell_inj [OF that(1) assms(2)] by (auto simp: unseen_def fresh_scratch_def)
  with r have t: "tree_inv m (sx, sz) ((g_score fresh_scratch)(cell sx sz := Fin 0)) (parent fresh_scratch) 0"
    by (auto simp: tree_inv_def fresh_scratch_def)
  have o: "open_inv ((g_score fresh_scratch)(cell sx sz := Fin 0)) 0
      (pq_push \<lparr>an_x = sx, an_z = sz, an_g = Fin 0, an_f = h\<rparr> [])" for h
    using r by (auto simp: open_inv_def pq_push_def)
  have w: "written_inv ((g_score fresh_scratch)(cell sx sz := Fin 0)) (parent fresh_scratch) [cell sx sz]"
    by (auto simp: written_inv_def unseen_def fresh_scratch_def)
  have v: "visited_nodes fresh_scratch = []" by (simp add: fresh_scratch_def)
  show ?thesis
    unfolding search_inv_def start_search_def reset_visited_fresh [OF assms(1)] Let_def
    using r t o w v by auto
qed

section \<open>What \<open>FindPath\<close> delivers\<close>

definition bucket_key :: "int \<times> int \<Rightarrow> int \<times> int \<Rightarrow> PathCacheKey" where
  "bucket_key p q = (fst p div 8, snd p div 8, fst q div 8, snd q div 8)"

text \<open>A cached path is a walk between some tile of the start bucket and some tile of the end bucket.\<close>

definition cache_entry_ok :: "grid_map \<Rightarrow> PathCacheKey \<times> PathCacheEntry \<Rightarrow> bool" where
  "cache_entry_ok m ke \<longleftrightarrow> (\<exists>ts. tile_path m ts \<and> ce_waypoints (snd ke) = map to_vec ts \<and>
     fst ke = bucket_key (hd ts) (last ts))"

definition cache_ok :: "grid_map \<Rightarrow> bool" where
  "cache_ok m \<longleftrightarrow> (\<forall>ke\<in>set (path_cache m). cache_entry_ok m ke) \<and>
     distinct (map fst (path_cache m)) \<and> length (path_cache m) \<le> 501"

text \<open>
  The result of a request: a failure has no waypoints; otherwise they are a walk over the
  map from a tile of the start bucket, and a walk that reaches the goal's bucket, or a
  strictly positive distance towards it when the search was cut off or exhausted.
\<close>

definition path_result_ok :: "grid_map \<Rightarrow> int \<times> int \<Rightarrow> int \<times> int \<Rightarrow> PathResult \<Rightarrow> bool" where
  "path_result_ok m st goal r \<longleftrightarrow>
     (if pr_is_failed r then pr_waypoints r = [] \<and> \<not> pr_is_partial r
      else (\<exists>ts. tile_path m ts \<and> pr_waypoints r = map to_vec ts \<and>
         (bucket_key (hd ts) (last ts) = bucket_key st goal \<and> \<not> pr_is_partial r \<or>
          hd ts = st \<and> last ts \<noteq> st)))"

lemma tile_path_cong: "grid m = grid m' \<Longrightarrow> tile_path m = tile_path m'"
  by (intro ext) (simp add: tile_path_def legal_step_def IsWalkable_def)

lemma cache_ok_ClearCache [simp]: "cache_ok (ClearCache m)"
  by (simp add: cache_ok_def ClearCache_def)

lemma length_update_le: "length (AList.update k v xs) \<le> Suc (length xs)"
  by (induction xs) auto

lemma set_update: "set (AList.update k v xs) \<subseteq> insert (k, v) (set xs)"
  by (induction xs) auto

lemma cache_insert_ok:
  assumes "cache_ok m" "tile_path m ts"
  shows "cache_ok ((if length (path_cache m) > 500 then ClearCache m else m)
     \<lparr>path_cache := AList.update (bucket_key (hd ts) (last ts))
        \<lparr>ce_waypoints = map to_vec ts, ce_tick_computed = 0\<rparr>
        (path_cache (if length (path_cache m) > 500 then ClearCache m else m))\<rparr>)"
proof -
  define m0 where "m0 = (if length (path_cache m) > 500 then ClearCache m else m)"
  define k where "k = bucket_key (hd ts) (last ts)"
  define e where "e = \<lparr>ce_waypoints = map to_vec ts, ce_tick_computed = 0\<rparr>"
  define m1 where "m1 = m0\<lparr>path_cache := AList.update k e (path_cache m0)\<rparr>"
  have g: "tile_path m1 = tile_path m" "tile_path m0 = tile_path m"
    by (rule tile_path_cong; simp add: m1_def m0_def ClearCache_def)+
  have m0: "cache_ok m0" "length (path_cache m0) \<le> 500"
    using assms(1) by (auto simp: m0_def) (simp add: ClearCache_def)
  have "cache_entry_ok m1 ke" if "ke \<in> set (path_cache m1)" for ke
  proof -
    from that set_update [of k e "path_cache m0"]
    have "ke = (k, e) \<or> ke \<in> set (path_cache m0)" by (auto simp: m1_def)
    then show ?thesis
      using m0(1) assms(2) unfolding cache_entry_ok_def cache_ok_def g
      by (auto simp: e_def k_def)
  qed
  moreover have "distinct (map fst (path_cache m1))"
    using m0(1) by (simp add: m1_def cache_ok_def distinct_update)
  moreover have "length (path_cache m1) \<le> 501"
    using length_update_le [of k e "path_cache m0"] m0(2) by (simp add: m1_def)
  ultimately show ?thesis
    unfolding cache_ok_def m1_def [symmetric] m0_def [symmetric] k_def [symmetric] e_def [symmetric] by blast
qed

lemma finish_search_ok:
  assumes inv: "search_inv m (sx, sz) k s" and k: "k \<le> 4000000" and c: "cache_ok m"
    and f: "found s \<Longrightarrow> \<exists>r. reached (g_score s) k (ex, ez) r"
  shows "\<exists>r m'. finish_search sx sz ex ez s m = Some (r, m') \<and> cache_ok m' \<and> grid m' = grid m \<and>
    location_coords m' = location_coords m \<and> path_result_ok m (sx, sz) (ex, ez) r"
proof -
  define t where "t = (if found s then (ex, ez) else (best_x s, best_z s))"
  have tr: "(if found s then ex else best_x s) = fst t" "(if found s then ez else best_z s) = snd t"
    by (simp_all add: t_def)
  obtain r where r: "reached (g_score s) k t r"
    using inv f unfolding t_def search_inv_def by (cases "found s") auto
  show ?thesis
  proof (cases "fst t = sx \<and> snd t = sz")
    case True
    then show ?thesis
      using c by (simp add: finish_search_def tr path_result_ok_def)
  next
    case False
    obtain ts where ts: "tile_path m ts" "hd ts = (sx, sz)" "last ts = t"
      "trace_back (parent s) (fst t) (snd t) [] = Some (rev (map to_vec ts))"
      using trace_back_path [OF _ r k] inv unfolding search_inv_def by fastforce
    have ne: "map to_vec ts \<noteq> []" using ts(1) by (simp add: tile_path_def)
    define m1 where "m1 = (if found s then
        (let m0 = (if length (path_cache m) > 500 then ClearCache m else m)
         in m0\<lparr>path_cache := AList.update (sx div 8, sz div 8, ex div 8, ez div 8)
              \<lparr>ce_waypoints = map to_vec ts, ce_tick_computed = 0\<rparr> (path_cache m0)\<rparr>) else m)"
    have res: "finish_search sx sz ex ez s m =
        Some (\<lparr>pr_waypoints = map to_vec ts, pr_is_partial = hit_cap s \<and> \<not> found s,
               pr_is_failed = False\<rparr>, m1)"
      unfolding finish_search_def tr using False ts(4) ne by (auto simp: m1_def Let_def)
    have key: "bucket_key (hd ts) (last ts) = (sx div 8, sz div 8, ex div 8, ez div 8)" if "found s"
      using ts that by (simp add: bucket_key_def t_def)
    have "cache_ok m1"
      using cache_insert_ok [OF c ts(1)] c key unfolding m1_def Let_def
      by (cases "found s") (simp_all only: if_True if_False)
    moreover have "grid m1 = grid m" "location_coords m1 = location_coords m"
      by (auto simp: m1_def Let_def ClearCache_def)
    moreover have "last ts \<noteq> (sx, sz)" using False ts(3) by auto
    ultimately show ?thesis
      using res ts key by (auto simp: path_result_ok_def bucket_key_def intro!: exI [of _ ts])
  qed
qed

lemma truncate_scratch [simp]:
  "g_score (search_scratch.truncate s) = g_score s" "parent (search_scratch.truncate s) = parent s"
  "visited_nodes (search_scratch.truncate s) = visited_nodes s"
  by (simp_all add: search_scratch.truncate_def)

lemma run_search_ok:
  assumes "cache_ok m" "scratch_ok s0" "on_map sx sz" "K \<le> 4000000" "0 \<le> K"
  shows "\<exists>r m' s'. run_search tie K m s0 sx sz ex ez = Some (r, m', s') \<and> cache_ok m' \<and>
    grid m' = grid m \<and> location_coords m' = location_coords m \<and> scratch_ok s' \<and> path_result_ok m (sx, sz) (ex, ez) r"
proof -
  define s where "s = search_loop tie m K ex ez (start_search s0 sx sz ex ez)"
  have st: "iterations (start_search s0 sx sz ex ez) = 0" "\<not> found (start_search s0 sx sz ex ez)"
    by (simp_all add: start_search_def Let_def)
  obtain k where k: "search_inv m (sx, sz) k s" "k \<le> 4000000"
    "found s \<Longrightarrow> \<exists>r. reached (g_score s) k (ex, ez) r"
    using search_loop_inv [of m "(sx, sz)" "start_search s0 sx sz ex ez" K tie ex ez]
      start_search_inv [OF assms(2,3), of m ex ez] assms(4,5) st(2) unfolding s_def st(1) by auto
  from finish_search_ok [OF k(1,2) assms(1) k(3)]
  obtain r m' where "finish_search sx sz ex ez s m = Some (r, m')" "cache_ok m'" "grid m' = grid m"
    "location_coords m' = location_coords m" "path_result_ok m (sx, sz) (ex, ez) r" by blast
  moreover have "scratch_ok (search_scratch.truncate s)"
    using k(1) by (simp add: scratch_ok_def search_inv_def)
  ultimately show ?thesis by (simp add: run_search_def s_def [symmetric] Let_def)
qed

lemma FindPath_ok:
  assumes "cache_ok m" "scratch_ok s0" "K \<le> 4000000" "0 \<le> K"
  shows "\<exists>r m' s'. FindPath tie K m s0 x1 z1 x2 z2 = Some (r, m', s') \<and> cache_ok m' \<and>
    grid m' = grid m \<and> location_coords m' = location_coords m \<and> scratch_ok s' \<and>
    path_result_ok m (tile_x x1, tile_z z1) (tile_x x2, tile_z z2) r"
proof -
  let ?s = "(tile_x x1, tile_z z1)" and ?e = "(tile_x x2, tile_z z2)"
  have on: "on_map (tile_x x1) (tile_z z1)" "on_map (tile_x x2) (tile_z z2)"
    by (simp_all add: on_map_def tile_bounds)
  note run = run_search_ok [OF assms(1,2) on(1) assms(3,4), of tie "tile_x x2" "tile_z z2"]
  consider (same) "?s = ?e" | (blocked) "?s \<noteq> ?e" "\<not> IsWalkable m (tile_x x2) (tile_z z2)"
    | (hit) e where "?s \<noteq> ?e" "IsWalkable m (tile_x x2) (tile_z z2)"
        "map_of (path_cache m) (bucket_key ?s ?e) = Some e" "ce_waypoints e \<noteq> []"
    | (miss) "?s \<noteq> ?e" "IsWalkable m (tile_x x2) (tile_z z2)"
        "\<And>e. map_of (path_cache m) (bucket_key ?s ?e) = Some e \<Longrightarrow> ce_waypoints e = []"
    by blast
  then show ?thesis
  proof cases
    case same
    then show ?thesis
      using assms on by (auto simp: FindPath_def FindPath_tiles_def path_result_ok_def bucket_key_def
          tile_path_def to_vec_def intro!: exI [of _ "[(tile_x x2, tile_z z2)]"])
  next
    case blocked
    then show ?thesis
      using assms by (auto simp: FindPath_def FindPath_tiles_def path_result_ok_def)
  next
    case hit
    have res: "FindPath tie K m s0 x1 z1 x2 z2 = Some (\<lparr>pr_waypoints = ce_waypoints e,
        pr_is_partial = False, pr_is_failed = False\<rparr>, m, s0)"
      using hit by (auto simp: FindPath_def FindPath_tiles_def bucket_key_def)
    have "cache_entry_ok m (bucket_key ?s ?e, e)"
      using hit(3) assms(1) by (auto simp: cache_ok_def dest: map_of_SomeD)
    then have "path_result_ok m ?s ?e
        \<lparr>pr_waypoints = ce_waypoints e, pr_is_partial = False, pr_is_failed = False\<rparr>"
      by (auto simp: cache_entry_ok_def path_result_ok_def)
    with res assms show ?thesis by simp
  next
    case miss
    then have "FindPath tie K m s0 x1 z1 x2 z2 =
        run_search tie K m s0 (tile_x x1) (tile_z z1) (tile_x x2) (tile_z z2)"
      by (auto simp: FindPath_def FindPath_tiles_def bucket_key_def split: option.split)
    with run show ?thesis by simp
  qed
qed

section \<open>Sequences of requests\<close>

text \<open>Successive searches of one thread share its arrays and the cache.\<close>

fun FindPath_run ::
  "tie_break \<Rightarrow> grid_map \<Rightarrow> search_scratch \<Rightarrow> (fl \<times> fl \<times> fl \<times> fl) list \<Rightarrow>
     (PathResult list \<times> grid_map) option" where
  "FindPath_run tie m s [] = Some ([], m)"
| "FindPath_run tie m s ((x1, z1, x2, z2) # reqs) =
     (case FindPath tie default_iterations m s x1 z1 x2 z2 of
        None \<Rightarrow> None
      | Some (r, m1, s1) \<Rightarrow> map_option (\<lambda>(rs, m2). (r # rs, m2)) (FindPath_run tie m1 s1 reqs))"

text \<open>The reference: every search allocates its arrays anew.\<close>

fun FindPath_run_fresh ::
  "tie_break \<Rightarrow> grid_map \<Rightarrow> (fl \<times> fl \<times> fl \<times> fl) list \<Rightarrow> (PathResult list \<times> grid_map) option" where
  "FindPath_run_fresh tie m [] = Some ([], m)"
| "FindPath_run_fresh tie m ((x1, z1, x2, z2) # reqs) =
     (case FindPath tie default_iterations m fresh_scratch x1 z1 x2 z2 of
        None \<Rightarrow> None
      | Some (r, m1, s1) \<Rightarrow> map_option (\<lambda>(rs, m2). (r # rs, m2)) (FindPath_run_fresh tie m1 reqs))"

lemma FindPath_fresh:
  assumes "scratch_ok s"
  shows "map_option (\<lambda>(r, m', s'). (r, m')) (FindPath tie K m s x1 z1 x2 z2) =
    map_option (\<lambda>(r, m', s'). (r, m')) (FindPath tie K m fresh_scratch x1 z1 x2 z2)"
  using reset_visited_fresh [OF assms] reset_visited_fresh [OF fresh_scratch_ok]
  by (simp add: FindPath_def FindPath_tiles_def run_search_def start_search_def split: option.split)

lemma path_result_ok_cong: "grid m = grid m' \<Longrightarrow> path_result_ok m = path_result_ok m'"
  by (intro ext) (simp add: path_result_ok_def tile_path_cong [of m m'])

lemma FindPath_run_ok:
  assumes "cache_ok m" "scratch_ok s"
  shows "\<exists>rs m'. FindPath_run tie m s reqs = Some (rs, m') \<and> cache_ok m' \<and> grid m' = grid m \<and>
    list_all2 (\<lambda>(x1, z1, x2, z2). path_result_ok m (tile_x x1, tile_z z1) (tile_x x2, tile_z z2)) reqs rs"
  using assms
proof (induction reqs arbitrary: m s)
  case Nil
  then show ?case by simp
next
  case (Cons req reqs)
  obtain x1 z1 x2 z2 where req: "req = (x1, z1, x2, z2)" by (metis prod_cases4)
  obtain r m1 s1 where fp: "FindPath tie default_iterations m s x1 z1 x2 z2 = Some (r, m1, s1)"
    "cache_ok m1" "grid m1 = grid m" "scratch_ok s1"
    "path_result_ok m (tile_x x1, tile_z z1) (tile_x x2, tile_z z2) r"
    using FindPath_ok [OF Cons.prems, of default_iterations tie x1 z1 x2 z2] by auto
  obtain rs m' where "FindPath_run tie m1 s1 reqs = Some (rs, m')" "cache_ok m'" "grid m' = grid m1"
    "list_all2 (\<lambda>(x1, z1, x2, z2). path_result_ok m1 (tile_x x1, tile_z z1) (tile_x x2, tile_z z2)) reqs rs"
    using Cons.IH [OF fp(2,4)] by blast
  with fp req path_result_ok_cong [OF fp(3)] show ?case by simp
qed

text \<open>C4: Every sequence of \<open>FindPath\<close> calls on a map with an empty cache returns (the search
  and the trace back to the start always end), and each result is either a failure without
  waypoints or a walk over neighbouring walkable tiles that cuts no corner: from the start
  tile, or, from the cache, between the 8 by 8 buckets of the start and the goal. The cache
  never holds more than 501 paths.\<close>

theorem FindPath_run_valid:
  "\<exists>rs m'. FindPath_run tie (ClearCache m) fresh_scratch reqs = Some (rs, m') \<and>
     length (path_cache m') \<le> 501 \<and>
     list_all2 (\<lambda>(x1, z1, x2, z2). path_result_ok m (tile_x x1, tile_z z1) (tile_x x2, tile_z z2)) reqs rs"
proof -
  have g: "path_result_ok (ClearCache m) = path_result_ok m"
    by (rule path_result_ok_cong) (simp add: ClearCache_def)
  show ?thesis
    using FindPath_run_ok [OF cache_ok_ClearCache fresh_scratch_ok, of tie m reqs]
    unfolding g cache_ok_def by blast
qed

text \<open>C10: Resetting only the entries the previous search visited is equivalent to fresh arrays:
  a sequence of searches that reuses the thread's arrays gives the results and the cache of
  one that allocates them anew for every search.\<close>

theorem FindPath_run_reset:
  "FindPath_run tie (ClearCache m) fresh_scratch reqs = FindPath_run_fresh tie (ClearCache m) reqs"
proof -
  have "cache_ok m \<Longrightarrow> scratch_ok s \<Longrightarrow> FindPath_run tie m s reqs = FindPath_run_fresh tie m reqs" for m s
  proof (induction reqs arbitrary: m s)
    case Nil
    then show ?case by simp
  next
    case (Cons req reqs)
    obtain x1 z1 x2 z2 where req: "req = (x1, z1, x2, z2)" by (metis prod_cases4)
    obtain r m1 s1 where fp: "FindPath tie default_iterations m s x1 z1 x2 z2 = Some (r, m1, s1)"
      "cache_ok m1" "scratch_ok s1"
      using FindPath_ok [OF Cons.prems, of default_iterations tie x1 z1 x2 z2] by auto
    with FindPath_fresh [OF Cons.prems(2), of tie default_iterations m x1 z1 x2 z2]
    obtain s2 where "FindPath tie default_iterations m fresh_scratch x1 z1 x2 z2 = Some (r, m1, s2)"
      by (auto split: option.splits simp: map_option_case)
    with fp Cons.IH [OF fp(2,3)] show ?case by (simp add: req)
  qed
  then show ?thesis using fresh_scratch_ok by simp
qed

end
