(* ===== verification/World.thy ===== *)
theory World
  imports Tcp LocationReg AStar
begin

text \<open>
  The state the systems of the main loop share: the registry, the spatial registry, the TCP
  server and the calls handed to the asynchronous gRPC client. A call is its request and a
  continuation, the completion callback with what it captures; \<open>GrpcClient\<close> runs it.
\<close>

section \<open>gRPC requests\<close>

record JobPayload =
  jp_npc_id :: u32
  jp_job_id :: u64
  jp_target_location :: string
  jp_target_x :: fl
  jp_target_y :: fl
  jp_target_z :: fl
  jp_intent :: string
  jp_target_agent_id :: u32
  jp_priority :: int
  jp_category :: nat

record AgentStatusUpdate =
  su_agent_id :: u32
  su_location :: string
  su_x :: fl
  su_y :: fl
  su_z :: fl
  su_emotion :: string
  su_activity :: string

text \<open>The enumerations of the protocol the requests carry.\<close>

datatype InterruptReason = UNKNOWN_REASON | DIALOGUE_BUSY | PHYSICAL_ATTACKED | ENVIRONMENT_CHANGE

datatype ProtoBeliefType = BELIEF_TYPE_UNSPECIFIED | BELIEF_TYPE_CORE | BELIEF_TYPE_WITNESSED
  | BELIEF_TYPE_HEARD | BELIEF_TYPE_OVERHEARD

datatype rpc_call =
    ProcessWorldTick int
  | TriggerDialogue "u32 list"
  | BatchUpdateStatus "AgentStatusUpdate list"
  | StartPlayerDialogue string u32
  | SendPlayerMessage u64 string
  | EndPlayerDialogue u64
  | InjectBelief u32 u32 string ProtoBeliefType u32
  | GetPendingJobs int
  | ReportJobStatus u32 u64 int InterruptReason string int
  | ThreatDetected u32 u32 int
  | ReportCombatEvent u32 u32 fl string
  | GetAgentStatus u32

text \<open>
  The callbacks: \<open>KNone\<close> does nothing but log, \<open>KLog\<close> pushes a task that only logs; the
  others name the lambda and its captures (\<open>u32 option\<close>: the session whose pending count
  the callback decrements).
\<close>

datatype continuation =
    KNone
  | KLog
  | KThreat entity u32
  | KDialogue "entity list" int string
  | KPlayerDialogueStarted u32 string entity entity "u32 option"
  | KPlayerMessage u32 string u64 "u32 option"
  | KPlayerDialogueEnded "entity option" "entity option" "u32 option"
  | KAgentStatus u32 u32 "u32 option"
  | KJobReport entity
  | KWorldTick int
  | KPendingJobs
  | KBatchStatus "(entity \<times> AgentStatusUpdate) list"

section \<open>Messages to the clients\<close>

text \<open>The protobuf messages the systems send; an unset position or velocity is \<open>None\<close>.\<close>

record DialogueLine =
  dl_speaker_id :: u32
  dl_speaker_name :: string
  dl_text :: string

record DialogueEventPayload =
  de_task_id :: u64
  de_npc_a_name :: string
  de_npc_b_name :: string
  de_is_started :: bool
  de_summary :: string
  de_location_name :: string
  de_position :: "(fl \<times> fl \<times> fl) option"
  de_lines :: "DialogueLine list"

record NpcSnapshot =
  sn_npc_id :: u32
  sn_display_name :: string
  sn_location_name :: string
  sn_position :: "fl \<times> fl \<times> fl"
  sn_emotion :: string
  sn_activity :: string
  sn_hp :: fl
  sn_max_hp :: fl
  sn_velocity :: "(fl \<times> fl \<times> fl) option"

record LoginResponse =
  lr_success :: bool
  lr_message :: string
  lr_locations :: "(string \<times> fl \<times> fl \<times> fl) list"
  lr_npcs :: "NpcSnapshot list"

record NpcReplyPayload =
  nr_session_id :: u64
  nr_npc_name :: string
  nr_reply_text :: string

record AgentStatusResponse =
  ar_name :: string
  ar_location :: "(string \<times> fl \<times> fl \<times> fl) option"
  ar_emotion :: string
  ar_activity :: string
  ar_memories :: "string list"

datatype sc_message =
    DialogueEventMsg DialogueEventPayload
  | WorldSnapshotMsg int "NpcSnapshot list"
  | LoginResponseMsg LoginResponse
  | NpcReplyMsg NpcReplyPayload
  | AgentStatusMsg AgentStatusResponse

section \<open>World\<close>

text \<open>
  \<open>rands\<close> is the sequence of values \<open>rand()\<close> is going to return, \<open>dice\<close> and
  \<open>contagion_dice\<close> those of the uniform distributions over [0, 1) of the social and the
  emotion system, \<open>disc_draws\<close> the angle and unit numbers of \<open>RandomizeWithinRadius\<close>, and
  \<open>shuffles\<close> counts the shuffles. \<open>contagion_ids\<close> are the emotion ids \<open>SystemEmotionDecay\<close>
  keeps in its statics. \<open>backpressure\<close> holds the pending counter of each session object.
  \<open>outbox\<close> lists the calls started, oldest first.
\<close>

record world =
  reg :: registry
  grid_reg :: location_registry
  tcp :: tcp_server
  backpressure :: "u32 \<Rightarrow> bp_state"
  outbox :: "(rpc_call \<times> continuation) list"
  rands :: "nat \<Rightarrow> nat"
  dice :: "nat \<Rightarrow> fl"
  contagion_dice :: "nat \<Rightarrow> fl"
  disc_draws :: "nat \<Rightarrow> fl \<times> fl"
  shuffles :: nat
  contagion_ids :: "(u8 \<times> u8) option"

definition draw_die :: "world \<Rightarrow> fl \<times> world" where
  "draw_die w = (dice w 0, w\<lparr>dice := (\<lambda>n. dice w (Suc n))\<rparr>)"

definition draw_contagion :: "world \<Rightarrow> fl \<times> world" where
  "draw_contagion w = (contagion_dice w 0, w\<lparr>contagion_dice := (\<lambda>n. contagion_dice w (Suc n))\<rparr>)"

definition draw_disc :: "world \<Rightarrow> (fl \<times> fl) \<times> world" where
  "draw_disc w = (disc_draws w 0, w\<lparr>disc_draws := (\<lambda>n. disc_draws w (Suc n))\<rparr>)"

definition draw_rand :: "world \<Rightarrow> nat \<times> world" where
  "draw_rand w = (rands w 0, w\<lparr>rands := (\<lambda>n. rands w (Suc n))\<rparr>)"

definition call_rpc :: "rpc_call \<Rightarrow> continuation \<Rightarrow> world \<Rightarrow> world" where
  "call_rpc c k w = w\<lparr>outbox := outbox w @ [(c, k)]\<rparr>"

text \<open>
  What the code takes from its environment: the order in which EnTT visits entities,
  libm's \<open>cosf\<close> and \<open>sinf\<close>, the integer behind an entity handle, the map of the world, the
  result of the n-th \<open>std::shuffle\<close>, and protobuf: the bytes of a message, and the fields of a
  request when its payload parses.
\<close>

record env =
  order :: "registry \<Rightarrow> entity list"
  cos_f :: "fl \<Rightarrow> fl"
  sin_f :: "fl \<Rightarrow> fl"
  entity_int :: "entity \<Rightarrow> int"
  walk_map :: grid_map
  shuffled :: "nat \<Rightarrow> entity list \<Rightarrow> entity list"
  encode :: "sc_message \<Rightarrow> u8 list"
  parse_login :: "u8 list \<Rightarrow> (string \<times> string) option"
  parse_move :: "u8 list \<Rightarrow> (string \<times> fl \<times> fl \<times> fl) option"
  parse_talk :: "u8 list \<Rightarrow> u32 option"
  parse_message :: "u8 list \<Rightarrow> (u64 \<times> string) option"
  parse_end :: "u8 list \<Rightarrow> u64 option"
  parse_status :: "u8 list \<Rightarrow> u32 option"

definition shuffle_entities :: "env \<Rightarrow> entity list \<Rightarrow> world \<Rightarrow> entity list \<times> world" where
  "shuffle_entities env xs w = (shuffled env (shuffles w) xs, w\<lparr>shuffles := shuffles w + 1\<rparr>)"

text \<open>\<open>double\<close> to \<open>float\<close> conversion.\<close>

fun to_f32 :: "fl \<Rightarrow> fl" where "to_f32 (Fin x) = rnd F32 x" | "to_f32 a = a"

section \<open>Component updates\<close>

definition put_location :: "entity \<Rightarrow> LocationComp \<Rightarrow> world \<Rightarrow> world" where
  "put_location e c w = w\<lparr>reg := (reg w)\<lparr>location := (location (reg w))(e \<mapsto> c)\<rparr>\<rparr>"
definition put_identity :: "entity \<Rightarrow> IdentityComp \<Rightarrow> world \<Rightarrow> world" where
  "put_identity e c w = w\<lparr>reg := (reg w)\<lparr>identity := (identity (reg w))(e \<mapsto> c)\<rparr>\<rparr>"
definition put_activity :: "entity \<Rightarrow> string \<Rightarrow> world \<Rightarrow> world" where
  "put_activity e c w = w\<lparr>reg := (reg w)\<lparr>activity := (activity (reg w))(e \<mapsto> c)\<rparr>\<rparr>"
definition put_job :: "entity \<Rightarrow> JobComp \<Rightarrow> world \<Rightarrow> world" where
  "put_job e c w = w\<lparr>reg := (reg w)\<lparr>job := (job (reg w))(e \<mapsto> c)\<rparr>\<rparr>"
definition put_toil :: "entity \<Rightarrow> ToilComp \<Rightarrow> world \<Rightarrow> world" where
  "put_toil e c w = w\<lparr>reg := (reg w)\<lparr>toil := (toil (reg w))(e \<mapsto> c)\<rparr>\<rparr>"
definition put_needs :: "entity \<Rightarrow> NeedsComp \<Rightarrow> world \<Rightarrow> world" where
  "put_needs e c w = w\<lparr>reg := (reg w)\<lparr>needs := (needs (reg w))(e \<mapsto> c)\<rparr>\<rparr>"
definition put_affordance :: "entity \<Rightarrow> AffordanceComp \<Rightarrow> world \<Rightarrow> world" where
  "put_affordance e c w = w\<lparr>reg := (reg w)\<lparr>affordance := (affordance (reg w))(e \<mapsto> c)\<rparr>\<rparr>"
definition put_velocity :: "entity \<Rightarrow> VelocityComp \<Rightarrow> world \<Rightarrow> world" where
  "put_velocity e c w = w\<lparr>reg := (reg w)\<lparr>velocity := (velocity (reg w))(e \<mapsto> c)\<rparr>\<rparr>"
definition put_combat :: "entity \<Rightarrow> CombatComp \<Rightarrow> world \<Rightarrow> world" where
  "put_combat e c w = w\<lparr>reg := (reg w)\<lparr>combat := (combat (reg w))(e \<mapsto> c)\<rparr>\<rparr>"
definition put_health :: "entity \<Rightarrow> HealthComp \<Rightarrow> world \<Rightarrow> world" where
  "put_health e c w = w\<lparr>reg := (reg w)\<lparr>health := (health (reg w))(e \<mapsto> c)\<rparr>\<rparr>"
definition put_aggro :: "entity \<Rightarrow> AggroComp \<Rightarrow> world \<Rightarrow> world" where
  "put_aggro e c w = w\<lparr>reg := (reg w)\<lparr>aggro := (aggro (reg w))(e \<mapsto> c)\<rparr>\<rparr>"
definition put_cooldown :: "entity \<Rightarrow> CooldownComp \<Rightarrow> world \<Rightarrow> world" where
  "put_cooldown e c w = w\<lparr>reg := (reg w)\<lparr>cooldown := (cooldown (reg w))(e \<mapsto> c)\<rparr>\<rparr>"
definition put_emotion :: "entity \<Rightarrow> EmotionComp \<Rightarrow> world \<Rightarrow> world" where
  "put_emotion e c w = w\<lparr>reg := (reg w)\<lparr>emotion := (emotion (reg w))(e \<mapsto> c)\<rparr>\<rparr>"
definition put_pathfinding :: "entity \<Rightarrow> PathfindingComp \<Rightarrow> world \<Rightarrow> world" where
  "put_pathfinding e c w = w\<lparr>reg := (reg w)\<lparr>pathfinding := (pathfinding (reg w))(e \<mapsto> c)\<rparr>\<rparr>"
definition put_busy :: "entity \<Rightarrow> BusyTag \<Rightarrow> world \<Rightarrow> world" where
  "put_busy e c w = w\<lparr>reg := (reg w)\<lparr>busy := (busy (reg w))(e \<mapsto> c)\<rparr>\<rparr>"

text \<open>\<open>if (reg.all_of<BusyTag>(e)) reg.erase<BusyTag>(e)\<close>.\<close>

definition erase_busy :: "entity \<Rightarrow> world \<Rightarrow> world" where
  "erase_busy e w = w\<lparr>reg := (reg w)\<lparr>busy := (busy (reg w))(e := None)\<rparr>\<rparr>"

text \<open>\<open>if (reg.all_of<PathfindingComp>(e)) \<dots>\<close>: drop the remaining waypoints.\<close>

definition clear_path :: "entity \<Rightarrow> world \<Rightarrow> world" where
  "clear_path e w = (case pathfinding (reg w) e of
       None \<Rightarrow> w
     | Some p \<Rightarrow> put_pathfinding e (p\<lparr>waypoints := [], current_waypoint_index := 0\<rparr>) w)"

definition update_position :: "entity \<Rightarrow> fl \<Rightarrow> fl \<Rightarrow> world \<Rightarrow> world" where
  "update_position e x z w =
     (let (r, g) = UpdateEntityPosition e x z (reg w, grid_reg w) in w\<lparr>reg := r, grid_reg := g\<rparr>)"

definition destroy_entity :: "entity \<Rightarrow> world \<Rightarrow> world" where
  "destroy_entity e w = w\<lparr>reg := destroy e (reg w)\<rparr>"

definition put_last_synced :: "entity \<Rightarrow> LastSyncedComp \<Rightarrow> world \<Rightarrow> world" where
  "put_last_synced e c w = w\<lparr>reg := (reg w)\<lparr>last_synced := (last_synced (reg w))(e \<mapsto> c)\<rparr>\<rparr>"
definition put_player_tag :: "entity \<Rightarrow> u32 \<Rightarrow> world \<Rightarrow> world" where
  "put_player_tag e c w = w\<lparr>reg := (reg w)\<lparr>player_tag := (player_tag (reg w))(e \<mapsto> c)\<rparr>\<rparr>"
definition put_player_dialogue :: "entity \<Rightarrow> PlayerDialogueComp \<Rightarrow> world \<Rightarrow> world" where
  "put_player_dialogue e c w = w\<lparr>reg := (reg w)\<lparr>player_dialogue := (player_dialogue (reg w))(e \<mapsto> c)\<rparr>\<rparr>"

lemmas put_defs = put_location_def put_identity_def put_activity_def put_job_def put_toil_def
  put_needs_def put_affordance_def put_velocity_def put_combat_def put_health_def put_aggro_def
  put_cooldown_def put_emotion_def put_pathfinding_def put_busy_def erase_busy_def
  put_last_synced_def put_player_tag_def put_player_dialogue_def

text \<open>\<open>std::sqrt(dx * dx + dz * dz)\<close>.\<close>

definition dist2 :: "fl \<Rightarrow> fl \<Rightarrow> fl" where
  "dist2 dx dz = fsqrt (fadd (fmul dx dx) (fmul dz dz))"

text \<open>\<open>reg.view<C\<dots>>().each(\<dots>)\<close>: every entity in the visit order, tested when it is reached.\<close>

definition view_each ::
  "env \<Rightarrow> (registry \<Rightarrow> entity \<Rightarrow> bool) \<Rightarrow> (entity \<Rightarrow> world \<Rightarrow> world option) \<Rightarrow> world \<Rightarrow> world option" where
  "view_each env P f w = foldM (\<lambda>e w. if P (reg w) e then f e w else Some w) (order env (reg w)) w"

section \<open>Sending to the clients\<close>

text \<open>\<open>SendProto\<close> and \<open>BroadcastProto\<close>; no caller looks at the result.\<close>

definition send_to_client :: "env \<Rightarrow> u32 \<Rightarrow> u16 \<Rightarrow> sc_message \<Rightarrow> world \<Rightarrow> world option" where
  "send_to_client env index packet_id m w =
     map_option (\<lambda>(_, s). w\<lparr>tcp := s\<rparr>) (SendProto index packet_id (encode env m) (tcp w))"

definition broadcast :: "env \<Rightarrow> u16 \<Rightarrow> sc_message \<Rightarrow> world \<Rightarrow> world option" where
  "broadcast env packet_id m w =
     map_option (\<lambda>(_, s). w\<lparr>tcp := s\<rparr>) (BroadcastProto packet_id (encode env m) (tcp w))"

text \<open>A message whose frame fits the send buffer, or is refused by the length check.\<close>

definition fits :: "env \<Rightarrow> sc_message \<Rightarrow> bool" where
  "fits env m \<longleftrightarrow> length (encode env m) < 65532 \<or> 65535 < length (encode env m)"

lemma fits_guard:
  "fits env m \<Longrightarrow> SendProto_guard (encode env m) \<Longrightarrow> \<exists>b. Send_buffer pid (encode env m) = Some b"
  using Send_buffer_fits_iff [of pid "encode env m"]
  by (auto simp: fits_def SendProto_guard_def size_defs)

lemma tcp_same: "\<exists>s. w = w\<lparr>tcp := s\<rparr>"
  by (rule exI [of _ "tcp w"]) simp

lemma send_to_client_total: "fits env m \<Longrightarrow> \<exists>s. send_to_client env i pid m w = Some (w\<lparr>tcp := s\<rparr>)"
  using fits_guard [of env m pid] tcp_same [of w]
  by (auto simp: send_to_client_def SendProto_def SendTo_def Send_def split: option.split)

lemma broadcast_total: "fits env m \<Longrightarrow> \<exists>s. broadcast env pid m w = Some (w\<lparr>tcp := s\<rparr>)"
  using fits_guard [of env m pid] tcp_same [of w]
  by (auto simp: broadcast_def BroadcastProto_def BroadcastPacket_def)

end
