(* ===== verification/BehaviorNodes.thy ===== *)
theory BehaviorNodes
  imports World
begin

text \<open>
  The leaves of the behaviour tree (\<open>BehaviorTrees.h\<close>): one definition per node class,
  its \<open>Tick\<close> on an entity. The result is undefined (\<open>None\<close>) where the code reads a
  component the entity does not have or the tick of an absent context.
\<close>

type_synonym bt_tick = "(NodeStatus \<times> world) option"

definition current_tick :: "world \<Rightarrow> int option" where
  "current_tick w = bt_context_tick (reg w)"

section \<open>Survival conditions\<close>

text \<open>The common part of the two crisis nodes: release, report, inject the virtual job.\<close>

definition ConditionIsHungry_Tick :: "entity \<Rightarrow> world \<Rightarrow> bt_tick" where
  "ConditionIsHungry_Tick e w = do {
     n \<leftarrow> needs (reg w) e;
     if is_resolving_survival n \<and> current_survival_type n = SvHunger then Some (StSuccess, w)
     else if is_resolving_survival n then Some (StFailure, w)
     else if flt (hunger n) (flit 15) then do {
       let w1 = put_needs e (n\<lparr>is_resolving_survival := True, current_survival_type := SvHunger\<rparr>) w;
       let w2 = clear_path e (erase_busy e w1);
       ident \<leftarrow> identity (reg w2) e;
       j \<leftarrow> job (reg w2) e;
       t \<leftarrow> toil (reg w2) e;
       tick \<leftarrow> current_tick w2;
       let w3 = call_rpc (ReportJobStatus (npc_id ident) (job_id j) 2 ENVIRONMENT_CHANGE
                  ''survival_hunger'' tick) KLog w2;
       let w4 = put_job e (j\<lparr>job_id := 999000, intent := lit_eating, category := JcEat,
                  is_active := True, target_location := '''', target_x := Fin 0,
                  target_y := Fin 0, target_z := Fin 0\<rparr>) w3;
       let w5 = put_toil e (t\<lparr>toil_state := TsIdle, duration_ticks := 0, current_action := ''''\<rparr>) w4;
       Some (StSuccess, w5)
     }
     else Some (StFailure, w)
   }"

definition ConditionIsFatigued_Tick :: "entity \<Rightarrow> world \<Rightarrow> bt_tick" where
  "ConditionIsFatigued_Tick e w = do {
     n \<leftarrow> needs (reg w) e;
     if is_resolving_survival n \<and> current_survival_type n = SvFatigue then Some (StSuccess, w)
     else if is_resolving_survival n then Some (StFailure, w)
     else if flt (fatigue n) (flit 15) then do {
       let w1 = put_needs e (n\<lparr>is_resolving_survival := True, current_survival_type := SvFatigue\<rparr>) w;
       let w2 = clear_path e (erase_busy e w1);
       ident \<leftarrow> identity (reg w2) e;
       j \<leftarrow> job (reg w2) e;
       t \<leftarrow> toil (reg w2) e;
       tick \<leftarrow> current_tick w2;
       let w3 = call_rpc (ReportJobStatus (npc_id ident) (job_id j) 2 ENVIRONMENT_CHANGE
                  ''survival_fatigue'' tick) KLog w2;
       let w4 = put_job e (j\<lparr>job_id := 999001, intent := lit_asleep, category := JcSleep,
                  is_active := True, target_location := '''', target_x := Fin 0,
                  target_y := Fin 0, target_z := Fin 0\<rparr>) w3;
       let w5 = put_toil e (t\<lparr>toil_state := TsIdle, duration_ticks := 0, current_action := ''''\<rparr>) w4;
       Some (StSuccess, w5)
     }
     else Some (StFailure, w)
   }"

definition ConditionIsScheduledEat_Tick :: "entity \<Rightarrow> world \<Rightarrow> bt_tick" where
  "ConditionIsScheduledEat_Tick e w = do {
     n \<leftarrow> needs (reg w) e;
     if is_resolving_survival n \<and> current_survival_type n = SvHunger then Some (StSuccess, w)
     else if is_resolving_survival n then Some (StFailure, w)
     else do {
       j \<leftarrow> job (reg w) e;
       t \<leftarrow> toil (reg w) e;
       loc \<leftarrow> location (reg w) e;
       if is_active j \<and> category j = JcEat \<and> toil_state t = TsWorking
          \<and> location_name loc = target_location j
       then Some (StSuccess, put_needs e
              (n\<lparr>is_resolving_survival := True, current_survival_type := SvHunger\<rparr>) w)
       else Some (StFailure, w)
     }
   }"

definition ConditionIsScheduledSleep_Tick :: "entity \<Rightarrow> world \<Rightarrow> bt_tick" where
  "ConditionIsScheduledSleep_Tick e w = do {
     n \<leftarrow> needs (reg w) e;
     if is_resolving_survival n \<and> current_survival_type n = SvFatigue then Some (StSuccess, w)
     else if is_resolving_survival n then Some (StFailure, w)
     else do {
       j \<leftarrow> job (reg w) e;
       t \<leftarrow> toil (reg w) e;
       loc \<leftarrow> location (reg w) e;
       if is_active j \<and> category j = JcSleep \<and> toil_state t = TsWorking
          \<and> location_name loc = target_location j
       then Some (StSuccess, put_needs e
              (n\<lparr>is_resolving_survival := True, current_survival_type := SvFatigue\<rparr>) w)
       else Some (StFailure, w)
     }
   }"

section \<open>Furniture\<close>

definition furniture_serves :: "SurvivalType \<Rightarrow> AffordanceType \<Rightarrow> bool" where
  "furniture_serves s a = (case s of
       SvHunger \<Rightarrow> a = AfEat \<or> a = AfDrink \<or> a = AfSit
     | SvFatigue \<Rightarrow> a = AfSleep \<or> a = AfSit
     | SvNone \<Rightarrow> False)"

text \<open>The visit of \<open>furn_view\<close> in \<open>ActionFindFurniture\<close>: the nearest free piece so far.\<close>

definition consider_furniture ::
  "registry \<Rightarrow> SurvivalType \<Rightarrow> LocationComp \<Rightarrow> entity \<Rightarrow>
     entity option \<times> fl \<Rightarrow> entity option \<times> fl" where
  "consider_furniture r s loc f best =
     (case (affordance r f, location r f) of
        (Some aff, Some furn_loc) \<Rightarrow>
          if furniture_serves s (aff_type aff) \<and> occupied_by aff = None then
            (let d = dist2 (fsub (lc_x furn_loc) (lc_x loc)) (fsub (lc_z furn_loc) (lc_z loc));
                 dist = (if zone_id furn_loc \<noteq> zone_id loc then fadd d (flit 1000) else d)
             in if flt dist (snd best) then (Some f, dist) else best)
          else best
      | _ \<Rightarrow> best)"

definition nearest_furniture ::
  "env \<Rightarrow> registry \<Rightarrow> SurvivalType \<Rightarrow> LocationComp \<Rightarrow> entity option \<times> fl" where
  "nearest_furniture env r s loc =
     fold (consider_furniture r s loc) (order env r) (None, flit 999999)"

text \<open>The campfire or camp of the wilderness: create the entity and file it in the grid.\<close>

definition spawn_camp ::
  "string \<Rightarrow> AffordanceType \<Rightarrow> LocationComp \<Rightarrow> world \<Rightarrow> entity \<times> world" where
  "spawn_camp camp_name a loc w =
     (let (camp, r1) = create (reg w);
          w1 = put_identity camp \<lparr>npc_id = 0, display_name = camp_name\<rparr> (w\<lparr>reg := r1\<rparr>);
          w2 = put_location camp (LocationComp_default\<lparr>zone_id := zone_id loc,
                 location_name := location_name loc, lc_x := lc_x loc, lc_y := lc_y loc,
                 lc_z := lc_z loc\<rparr>) w1;
          w3 = put_affordance camp \<lparr>aff_type = a, occupied_by = None, is_temporary = True\<rparr> w2
      in (camp, update_position camp (lc_x loc) (lc_z loc) w3))"

definition in_wilderness :: "LocationComp \<Rightarrow> bool" where
  "in_wilderness loc \<longleftrightarrow> location_name loc = ''Wilderness'' \<or> location_name loc = lit_wasteland"

definition ActionFindFurniture_Tick :: "env \<Rightarrow> entity \<Rightarrow> world \<Rightarrow> bt_tick" where
  "ActionFindFurniture_Tick env e w = do {
     n \<leftarrow> needs (reg w) e;
     j \<leftarrow> job (reg w) e;
     loc \<leftarrow> location (reg w) e;
     ident \<leftarrow> identity (reg w) e;
     t \<leftarrow> toil (reg w) e;
     tick \<leftarrow> current_tick w;
     if target_location j \<noteq> '''' \<and> (\<not> feq (target_x j) (Fin 0) \<or> \<not> feq (target_z j) (Fin 0))
     then Some (StSuccess, w)
     else (let (target_furn, min_dist) = nearest_furniture env (reg w) (current_survival_type n) loc
       in case (if flt min_dist (flit 50) then target_furn else None) of
         Some f \<Rightarrow> do {
           furn_loc \<leftarrow> location (reg w) f;
           let w1 = put_job e (j\<lparr>target_location := location_name furn_loc,
                 target_x := lc_x furn_loc, target_y := lc_y furn_loc, target_z := lc_z furn_loc\<rparr>) w;
           Some (StSuccess, put_toil e (t\<lparr>toil_state := TsIdle\<rparr>) w1)
         }
       | None \<Rightarrow>
           let w0 = (if in_wilderness loc
                     then snd (if current_survival_type n = SvHunger
                               then spawn_camp lit_temp_campfire AfEat loc w
                               else spawn_camp lit_temp_camp AfSleep loc w)
                     else w);
               w1 = put_job e (j\<lparr>target_location := location_name loc, target_x := lc_x loc,
                      target_y := lc_y loc, target_z := lc_z loc\<rparr>) w0
           in Some (StSuccess, put_toil e (t\<lparr>toil_state := TsIdle\<rparr>) w1))
   }"

definition ActionMoveToTarget_Tick :: "entity \<Rightarrow> world \<Rightarrow> bt_tick" where
  "ActionMoveToTarget_Tick e w = do {
     loc \<leftarrow> location (reg w) e;
     j \<leftarrow> job (reg w) e;
     t \<leftarrow> toil (reg w) e;
     act \<leftarrow> activity (reg w) e;
     if location_name loc = target_location j then Some (StSuccess, w)
     else if flt (dist2 (fsub (target_x j) (lc_x loc)) (fsub (target_z j) (lc_z loc))) (flit 0.8)
     then Some (StSuccess, w)
     else if toil_state t \<noteq> TsMoving then
       Some (StRunning, clear_path e (put_activity e (lit_moving_to @ target_location j)
               (put_toil e (t\<lparr>toil_state := TsMoving\<rparr>) w)))
     else (case pathfinding (reg w) e of
         Some p \<Rightarrow> if toil_state t = TsIdle \<and> waypoints p = [] then Some (StFailure, w)
                   else Some (StRunning, w)
       | None \<Rightarrow> Some (StRunning, w))
   }"

text \<open>\<open>ActionInteractFurniture\<close>: the first free piece of the zone that serves the need.\<close>

definition claimable ::
  "registry \<Rightarrow> SurvivalType \<Rightarrow> LocationComp \<Rightarrow> entity \<Rightarrow> bool" where
  "claimable r s loc f \<longleftrightarrow> has (identity r) f \<and>
     (case (affordance r f, location r f) of
        (Some aff, Some furn_loc) \<Rightarrow>
          zone_id furn_loc = zone_id loc \<and> occupied_by aff = None \<and> furniture_serves s (aff_type aff)
      | _ \<Rightarrow> False)"

text \<open>First frame, a piece was found or spawned: occupy it and sit down at its place.\<close>

definition occupy_furniture :: "entity \<Rightarrow> entity \<Rightarrow> world \<Rightarrow> bt_tick" where
  "occupy_furniture e f w = do {
     target_aff \<leftarrow> affordance (reg w) f;
     let w1 = put_affordance f (target_aff\<lparr>occupied_by := Some e\<rparr>) w;
     n \<leftarrow> needs (reg w1) e;
     let is_eating = (current_survival_type n = SvHunger);
     let w2 = put_needs e (n\<lparr>occupied_furniture := Some f\<rparr>) w1;
     furn_loc \<leftarrow> location (reg w2) f;
     loc \<leftarrow> location (reg w2) e;
     let w3 = put_location e (loc\<lparr>lc_x := lc_x furn_loc, lc_y := lc_y furn_loc, lc_z := lc_z furn_loc\<rparr>) w2;
     t \<leftarrow> toil (reg w3) e;
     furn_id \<leftarrow> identity (reg w3) f;
     let w4 = put_toil e (t\<lparr>toil_state := TsWorking, duration_ticks := 9999,
                current_action := (if is_eating then ''Eating'' else ''Sleeping'')\<rparr>) w3;
     Some (StRunning, put_activity e
       (if is_eating
        then (if is_temporary target_aff then lit_camp_eating else lit_table_eating)
        else (if is_temporary target_aff then lit_camp_sleeping else lit_bed_sleeping)) w4)
   }"

definition use_floor :: "entity \<Rightarrow> world \<Rightarrow> bt_tick" where
  "use_floor e w = do {
     n \<leftarrow> needs (reg w) e;
     let is_eating = (current_survival_type n = SvHunger);
     t \<leftarrow> toil (reg w) e;
     let w1 = put_toil e (t\<lparr>toil_state := TsWorking, duration_ticks := 9999,
                current_action := (if is_eating then ''Eating_On_Floor'' else ''Sleeping_On_Floor'')\<rparr>) w;
     Some (StRunning, put_activity e (if is_eating then lit_floor_eating else lit_floor_sleeping) w1)
   }"

definition claim_furniture :: "env \<Rightarrow> entity \<Rightarrow> world \<Rightarrow> bt_tick" where
  "claim_furniture env e w = do {
     n \<leftarrow> needs (reg w) e;
     loc \<leftarrow> location (reg w) e;
     case find (claimable (reg w) (current_survival_type n) loc) (order env (reg w)) of
       Some f \<Rightarrow> occupy_furniture e f w
     | None \<Rightarrow>
         if in_wilderness loc then
           (let (camp, w1) = (if current_survival_type n = SvHunger
                              then spawn_camp lit_temp_campfire AfEat loc w
                              else spawn_camp lit_temp_camp AfSleep loc w)
            in occupy_furniture e camp w1)
         else use_floor e w
   }"

text \<open>The recovery of one tick.\<close>

definition recovery :: "SurvivalType \<Rightarrow> AffordanceComp option \<Rightarrow> fl" where
  "recovery s a = (case a of
       Some aff \<Rightarrow> (case s of
           SvHunger \<Rightarrow> if is_temporary aff then flit 0.25 else flit 0.5
         | SvFatigue \<Rightarrow> if is_temporary aff then flit 0.0625
                       else if aff_type aff = AfSit then flit 0.083 else flit 0.125
         | SvNone \<Rightarrow> Fin 0)
     | None \<Rightarrow> (case s of SvHunger \<Rightarrow> flit 0.125 | SvFatigue \<Rightarrow> flit 0.025 | SvNone \<Rightarrow> Fin 0))"

definition recharge :: "fl \<Rightarrow> NeedsComp \<Rightarrow> NeedsComp" where
  "recharge rec n = (case current_survival_type n of
       SvHunger \<Rightarrow> let h = fadd (hunger n) rec
                   in n\<lparr>hunger := (if flt (flit 100) h then flit 100 else h)\<rparr>
     | SvFatigue \<Rightarrow> let h = fadd (fatigue n) rec
                    in n\<lparr>fatigue := (if flt (flit 100) h then flit 100 else h)\<rparr>
     | SvNone \<Rightarrow> n)"

definition need_resolved :: "NeedsComp \<Rightarrow> bool" where
  "need_resolved n \<longleftrightarrow>
     current_survival_type n = SvHunger \<and> fle (flit 95) (hunger n) \<or>
     current_survival_type n = SvFatigue \<and> fle (flit 95) (fatigue n)"

text \<open>Give the piece back; a temporary one is taken out of the grid and destroyed.\<close>

definition release_furniture :: "entity \<Rightarrow> world \<Rightarrow> world option" where
  "release_furniture f w = do {
     aff \<leftarrow> affordance (reg w) f;
     let w1 = put_affordance f (aff\<lparr>occupied_by := None\<rparr>) w;
     Some (if is_temporary aff
           then destroy_entity f (w1\<lparr>grid_reg := RemoveEntity f (grid_reg w1)\<rparr>)
           else w1)
   }"

definition finish_recovery :: "entity \<Rightarrow> world \<Rightarrow> bt_tick" where
  "finish_recovery e w = do {
     n \<leftarrow> needs (reg w) e;
     w1 \<leftarrow> (case occupied_furniture n of None \<Rightarrow> Some w | Some f \<Rightarrow> release_furniture f w);
     n1 \<leftarrow> needs (reg w1) e;
     let w2 = put_needs e (n1\<lparr>occupied_furniture := None, is_resolving_survival := False,
                current_survival_type := SvNone\<rparr>) w1;
     ident \<leftarrow> identity (reg w2) e;
     j \<leftarrow> job (reg w2) e;
     t \<leftarrow> toil (reg w2) e;
     tick \<leftarrow> current_tick w2;
     let w3 = call_rpc (ReportJobStatus (npc_id ident) (job_id j) 0 UNKNOWN_REASON
                ''survival_resolved'' tick) KNone w2;
     let w4 = put_job e (j\<lparr>is_active := False\<rparr>) w3;
     let w5 = put_toil e (t\<lparr>toil_state := TsIdle, duration_ticks := 0, current_action := ''''\<rparr>) w4;
     Some (StSuccess, put_activity e lit_waiting w5)
   }"

definition ActionInteractFurniture_Tick :: "env \<Rightarrow> entity \<Rightarrow> world \<Rightarrow> bt_tick" where
  "ActionInteractFurniture_Tick env e w = do {
     n \<leftarrow> needs (reg w) e;
     loc \<leftarrow> location (reg w) e;
     t \<leftarrow> toil (reg w) e;
     j \<leftarrow> job (reg w) e;
     ident \<leftarrow> identity (reg w) e;
     act \<leftarrow> activity (reg w) e;
     tick \<leftarrow> current_tick w;
     if occupied_furniture n = None \<and> current_action t \<noteq> ''Eating_On_Floor''
        \<and> current_action t \<noteq> ''Sleeping_On_Floor''
     then claim_furniture env e w
     else do {
       rec \<leftarrow> (case occupied_furniture n of
                 None \<Rightarrow> Some (recovery (current_survival_type n) None)
               | Some f \<Rightarrow> do {
                   aff \<leftarrow> affordance (reg w) f;
                   Some (recovery (current_survival_type n) (Some aff))
                 });
       let n1 = recharge rec n;
       let w1 = put_needs e n1 w;
       if need_resolved n1 then finish_recovery e w1 else Some (StRunning, w1)
     }
   }"

section \<open>Combat\<close>

definition ConditionHasCombatTarget_Tick :: "entity \<Rightarrow> world \<Rightarrow> bt_tick" where
  "ConditionHasCombatTarget_Tick e w =
     (case combat (reg w) e of
        None \<Rightarrow> Some (StFailure, w)
      | Some c \<Rightarrow>
          (case target_entity c of
             None \<Rightarrow> Some (StFailure, w)
           | Some tgt \<Rightarrow>
               if \<not> valid (reg w) tgt then Some (StFailure, w)
               else (case health (reg w) tgt of
                   Some h \<Rightarrow> if is_dead h
                     then Some (StFailure, put_combat e (c\<lparr>target_entity := None\<rparr>) w)
                     else Some (StSuccess, w)
                 | None \<Rightarrow> Some (StSuccess, w))))"

definition ConditionIsLowHealth_Tick :: "entity \<Rightarrow> world \<Rightarrow> bt_tick" where
  "ConditionIsLowHealth_Tick e w =
     (case health (reg w) e of
        None \<Rightarrow> Some (StFailure, w)
      | Some h \<Rightarrow> Some (if flt (hp h) (flit 30) then StSuccess else StFailure, w))"

text \<open>\<open>(rand() % 200 - 100) / 100.0f\<close>.\<close>

definition rand_unit :: "nat \<Rightarrow> fl" where
  "rand_unit r = fdiv (of_i32 (int (r mod 200) - 100)) (flit 100)"

definition clamp_map :: "fl \<Rightarrow> fl" where
  "clamp_map v = fclamp v (flit 5) (flit 1995)"

text \<open>Away from the target, or a random direction when the two stand on the same spot.\<close>

definition flee_direction :: "fl \<Rightarrow> fl \<Rightarrow> world \<Rightarrow> (fl \<times> fl) \<times> world" where
  "flee_direction dx dz w =
     (let dist = dist2 dx dz
      in if flt (flit 0.01) dist then ((fdiv dx dist, fdiv dz dist), w)
         else (let (r1, w1) = draw_rand w; (r2, w2) = draw_rand w1;
                   ux = rand_unit r1; uz = rand_unit r2; r_dist = dist2 ux uz
               in if flt (Fin 0) r_dist then ((fdiv ux r_dist, fdiv uz r_dist), w2)
                  else ((ux, uz), w2)))"

definition rotated :: "env \<Rightarrow> fl \<Rightarrow> fl \<Rightarrow> fl \<Rightarrow> fl \<times> fl" where
  "rotated env dx dz angle =
     (fsub (fmul dx (cos_f env angle)) (fmul dz (sin_f env angle)),
      fadd (fmul dx (sin_f env angle)) (fmul dz (cos_f env angle)))"

definition flee_point :: "LocationComp \<Rightarrow> fl \<times> fl \<Rightarrow> fl \<times> fl" where
  "flee_point loc d = (clamp_map (fadd (lc_x loc) (fmul (fst d) (flit 15))),
                       clamp_map (fadd (lc_z loc) (fmul (snd d) (flit 15))))"

definition walkable_at :: "env \<Rightarrow> fl \<times> fl \<Rightarrow> bool" where
  "walkable_at env p = IsWalkable (walk_map env) (f2i (fst p)) (f2i (snd p))"

text \<open>Straight away, else the first walkable of the four rotations, else stay.\<close>

definition flee_destination :: "env \<Rightarrow> LocationComp \<Rightarrow> fl \<times> fl \<Rightarrow> fl \<times> fl" where
  "flee_destination env loc d =
     (let dest = flee_point loc d
      in if walkable_at env dest then dest
         else (case find (walkable_at env)
                 (List.map (\<lambda>a. flee_point loc (rotated env (fst d) (snd d) a))
                   [flit 0.785, flit (-0.785), flit 1.57, flit (-1.57)]) of
             Some p \<Rightarrow> p
           | None \<Rightarrow> (clamp_map (lc_x loc), clamp_map (lc_z loc))))"

text \<open>\<open>std::sqrt(std::pow(a, 2) + std::pow(b, 2))\<close> is computed in double.\<close>

definition dist2_double :: "fl \<Rightarrow> fl \<Rightarrow> fl" where
  "dist2_double a b = to_f32 (fl_sqrt F64 (fl_add F64 (fl_mul F64 a a) (fl_mul F64 b b)))"

definition flee_recalculate :: "env \<Rightarrow> entity \<Rightarrow> LocationComp \<Rightarrow> JobComp \<Rightarrow> ToilComp \<Rightarrow> world \<Rightarrow> bool" where
  "flee_recalculate env e loc j t w =
     (if toil_state t \<noteq> TsMoving then True
      else (case pathfinding (reg w) e of
          None \<Rightarrow> True
        | Some p \<Rightarrow>
            waypoints p = [] \<or>
            flt (dist2_double (fsub (lc_x loc) (target_x j)) (fsub (lc_z loc) (target_z j))) (flit 2) \<or>
            (case current_tick w of None \<Rightarrow> False
             | Some tick \<Rightarrow> (tick + entity_int env e) mod 20 = 0)))"

definition ActionFlee_Tick :: "env \<Rightarrow> entity \<Rightarrow> world \<Rightarrow> bt_tick" where
  "ActionFlee_Tick env e w = do {
     loc \<leftarrow> location (reg w) e;
     c \<leftarrow> combat (reg w) e;
     j \<leftarrow> job (reg w) e;
     t \<leftarrow> toil (reg w) e;
     act \<leftarrow> activity (reg w) e;
     tick \<leftarrow> current_tick w;
     ident \<leftarrow> identity (reg w) e;
     case target_entity c of
       None \<Rightarrow> Some (StFailure, w)
     | Some tgt \<Rightarrow>
         if \<not> valid (reg w) tgt then Some (StFailure, w)
         else do {
           target_loc \<leftarrow> location (reg w) tgt;
           if flee_recalculate env e loc j t w
           then (let (d, w1) = flee_direction (fsub (lc_x loc) (lc_x target_loc))
                                 (fsub (lc_z loc) (lc_z target_loc)) w;
                     dest = flee_destination env loc d;
                     w2 = put_job e (j\<lparr>target_x := fst dest, target_z := snd dest,
                            target_location := ''Wilderness''\<rparr>) w1;
                     w3 = put_toil e (t\<lparr>toil_state := TsMoving\<rparr>) (clear_path e w2)
                 in Some (StRunning, put_activity e lit_fleeing w3))
           else Some (StRunning, w)
         }
   }"

text \<open>Out of range: follow the target when it moved away from the last destination.\<close>

definition melee_chase ::
  "entity \<Rightarrow> JobComp \<Rightarrow> ToilComp \<Rightarrow> LocationComp \<Rightarrow> IdentityComp \<Rightarrow> world \<Rightarrow> world" where
  "melee_chase e j t target_loc target_ident w =
     (if flt (flit 1.5) (fabs (fsub (target_x j) (lc_x target_loc))) \<or>
         flt (flit 1.5) (fabs (fsub (target_z j) (lc_z target_loc)))
      then (let w1 = put_job e (j\<lparr>target_x := lc_x target_loc, target_z := lc_z target_loc,
                  target_location := (if location_name target_loc = '''' then ''Wilderness''
                    else location_name target_loc)\<rparr>) w;
                w2 = put_toil e (t\<lparr>toil_state := TsMoving\<rparr>) (clear_path e w1)
            in put_activity e (lit_chasing @ display_name target_ident) w2)
      else w)"

text \<open>In range: stop walking.\<close>

definition melee_stop :: "entity \<Rightarrow> ToilComp \<Rightarrow> world \<Rightarrow> world" where
  "melee_stop e t w =
     (if toil_state t = TsMoving
      then (let w1 = put_toil e (t\<lparr>toil_state := TsWorking\<rparr>) w
            in case velocity (reg w1) e of None \<Rightarrow> w1
               | Some v \<Rightarrow> put_velocity e (v\<lparr>dir_x := Fin 0, dir_z := Fin 0, vel_speed := Fin 0\<rparr>) w1)
      else w)"

text \<open>The blow: damage, cooldown, report, interruption of the victim.\<close>

definition melee_hit ::
  "entity \<Rightarrow> CombatComp \<Rightarrow> IdentityComp \<Rightarrow> entity \<Rightarrow> HealthComp \<Rightarrow> IdentityComp \<Rightarrow> world \<Rightarrow> world" where
  "melee_hit e c ident tgt h target_ident w =
     (let w2 = put_combat e (c\<lparr>cooldown_ticks := 20\<rparr>) (put_health tgt h w);
          w3 = put_activity e (lit_attacking @ display_name target_ident) w2;
          w4 = call_rpc (ReportCombatEvent (npc_id ident) (npc_id target_ident)
                 (attack_damage c) ''MeleeWeapon'') KNone w3
      in erase_busy tgt w4)"

text \<open>A victim without a target turns against the attacker.\<close>

definition melee_retaliate :: "entity \<Rightarrow> entity \<Rightarrow> world \<Rightarrow> world" where
  "melee_retaliate e tgt w = (case combat (reg w) tgt of
       Some tc \<Rightarrow> if target_entity tc = None
         then put_combat tgt (tc\<lparr>target_entity := Some e\<rparr>) w else w
     | None \<Rightarrow> w)"

text \<open>The whole blow, with the victim's death.\<close>

definition melee_strike ::
  "entity \<Rightarrow> CombatComp \<Rightarrow> IdentityComp \<Rightarrow> entity \<Rightarrow> HealthComp \<Rightarrow> IdentityComp \<Rightarrow> world \<Rightarrow> bt_tick" where
  "melee_strike e c ident tgt target_health target_ident w = do {
     let h = target_health\<lparr>hp := fsub (hp target_health) (attack_damage c)\<rparr>;
     let w6 = melee_retaliate e tgt (melee_hit e c ident tgt h target_ident w);
     if fle (hp h) (Fin 0) then do {
       c1 \<leftarrow> combat (reg w6) e;
       Some (StSuccess, put_combat e (c1\<lparr>target_entity := None\<rparr>)
         (put_health tgt (h\<lparr>hp := Fin 0, is_dead := True\<rparr>) w6))
     }
     else Some (StSuccess, w6)
   }"

definition ActionMeleeAttack_Tick :: "entity \<Rightarrow> world \<Rightarrow> bt_tick" where
  "ActionMeleeAttack_Tick e w = do {
     loc \<leftarrow> location (reg w) e;
     c \<leftarrow> combat (reg w) e;
     j \<leftarrow> job (reg w) e;
     t \<leftarrow> toil (reg w) e;
     act \<leftarrow> activity (reg w) e;
     ident \<leftarrow> identity (reg w) e;
     tick \<leftarrow> current_tick w;
     case target_entity c of
       None \<Rightarrow> Some (StFailure, w)
     | Some tgt \<Rightarrow>
         if \<not> valid (reg w) tgt then Some (StFailure, w)
         else do {
           target_loc \<leftarrow> location (reg w) tgt;
           target_health \<leftarrow> health (reg w) tgt;
           target_ident \<leftarrow> identity (reg w) tgt;
           let dist = dist2 (fsub (lc_x target_loc) (lc_x loc)) (fsub (lc_z target_loc) (lc_z loc));
           if flt (attack_range c) dist
           then Some (StRunning, melee_chase e j t target_loc target_ident w)
           else (let w1 = melee_stop e t w
                 in if cooldown_ticks c > 0
                    then Some (StRunning, put_activity e (lit_facing @ display_name target_ident)
                           (put_combat e (c\<lparr>cooldown_ticks := cooldown_ticks c - 1\<rparr>) w1))
                    else melee_strike e c ident tgt target_health target_ident w1)
         }
   }"

definition ConditionIsAggroHigh_Tick :: "entity \<Rightarrow> world \<Rightarrow> bt_tick" where
  "ConditionIsAggroHigh_Tick e w =
     (let fighting = (case combat (reg w) e of None \<Rightarrow> False
          | Some c \<Rightarrow> valid_ref (reg w) (target_entity c))
      in if fighting then Some (StFailure, w)
         else (case aggro (reg w) e of
             None \<Rightarrow> Some (StFailure, w)
           | Some a \<Rightarrow> Some (if aggro_score a \<ge> 100 \<and> valid_ref (reg w) (threat_entity a)
                            then StSuccess else StFailure, w)))"

definition ActionInhibitOrAttack_Tick :: "entity \<Rightarrow> world \<Rightarrow> bt_tick" where
  "ActionInhibitOrAttack_Tick e w =
     (case aggro (reg w) e of
        None \<Rightarrow> Some (StFailure, w)
      | Some a \<Rightarrow> do {
          ident \<leftarrow> identity (reg w) e;
          t \<leftarrow> toil (reg w) e;
          act \<leftarrow> activity (reg w) e;
          tick \<leftarrow> current_tick w;
          case (if valid_ref (reg w) (threat_entity a) then threat_entity a else None) of
            None \<Rightarrow> Some (StFailure, put_aggro e (a\<lparr>aggro_score := 0, is_inhibited := False\<rparr>) w)
          | Some threat \<Rightarrow> do {
              threat_identity \<leftarrow> identity (reg w) threat;
              if get_or True (sentience (reg w)) e = False then
                (let w1 = put_combat e ((get_or CombatComp_default (combat (reg w)) e)
                            \<lparr>target_entity := Some threat\<rparr>) w;
                     w2 = put_aggro e (a\<lparr>aggro_score := 0\<rparr>) w1
                 in Some (StSuccess, put_toil e (t\<lparr>toil_state := TsIdle, duration_ticks := 0\<rparr>) w2))
              else
                (let (a1, w1) = (if is_inhibited a then (a, w)
                       else (let a0 = a\<lparr>is_inhibited := True, inhibit_wait_ticks := 0\<rparr>
                             in (a0, call_rpc (ThreatDetected (npc_id ident) (npc_id threat_identity)
                                       (aggro_score a0)) (KThreat e (npc_id threat_identity)) w)));
                     a2 = a1\<lparr>inhibit_wait_ticks := inhibit_wait_ticks a1 + 1\<rparr>
                 in if inhibit_wait_ticks a2 > 100
                    then Some (StFailure, put_aggro e (a2\<lparr>aggro_score := 0, is_inhibited := False\<rparr>) w1)
                    else Some (StRunning, put_activity e (display_name threat_identity @ lit_standoff)
                           (put_toil e (t\<lparr>toil_state := TsInterrupted\<rparr>) (put_aggro e a2 w1))))
            }
        })"

section \<open>Wandering\<close>

definition ConditionCanWander_Tick :: "entity \<Rightarrow> world \<Rightarrow> bt_tick" where
  "ConditionCanWander_Tick e w =
     Some (if (case job (reg w) e of None \<Rightarrow> False | Some j \<Rightarrow> is_active j) then StFailure
       else if (case needs (reg w) e of None \<Rightarrow> False | Some n \<Rightarrow> is_resolving_survival n) then StFailure
       else if (case combat (reg w) e of None \<Rightarrow> False
                | Some c \<Rightarrow> valid_ref (reg w) (target_entity c)) then StFailure
       else if has (busy (reg w)) e then StFailure
       else StSuccess, w)"

text \<open>The search for a wander target, at most \<open>k\<close> more tries.\<close>

fun wander_target :: "env \<Rightarrow> LocationComp \<Rightarrow> nat \<Rightarrow> world \<Rightarrow> (fl \<times> fl) option \<times> world" where
  "wander_target env loc 0 w = (None, w)"
| "wander_target env loc (Suc k) w =
     (let (r1, w1) = draw_rand w; (r2, w2) = draw_rand w1;
          tx = clamp_map (fadd (lc_x loc) (fmul (rand_unit r1) (flit 15)));
          tz = clamp_map (fadd (lc_z loc) (fmul (rand_unit r2) (flit 15)))
      in if walkable_at env (tx, tz) \<and> GetLocationNameAt (grid_reg w2) tx tz = location_name loc
         then (Some (tx, tz), w2)
         else wander_target env loc k w2)"

definition ActionWander_Tick :: "env \<Rightarrow> entity \<Rightarrow> world \<Rightarrow> bt_tick" where
  "ActionWander_Tick env e w = do {
     loc \<leftarrow> location (reg w) e;
     j \<leftarrow> job (reg w) e;
     t \<leftarrow> toil (reg w) e;
     act \<leftarrow> activity (reg w) e;
     tick \<leftarrow> current_tick w;
     ident \<leftarrow> identity (reg w) e;
     if toil_state t = TsMoving then Some (StRunning, w)
     else if toil_state t = TsWorking \<and> intent j = lit_wandering then
       (if duration_ticks t > 0
        then Some (StRunning, put_toil e (t\<lparr>duration_ticks := duration_ticks t - 1\<rparr>) w)
        else (let w1 = put_job e (j\<lparr>intent := ''''\<rparr>) w;
                  w2 = put_toil e (t\<lparr>toil_state := TsIdle, current_action := ''''\<rparr>) w1
              in Some (StSuccess, put_activity e lit_waiting w2)))
     else if toil_state t = TsIdle then
       (let (r, w1) = draw_rand w
        in if r mod 40 \<noteq> 0
           then Some (StRunning, put_activity e lit_waiting (put_toil e (t\<lparr>toil_state := TsIdle\<rparr>) w1))
           else (case wander_target env loc 10 w1 of
               (None, w2) \<Rightarrow> Some (StFailure, w2)
             | (Some (tx, tz), w2) \<Rightarrow>
                 let w3 = put_job e (j\<lparr>target_x := tx, target_z := tz,
                            target_location := location_name loc, intent := lit_wandering,
                            priority := 0, is_active := False\<rparr>) w2;
                     w4 = put_toil e (t\<lparr>toil_state := TsMoving, current_action := lit_wandering\<rparr>)
                            (clear_path e w3)
                 in Some (StRunning, put_activity e lit_wandering_around w4)))
     else Some (StFailure, w)
   }"

section \<open>Ticking a tree\<close>

definition leaf_tick :: "env \<Rightarrow> bt_leaf \<Rightarrow> entity \<Rightarrow> world \<Rightarrow> bt_tick" where
  "leaf_tick env l e w = (case l of
       ConditionIsHungry \<Rightarrow> ConditionIsHungry_Tick e w
     | ConditionIsFatigued \<Rightarrow> ConditionIsFatigued_Tick e w
     | ConditionIsScheduledEat \<Rightarrow> ConditionIsScheduledEat_Tick e w
     | ConditionIsScheduledSleep \<Rightarrow> ConditionIsScheduledSleep_Tick e w
     | ActionFindFurniture \<Rightarrow> ActionFindFurniture_Tick env e w
     | ActionMoveToTarget \<Rightarrow> ActionMoveToTarget_Tick e w
     | ActionInteractFurniture \<Rightarrow> ActionInteractFurniture_Tick env e w
     | ConditionHasCombatTarget \<Rightarrow> ConditionHasCombatTarget_Tick e w
     | ConditionIsLowHealth \<Rightarrow> ConditionIsLowHealth_Tick e w
     | ActionFlee \<Rightarrow> ActionFlee_Tick env e w
     | ConditionCanWander \<Rightarrow> ConditionCanWander_Tick e w
     | ActionWander \<Rightarrow> ActionWander_Tick env e w
     | ActionMeleeAttack \<Rightarrow> ActionMeleeAttack_Tick e w
     | ConditionIsAggroHigh \<Rightarrow> ConditionIsAggroHigh_Tick e w
     | ActionInhibitOrAttack \<Rightarrow> ActionInhibitOrAttack_Tick e w)"

text \<open>The composites: \<open>Selector\<close> stops at the first child that does not fail, \<open>Sequence\<close> at the
  first that does not succeed. The tick of a leaf is an argument.\<close>

fun bt_run :: "(bt_leaf \<Rightarrow> 'w \<Rightarrow> (NodeStatus \<times> 'w) option) \<Rightarrow> BTNode \<Rightarrow> 'w \<Rightarrow> (NodeStatus \<times> 'w) option"
  and selector_run :: "(bt_leaf \<Rightarrow> 'w \<Rightarrow> (NodeStatus \<times> 'w) option) \<Rightarrow> BTNode list \<Rightarrow> 'w \<Rightarrow> (NodeStatus \<times> 'w) option"
  and sequence_run :: "(bt_leaf \<Rightarrow> 'w \<Rightarrow> (NodeStatus \<times> 'w) option) \<Rightarrow> BTNode list \<Rightarrow> 'w \<Rightarrow> (NodeStatus \<times> 'w) option"
where
  "bt_run f (Leaf l) w = f l w"
| "bt_run f (Selector cs) w = selector_run f cs w"
| "bt_run f (Sequence cs) w = sequence_run f cs w"
| "bt_run f (Inverter c) w = (case bt_run f c w of
       None \<Rightarrow> None
     | Some (StSuccess, w') \<Rightarrow> Some (StFailure, w')
     | Some (StFailure, w') \<Rightarrow> Some (StSuccess, w')
     | Some (StRunning, w') \<Rightarrow> Some (StRunning, w'))"
| "selector_run f [] w = Some (StFailure, w)"
| "selector_run f (c # cs) w = (case bt_run f c w of
       None \<Rightarrow> None
     | Some (st, w') \<Rightarrow> if st \<noteq> StFailure then Some (st, w') else selector_run f cs w')"
| "sequence_run f [] w = Some (StSuccess, w)"
| "sequence_run f (c # cs) w = (case bt_run f c w of
       None \<Rightarrow> None
     | Some (st, w') \<Rightarrow> if st \<noteq> StSuccess then Some (st, w') else sequence_run f cs w')"

definition CreateSurvivalTree :: BTNode where
  "CreateSurvivalTree = Selector
     [Sequence [Leaf ConditionHasCombatTarget, Leaf ConditionIsLowHealth, Leaf ActionFlee],
      Sequence [Leaf ConditionIsAggroHigh, Leaf ActionInhibitOrAttack],
      Sequence [Leaf ConditionHasCombatTarget, Leaf ActionMeleeAttack],
      Sequence [Leaf ConditionIsHungry, Leaf ActionFindFurniture, Leaf ActionMoveToTarget,
        Leaf ActionInteractFurniture],
      Sequence [Leaf ConditionIsFatigued, Leaf ActionFindFurniture, Leaf ActionMoveToTarget,
        Leaf ActionInteractFurniture],
      Sequence [Leaf ConditionIsScheduledEat, Leaf ActionInteractFurniture],
      Sequence [Leaf ConditionIsScheduledSleep, Leaf ActionInteractFurniture],
      Sequence [Leaf ConditionCanWander, Leaf ActionWander]]"

definition bt_tick_entity :: "env \<Rightarrow> BTNode \<Rightarrow> entity \<Rightarrow> world \<Rightarrow> bt_tick" where
  "bt_tick_entity env t e w = bt_run (\<lambda>l w. leaf_tick env l e w) t w"

definition SystemBehaviorTree :: "env \<Rightarrow> world \<Rightarrow> world option" where
  "SystemBehaviorTree env w =
     view_each env (\<lambda>r e. has (behavior_tree r) e)
       (\<lambda>e w. case behavior_tree (reg w) e of
          Some (Some t) \<Rightarrow>
            if has (busy (reg w)) e then Some w else map_option snd (bt_tick_entity env t e w)
        | _ \<Rightarrow> Some w) w"

end
