(* ===== verification/BehaviorInv.thy ===== *)
theory BehaviorInv
  imports BehaviorNodes
begin

text \<open>
  The behaviour trees run without undefined behaviour: an invariant of the registry under
  which every node of \<open>CreateSurvivalTree\<close> finds the components it reads, and that every
  node re-establishes. It includes that the furniture an agent occupies and the occupant a
  piece of furniture records are inverse to each other.
\<close>

section \<open>Invariant\<close>

definition agent :: "registry \<Rightarrow> entity \<Rightarrow> bool" where
  "agent r e \<longleftrightarrow> has (identity r) e \<and> has (location r) e \<and> has (activity r) e \<and>
     has (job r) e \<and> has (toil r) e \<and> has (needs r) e \<and> has (health r) e"

text \<open>What \<open>ActionFlee\<close> and \<open>ActionMeleeAttack\<close> read of a target.\<close>

definition fighter :: "registry \<Rightarrow> entity \<Rightarrow> bool" where
  "fighter r t \<longleftrightarrow> has (identity r) t \<and> has (location r) t \<and> has (health r) t"

definition ref_ok :: "registry \<Rightarrow> entity option \<Rightarrow> bool" where
  "ref_ok r t \<longleftrightarrow> (case t of None \<Rightarrow> True
     | Some e \<Rightarrow> e < next_entity r \<and> (valid r e \<longrightarrow> fighter r e))"

definition occupied :: "registry \<Rightarrow> entity \<Rightarrow> entity option" where
  "occupied r e = (case needs r e of None \<Rightarrow> None | Some n \<Rightarrow> occupied_furniture n)"

definition occupant :: "registry \<Rightarrow> entity \<Rightarrow> entity option" where
  "occupant r f = (case affordance r f of None \<Rightarrow> None | Some a \<Rightarrow> occupied_by a)"

definition occupancy_ok :: "registry \<Rightarrow> bool" where
  "occupancy_ok r \<longleftrightarrow> (\<forall>e f. occupied r e = Some f \<longleftrightarrow> occupant r f = Some e)"

definition fresh_ok :: "registry \<Rightarrow> bool" where
  "fresh_ok r \<longleftrightarrow> (\<forall>e\<ge>next_entity r. e \<notin> set (live r) \<and> behavior_tree r e = None \<and>
     needs r e = None \<and> affordance r e = None)"

text \<open>A piece of furniture is not an agent.\<close>

definition furniture_ok :: "registry \<Rightarrow> bool" where
  "furniture_ok r \<longleftrightarrow> (\<forall>f. affordance r f \<noteq> None \<longrightarrow> needs r f = None)"

text \<open>Who has a job has an activity.\<close>

definition workers_ok :: "registry \<Rightarrow> bool" where
  "workers_ok r \<longleftrightarrow> dom (job r) \<subseteq> dom (activity r)"

definition bt_inv :: "registry \<Rightarrow> bool" where
  "bt_inv r \<longleftrightarrow>
     (\<forall>e t. behavior_tree r e = Some (Some t) \<longrightarrow> t = CreateSurvivalTree \<and> agent r e) \<and>
     (\<forall>e c. combat r e = Some c \<longrightarrow> ref_ok r (target_entity c)) \<and>
     (\<forall>e a. aggro r e = Some a \<longrightarrow> ref_ok r (threat_entity a)) \<and>
     occupancy_ok r \<and> furniture_ok r \<and> fresh_ok r \<and> workers_ok r \<and> bt_context_tick r \<noteq> None"

text \<open>A step that changes only component values, keeps every component and all references.\<close>

definition quiet :: "registry \<Rightarrow> registry \<Rightarrow> bool" where
  "quiet r r' \<longleftrightarrow>
     live r' = live r \<and> next_entity r' = next_entity r \<and> bt_context_tick r' = bt_context_tick r \<and>
     behavior_tree r' = behavior_tree r \<and> combat r' = combat r \<and> aggro r' = aggro r \<and>
     affordance r' = affordance r \<and> dom (needs r') = dom (needs r) \<and>
     (\<forall>e. occupied r' e = occupied r e) \<and>
     dom (identity r) \<subseteq> dom (identity r') \<and> dom (location r) \<subseteq> dom (location r') \<and>
     dom (activity r) \<subseteq> dom (activity r') \<and> dom (job r) \<subseteq> dom (job r') \<and>
     dom (toil r) \<subseteq> dom (toil r') \<and> dom (health r) \<subseteq> dom (health r') \<and>
     dom (job r') \<subseteq> dom (job r) \<union> dom (activity r')"

lemma quiet_refl [simp]: "quiet r r"
  by (simp add: quiet_def)

lemma has_dom: "has p e \<longleftrightarrow> e \<in> dom p"
  by auto

lemma quiet_agent: "quiet r r' \<Longrightarrow> agent r e \<Longrightarrow> agent r' e"
  unfolding agent_def has_dom quiet_def by blast

lemma quiet_fighter: "quiet r r' \<Longrightarrow> fighter r e \<Longrightarrow> fighter r' e"
  unfolding fighter_def has_dom quiet_def by blast

lemma quiet_ref_ok: "quiet r r' \<Longrightarrow> ref_ok r t \<Longrightarrow> ref_ok r' t"
  using quiet_fighter [of r r'] by (auto simp: ref_ok_def valid_def quiet_def split: option.splits)

lemma quiet_bt_inv:
  assumes q: "quiet r r'" and i: "bt_inv r"
  shows "bt_inv r'"
proof -
  have o: "occupied r' e = occupied r e" "occupant r' f = occupant r f" for e f
    using q by (simp_all add: quiet_def occupant_def)
  have "\<forall>e t. behavior_tree r' e = Some (Some t) \<longrightarrow> t = CreateSurvivalTree \<and> agent r' e"
    using i q quiet_agent [OF q] by (simp add: bt_inv_def quiet_def)
  moreover have "\<forall>e c. combat r' e = Some c \<longrightarrow> ref_ok r' (target_entity c)"
    using i q quiet_ref_ok [OF q] by (simp add: bt_inv_def quiet_def)
  moreover have "\<forall>e a. aggro r' e = Some a \<longrightarrow> ref_ok r' (threat_entity a)"
    using i q quiet_ref_ok [OF q] by (simp add: bt_inv_def quiet_def)
  moreover have "occupancy_ok r'" using i by (simp add: bt_inv_def occupancy_ok_def o)
  moreover have "furniture_ok r'"
    using i q by (simp add: bt_inv_def furniture_ok_def quiet_def) (metis domIff)
  moreover have "fresh_ok r'"
    using i q by (simp add: bt_inv_def fresh_ok_def quiet_def) (metis domIff)
  moreover have "workers_ok r'"
  proof -
    have "dom (job r) \<subseteq> dom (activity r)" "dom (activity r) \<subseteq> dom (activity r')"
      "dom (job r') \<subseteq> dom (job r) \<union> dom (activity r')"
      using i q by (simp_all only: bt_inv_def workers_ok_def quiet_def)
    then show ?thesis unfolding workers_ok_def by blast
  qed
  ultimately show ?thesis using i q by (simp add: bt_inv_def quiet_def)
qed

text \<open>What a node may leave behind.\<close>

definition tick_ok :: "entity \<Rightarrow> world \<Rightarrow> bt_tick \<Rightarrow> bool" where
  "tick_ok e w res \<longleftrightarrow> (\<exists>st w'. res = Some (st, w') \<and> bt_inv (reg w') \<and> agent (reg w') e \<and>
     (has (combat (reg w)) e \<longrightarrow> has (combat (reg w')) e))"

lemma quiet_tick:
  "bt_inv (reg w) \<Longrightarrow> agent (reg w) e \<Longrightarrow> quiet (reg w) (reg w') \<Longrightarrow> tick_ok e w (Some (st, w'))"
proof -
  assume a: "bt_inv (reg w)" "agent (reg w) e" "quiet (reg w) (reg w')"
  have "combat (reg w') = combat (reg w)" using a(3) by (simp add: quiet_def)
  with quiet_bt_inv [OF a(3,1)] quiet_agent [OF a(3,2)] show ?thesis by (simp add: tick_ok_def)
qed

lemma same_tick: "bt_inv (reg w) \<Longrightarrow> agent (reg w) e \<Longrightarrow> tick_ok e w (Some (st, w))"
  by (simp add: tick_ok_def)

text \<open>The components of an agent, and the tick.\<close>

lemma agentE:
  assumes "bt_inv (reg w)" "agent (reg w) e"
  obtains ident loc act j t n tick where "identity (reg w) e = Some ident"
    "location (reg w) e = Some loc" "activity (reg w) e = Some act" "job (reg w) e = Some j"
    "toil (reg w) e = Some t" "needs (reg w) e = Some n" "bt_context_tick (reg w) = Some tick"
  using assms by (auto simp: agent_def bt_inv_def)

lemmas quiet_defs = quiet_def put_defs clear_path_def call_rpc_def occupied_def draw_rand_def
  current_tick_def

section \<open>The nodes that only change values\<close>

lemma ConditionIsHungry_ok:
  assumes i: "bt_inv (reg w)" and a: "agent (reg w) e"
  shows "tick_ok e w (ConditionIsHungry_Tick e w)"
  by (rule agentE [OF i a])
    (auto simp: ConditionIsHungry_Tick_def Let_def quiet_defs intro!: quiet_tick [OF i a] split: option.splits)

lemma ConditionIsFatigued_ok:
  assumes i: "bt_inv (reg w)" and a: "agent (reg w) e"
  shows "tick_ok e w (ConditionIsFatigued_Tick e w)"
  by (rule agentE [OF i a])
    (auto simp: ConditionIsFatigued_Tick_def Let_def quiet_defs intro!: quiet_tick [OF i a] split: option.splits)

lemma ConditionIsScheduledEat_ok:
  assumes i: "bt_inv (reg w)" and a: "agent (reg w) e"
  shows "tick_ok e w (ConditionIsScheduledEat_Tick e w)"
  by (rule agentE [OF i a])
    (auto simp: ConditionIsScheduledEat_Tick_def Let_def quiet_defs intro!: quiet_tick [OF i a] split: option.splits)

lemma ConditionIsScheduledSleep_ok:
  assumes i: "bt_inv (reg w)" and a: "agent (reg w) e"
  shows "tick_ok e w (ConditionIsScheduledSleep_Tick e w)"
  by (rule agentE [OF i a])
    (auto simp: ConditionIsScheduledSleep_Tick_def Let_def quiet_defs intro!: quiet_tick [OF i a] split: option.splits)

lemma ActionMoveToTarget_ok:
  assumes i: "bt_inv (reg w)" and a: "agent (reg w) e"
  shows "tick_ok e w (ActionMoveToTarget_Tick e w)"
  by (rule agentE [OF i a])
    (auto simp: ActionMoveToTarget_Tick_def Let_def quiet_defs intro!: quiet_tick [OF i a] split: option.splits)

lemma ConditionIsLowHealth_ok:
  assumes i: "bt_inv (reg w)" and a: "agent (reg w) e"
  shows "tick_ok e w (ConditionIsLowHealth_Tick e w)"
  using same_tick [OF i a] by (simp add: ConditionIsLowHealth_Tick_def split: option.split)

lemma ConditionCanWander_ok:
  assumes i: "bt_inv (reg w)" and a: "agent (reg w) e"
  shows "tick_ok e w (ConditionCanWander_Tick e w)"
  unfolding ConditionCanWander_Tick_def by (rule same_tick [OF i a])

lemma ConditionIsAggroHigh_ok:
  assumes i: "bt_inv (reg w)" and a: "agent (reg w) e"
  shows "tick_ok e w (ConditionIsAggroHigh_Tick e w)"
  using same_tick [OF i a]
  by (simp add: ConditionIsAggroHigh_Tick_def Let_def split: option.split)

lemma reg_flee_direction: "flee_direction dx dz w = (d, w') \<Longrightarrow> reg w' = reg w"
  by (auto simp: flee_direction_def draw_rand_def Let_def split: if_splits)

lemma reg_wander_target: "wander_target env loc k w = (t, w') \<Longrightarrow> reg w' = reg w"
  by (induction env loc k w rule: wander_target.induct)
    (auto simp: draw_rand_def Let_def split: if_splits)

lemma combat_target_ok:
  "bt_inv r \<Longrightarrow> combat r e = Some c \<Longrightarrow> target_entity c = Some t \<Longrightarrow> valid r t \<Longrightarrow>
     fighter r t \<and> t < next_entity r"
  by (force simp: bt_inv_def ref_ok_def)

lemma ActionFlee_ok:
  assumes i: "bt_inv (reg w)" and a: "agent (reg w) e" and c: "has (combat (reg w)) e"
  shows "tick_ok e w (ActionFlee_Tick env e w)"
proof -
  obtain c where c: "combat (reg w) e = Some c" using c by auto
  show ?thesis
  proof (cases "\<exists>t. target_entity c = Some t \<and> valid (reg w) t")
    case False
    with c show ?thesis
      by (rule_tac agentE [OF i a])
        (auto simp: ActionFlee_Tick_def current_tick_def intro!: same_tick [OF i a] split: option.split)
  next
    case True
    then obtain t where t: "target_entity c = Some t" "valid (reg w) t" by blast
    obtain tl where tl: "location (reg w) t = Some tl"
      using combat_target_ok [OF i c t] by (auto simp: fighter_def)
    show ?thesis
    proof (rule agentE [OF i a])
      fix ident loc act j tt n tick
      assume comps: "identity (reg w) e = Some ident" "location (reg w) e = Some loc"
        "activity (reg w) e = Some act" "job (reg w) e = Some j" "toil (reg w) e = Some tt"
        "needs (reg w) e = Some n" "bt_context_tick (reg w) = Some tick"
      obtain d w1 where d: "flee_direction (fsub (lc_x loc) (lc_x tl)) (fsub (lc_z loc) (lc_z tl)) w = (d, w1)"
        by fastforce
      have r: "reg w1 = reg w" by (rule reg_flee_direction [OF d])
      show ?thesis
        by (auto simp: ActionFlee_Tick_def comps c t tl d Let_def quiet_defs r
            intro!: quiet_tick [OF i a] split: option.split)
    qed
  qed
qed

lemma ActionWander_ok:
  assumes i: "bt_inv (reg w)" and a: "agent (reg w) e"
  shows "tick_ok e w (ActionWander_Tick env e w)"
proof (rule agentE [OF i a])
  fix ident loc act j t n tick
  assume comps: "identity (reg w) e = Some ident" "location (reg w) e = Some loc"
    "activity (reg w) e = Some act" "job (reg w) e = Some j" "toil (reg w) e = Some t"
    "needs (reg w) e = Some n" "bt_context_tick (reg w) = Some tick"
  obtain tgt w2 where wt: "wander_target env loc 10 (w\<lparr>rands := \<lambda>n. rands w (Suc n)\<rparr>) = (tgt, w2)"
    by fastforce
  have r: "reg w2 = reg w" using reg_wander_target [OF wt] by simp
  show ?thesis
    by (auto simp: ActionWander_Tick_def comps Let_def quiet_defs wt r
        intro!: quiet_tick [OF i a] split: option.split prod.split)
qed

section \<open>The nodes that set targets\<close>

text \<open>A step that may also assign combat targets and threats, all of them fit to be targets.\<close>

lemma target_bt_inv:
  assumes i: "bt_inv r" and q: "quiet r (r'\<lparr>combat := combat r, aggro := aggro r\<rparr>)"
    and c: "\<And>e c. combat r' e = Some c \<Longrightarrow> ref_ok r (target_entity c)"
    and a: "\<And>e a. aggro r' e = Some a \<Longrightarrow> ref_ok r (threat_entity a)"
  shows "bt_inv r'"
proof -
  let ?r = "r'\<lparr>combat := combat r, aggro := aggro r\<rparr>"
  have b: "bt_inv ?r" by (rule quiet_bt_inv [OF q i])
  have f: "fighter ?r t = fighter r' t" "valid ?r t = valid r' t" "next_entity ?r = next_entity r'"
    "agent ?r t = agent r' t" for t
    by (simp_all add: fighter_def valid_def agent_def)
  have ro: "ref_ok r t \<Longrightarrow> ref_ok r' t" for t
    using quiet_ref_ok [OF q, of t] by (simp add: ref_ok_def f split: option.splits)
  have "occupied ?r = occupied r'" "occupant ?r = occupant r'"
    by (simp_all add: fun_eq_iff occupied_def occupant_def)
  with b c a ro show ?thesis
    by (simp add: bt_inv_def f occupancy_ok_def furniture_ok_def fresh_ok_def workers_ok_def)
qed

lemma target_tick:
  assumes i: "bt_inv (reg w)" and ag: "agent (reg w) e"
    and q: "quiet (reg w) ((reg w')\<lparr>combat := combat (reg w), aggro := aggro (reg w)\<rparr>)"
    and c: "\<And>x c. combat (reg w') x = Some c \<Longrightarrow> ref_ok (reg w) (target_entity c)"
    and a: "\<And>x a. aggro (reg w') x = Some a \<Longrightarrow> ref_ok (reg w) (threat_entity a)"
    and k: "has (combat (reg w)) e \<Longrightarrow> has (combat (reg w')) e"
  shows "tick_ok e w (Some (st, w'))"
proof -
  have "agent (reg w') e" using quiet_agent [OF q ag] by (simp add: agent_def)
  with target_bt_inv [OF i q c a] k show ?thesis by (simp add: tick_ok_def)
qed

lemma ref_ok_None [simp]: "ref_ok r None"
  by (simp add: ref_ok_def)

lemma bt_inv_refs:
  "bt_inv r \<Longrightarrow> combat r e = Some c \<Longrightarrow> ref_ok r (target_entity c)"
  "bt_inv r \<Longrightarrow> aggro r e = Some a \<Longrightarrow> ref_ok r (threat_entity a)"
  by (auto simp: bt_inv_def)

lemma agent_ref_ok: "bt_inv r \<Longrightarrow> agent r e \<Longrightarrow> ref_ok r (Some e)"
proof -
  assume i: "bt_inv r" and a: "agent r e"
  then have "\<not> next_entity r \<le> e" by (auto simp: bt_inv_def fresh_ok_def agent_def)
  with a show ?thesis by (auto simp: ref_ok_def agent_def fighter_def)
qed

lemma ConditionHasCombatTarget_ok:
  assumes i: "bt_inv (reg w)" and a: "agent (reg w) e"
  shows "tick_ok e w (ConditionHasCombatTarget_Tick e w) \<and>
    (\<forall>w'. ConditionHasCombatTarget_Tick e w = Some (StSuccess, w') \<longrightarrow> has (combat (reg w')) e)"
proof -
  have "tick_ok e w (Some (st, put_combat e (c\<lparr>target_entity := None\<rparr>) w))" for st c
    by (rule target_tick [OF i a]) (auto simp: put_defs quiet_def occupied_def
        split: if_splits intro: bt_inv_refs [OF i])
  with same_tick [OF i a] show ?thesis
    by (auto simp: ConditionHasCombatTarget_Tick_def split: option.splits if_splits)
qed

lemma ActionInhibitOrAttack_ok:
  assumes i: "bt_inv (reg w)" and a: "agent (reg w) e"
  shows "tick_ok e w (ActionInhibitOrAttack_Tick e w)"
proof (cases "aggro (reg w) e")
  case None
  then show ?thesis using same_tick [OF i a] by (simp add: ActionInhibitOrAttack_Tick_def)
next
  case (Some ag)
  have th: "ref_ok (reg w) (threat_entity ag)" by (rule bt_inv_refs(2) [OF i Some])
  show ?thesis
  proof (rule agentE [OF i a])
    fix ident loc act j t n tick
    assume comps: "identity (reg w) e = Some ident" "location (reg w) e = Some loc"
      "activity (reg w) e = Some act" "job (reg w) e = Some j" "toil (reg w) e = Some t"
      "needs (reg w) e = Some n" "bt_context_tick (reg w) = Some tick"
    show ?thesis
    proof (cases "valid_ref (reg w) (threat_entity ag)")
      case False
      then show ?thesis
        by (auto simp: ActionInhibitOrAttack_Tick_def Some comps current_tick_def put_defs quiet_def
            occupied_def th intro!: target_tick [OF i a] intro: bt_inv_refs [OF i] split: if_splits)
    next
      case True
      then obtain x where x: "threat_entity ag = Some x" "valid (reg w) x"
        by (auto simp: valid_ref_def split: option.splits)
      obtain xi where xi: "identity (reg w) x = Some xi"
        using th x by (auto simp: ref_ok_def fighter_def)
      show ?thesis
        using th [unfolded x(1)]
        by (auto simp: ActionInhibitOrAttack_Tick_def Some comps x xi current_tick_def put_defs quiet_def
            occupied_def call_rpc_def Let_def intro!: target_tick [OF i a]
            intro: bt_inv_refs [OF i] split: if_splits prod.splits)
    qed
  qed
qed

lemma tick_ok_trans: "quiet (reg w) (reg w1) \<Longrightarrow> tick_ok e w1 res \<Longrightarrow> tick_ok e w res"
  by (auto simp: tick_ok_def quiet_def)

lemma melee_strike_ok:
  assumes i: "bt_inv (reg w)" and a: "agent (reg w) e"
    and c: "ref_ok (reg w) (target_entity c)" and s: "ref_ok (reg w) (Some e)"
  shows "tick_ok e w (melee_strike e c ident tgt th ti w)"
proof -
  define h where "h = th\<lparr>hp := fsub (hp th) (attack_damage c)\<rparr>"
  define w5 where "w5 = melee_hit e c ident tgt h ti w"
  define w6 where "w6 = melee_retaliate e tgt w5"
  have q5: "quiet (reg w) ((reg w5)\<lparr>combat := combat (reg w), aggro := aggro (reg w)\<rparr>)"
    "combat (reg w5) = (combat (reg w))(e \<mapsto> c\<lparr>cooldown_ticks := 20\<rparr>)" "aggro (reg w5) = aggro (reg w)"
    by (auto simp: w5_def melee_hit_def Let_def put_defs call_rpc_def quiet_def occupied_def)
  have q6: "quiet (reg w) ((reg w6)\<lparr>combat := combat (reg w), aggro := aggro (reg w)\<rparr>)"
    "aggro (reg w6) = aggro (reg w)" "\<exists>c1. combat (reg w6) e = Some c1"
    using q5 by (auto simp: w6_def melee_retaliate_def put_combat_def quiet_def occupied_def split: option.split)
  have c5: "ref_ok (reg w) (target_entity cc)" if "combat (reg w5) y = Some cc" for y cc
    using that c by (auto simp: q5(2) split: if_splits intro: bt_inv_refs(1) [OF i])
  have c6: "ref_ok (reg w) (target_entity cc)" if "combat (reg w6) y = Some cc" for y cc
    using that c5 s by (auto simp: w6_def melee_retaliate_def put_combat_def split: option.splits if_splits)
  obtain c1 where c1: "combat (reg w6) e = Some c1" using q6(3) by blast
  have eq: "melee_strike e c ident tgt th ti w = (if fle (hp h) (Fin 0)
      then Some (StSuccess, put_combat e (c1\<lparr>target_entity := None\<rparr>)
         (put_health tgt (h\<lparr>hp := Fin 0, is_dead := True\<rparr>) w6))
      else Some (StSuccess, w6))"
    using c1 by (simp add: melee_strike_def Let_def h_def w5_def w6_def)
  have "tick_ok e w (Some (StSuccess, w6))"
    by (rule target_tick [OF i a q6(1)]) (use c6 q6(2) c1 in \<open>auto intro: bt_inv_refs(2) [OF i]\<close>)
  moreover have "tick_ok e w (Some (StSuccess, put_combat e (c1\<lparr>target_entity := None\<rparr>)
         (put_health tgt hh w6)))" for hh
    by (rule target_tick [OF i a])
      (use c6 q6 in \<open>auto simp: put_defs quiet_def occupied_def split: if_splits intro: bt_inv_refs(2) [OF i]\<close>)
  ultimately show ?thesis unfolding eq by simp
qed

lemma ActionMeleeAttack_ok:
  assumes i: "bt_inv (reg w)" and a: "agent (reg w) e" and c: "has (combat (reg w)) e"
  shows "tick_ok e w (ActionMeleeAttack_Tick e w)"
proof -
  obtain c where c: "combat (reg w) e = Some c" using c by auto
  have self: "ref_ok (reg w) (Some e)" by (rule agent_ref_ok [OF i a])
  have tgt: "ref_ok (reg w) (target_entity c)" by (rule bt_inv_refs(1) [OF i c])
  show ?thesis
  proof (rule agentE [OF i a])
    fix ident loc act j t n tick
    assume comps: "identity (reg w) e = Some ident" "location (reg w) e = Some loc"
      "activity (reg w) e = Some act" "job (reg w) e = Some j" "toil (reg w) e = Some t"
      "needs (reg w) e = Some n" "bt_context_tick (reg w) = Some tick"
    show ?thesis
    proof (cases "\<exists>x. target_entity c = Some x \<and> valid (reg w) x")
      case False
      then show ?thesis
        by (auto simp: ActionMeleeAttack_Tick_def c comps current_tick_def
            intro!: same_tick [OF i a] split: option.split)
    next
      case True
      then obtain x where x: "target_entity c = Some x" "valid (reg w) x" by blast
      obtain xl xh xi where xc: "location (reg w) x = Some xl" "health (reg w) x = Some xh"
        "identity (reg w) x = Some xi"
        using combat_target_ok [OF i c x] by (auto simp: fighter_def)
      have stop: "quiet (reg w) (reg (melee_stop e t w))"
        using comps by (auto simp: melee_stop_def Let_def quiet_defs split: option.split)
      note i1 = quiet_bt_inv [OF stop i] and a1 = quiet_agent [OF stop a]
        and r1 = quiet_ref_ok [OF stop]
      have chase: "tick_ok e w (Some (StRunning, melee_chase e j t xl xi w))"
        by (rule quiet_tick [OF i a]) (auto simp: melee_chase_def Let_def quiet_defs split: option.split)
      have face: "tick_ok e w (Some (StRunning, put_activity e s (put_combat e
          (c\<lparr>cooldown_ticks := cooldown_ticks c - 1\<rparr>) (melee_stop e t w))))" for s
        by (rule tick_ok_trans [OF stop target_tick [OF i1 a1]])
          (use r1 [OF tgt] in \<open>auto simp: put_defs quiet_def occupied_def split: if_splits
             intro: bt_inv_refs [OF i1]\<close>)
      have strike: "tick_ok e w (melee_strike e c ident x xh xi (melee_stop e t w))"
        by (rule tick_ok_trans [OF stop melee_strike_ok [OF i1 a1]])
          (use r1 [OF tgt] r1 [OF self] in \<open>auto\<close>)
      show ?thesis
        using chase face strike
        by (simp add: ActionMeleeAttack_Tick_def c comps x xc current_tick_def Let_def)
    qed
  qed
qed


section \<open>Furniture\<close>

text \<open>A new camp: a free, temporary piece of furniture; everything else is as before.\<close>

lemma spawn_camp_reg:
  assumes "spawn_camp nm a loc w = (camp, w')"
  shows "camp = next_entity (reg w)" and
    "reg w' = (reg w)\<lparr>live := live (reg w) @ [camp], next_entity := next_entity (reg w) + 1,
        identity := (identity (reg w))(camp \<mapsto> \<lparr>npc_id = 0, display_name = nm\<rparr>),
        location := (location (reg w))(camp \<mapsto> the (location (reg w') camp)),
        affordance := (affordance (reg w))(camp \<mapsto>
          \<lparr>aff_type = a, occupied_by = None, is_temporary = True\<rparr>)\<rparr>"
  using assms
  by (auto simp: spawn_camp_def Let_def create_def put_defs update_position_def
      UpdateEntityPosition_def split: prod.splits option.splits intro!: registry.equality)

lemma spawn_camp_inv:
  assumes i: "bt_inv (reg w)" and s: "spawn_camp nm a loc w = (camp, w')"
  shows "bt_inv (reg w') \<and> (\<forall>x. agent (reg w) x \<longrightarrow> agent (reg w') x) \<and>
    combat (reg w') = combat (reg w) \<and> needs (reg w') = needs (reg w) \<and>
    has (identity (reg w')) camp \<and> has (location (reg w')) camp \<and>
    affordance (reg w') camp = Some \<lparr>aff_type = a, occupied_by = None, is_temporary = True\<rparr>"
proof -
  define r where "r = reg w"
  obtain l where r': "reg w' = r\<lparr>live := live r @ [camp], next_entity := next_entity r + 1,
        identity := (identity r)(camp \<mapsto> \<lparr>npc_id = 0, display_name = nm\<rparr>),
        location := (location r)(camp \<mapsto> l),
        affordance := (affordance r)(camp \<mapsto>
          \<lparr>aff_type = a, occupied_by = None, is_temporary = True\<rparr>)\<rparr>" (is "_ = ?r")
    and camp: "camp = next_entity r"
    using spawn_camp_reg [OF s] unfolding r_def by blast
  have i: "bt_inv r" using i by (simp add: r_def)
  have fresh: "camp \<notin> set (live r)" "affordance r camp = None" "needs r camp = None"
    using i by (simp_all add: bt_inv_def fresh_ok_def camp)
  define r1 where "r1 = ?r"
  have f: "live r1 = live r @ [camp]" "next_entity r1 = next_entity r + 1"
    "identity r1 = (identity r)(camp \<mapsto> \<lparr>npc_id = 0, display_name = nm\<rparr>)"
    "location r1 = (location r)(camp \<mapsto> l)"
    "affordance r1 = (affordance r)(camp \<mapsto>
       \<lparr>aff_type = a, occupied_by = None, is_temporary = True\<rparr>)"
    "behavior_tree r1 = behavior_tree r" "combat r1 = combat r" "aggro r1 = aggro r"
    "needs r1 = needs r" "bt_context_tick r1 = bt_context_tick r" "activity r1 = activity r"
    "job r1 = job r" "toil r1 = toil r" "health r1 = health r"
    by (simp_all add: r1_def)
  have ag: "agent r x \<Longrightarrow> agent r1 x" for x by (auto simp: agent_def f)
  have ro: "ref_ok r t \<Longrightarrow> ref_ok r1 t" for t
    using camp by (auto simp: ref_ok_def valid_def fighter_def f split: option.splits)
  have oc: "occupied r1 = occupied r" "occupant r1 = occupant r"
    using fresh by (auto simp: fun_eq_iff occupied_def occupant_def f)
  have "occupancy_ok r1" "furniture_ok r1" "fresh_ok r1" "workers_ok r1"
    using i fresh by (auto simp: bt_inv_def occupancy_ok_def oc furniture_ok_def fresh_ok_def workers_ok_def f camp)
  moreover have "behavior_tree r1 e = Some (Some t) \<Longrightarrow> t = CreateSurvivalTree \<and> agent r1 e" for e t
    using i ag by (auto simp: bt_inv_def f)
  ultimately have "bt_inv r1" using i ro by (auto simp: bt_inv_def f)
  moreover have "reg w' = r1" unfolding r' r1_def ..
  ultimately show ?thesis using ag by (simp add: r_def [symmetric] f)
qed

lemma consider_furniture_located:
  "(\<And>f. fst best = Some f \<Longrightarrow> has (location r) f) \<Longrightarrow>
     fst (consider_furniture r s loc x best) = Some f \<Longrightarrow> has (location r) f"
  by (auto simp: consider_furniture_def Let_def split: option.splits if_splits)

lemma nearest_furniture_located:
  "nearest_furniture env r s loc = (Some f, d) \<Longrightarrow> \<exists>l. location r f = Some l"
proof -
  have "fst (fold (consider_furniture r s loc) fs best) = Some f \<Longrightarrow> has (location r) f"
    if "\<And>f. fst best = Some f \<Longrightarrow> has (location r) f" for fs best f
    using that
  proof (induction fs arbitrary: best)
    case (Cons x fs)
    show ?case
      by (rule Cons.IH [OF Cons.prems(1) [simplified] consider_furniture_located [OF Cons.prems(2)]])
  qed simp
  from this [of "(None, flit 999999)" "order env r" f]
  show "nearest_furniture env r s loc = (Some f, d) \<Longrightarrow> \<exists>l. location r f = Some l"
    by (simp add: nearest_furniture_def)
qed

lemma ActionFindFurniture_ok:
  assumes i: "bt_inv (reg w)" and a: "agent (reg w) e"
  shows "tick_ok e w (ActionFindFurniture_Tick env e w)"
proof (rule agentE [OF i a])
  fix ident loc act j t n tick
  assume comps: "identity (reg w) e = Some ident" "location (reg w) e = Some loc"
    "activity (reg w) e = Some act" "job (reg w) e = Some j" "toil (reg w) e = Some t"
    "needs (reg w) e = Some n" "bt_context_tick (reg w) = Some tick"
  obtain f d where nf: "nearest_furniture env (reg w) (current_survival_type n) loc = (f, d)" by fastforce
  have set_target: "tick_ok e w (Some (StSuccess, put_toil e t' (put_job e j' w)))" for t' j'
    by (rule quiet_tick [OF i a]) (auto simp: quiet_defs comps)
  have spawned: "tick_ok e w (Some (StSuccess, put_toil e t' (put_job e j' (snd (spawn_camp nm af loc w)))))"
    for t' j' nm af
  proof -
    obtain camp w1 where s: "spawn_camp nm af loc w = (camp, w1)" by fastforce
    note si = spawn_camp_inv [OF i s]
    have "tick_ok e w1 (Some (StSuccess, put_toil e t' (put_job e j' w1)))"
      by (rule quiet_tick) (use si a in \<open>auto simp: quiet_defs agent_def\<close>)
    with si s show ?thesis by (simp add: tick_ok_def)
  qed
  show ?thesis
  proof (cases "if flt d (flit 50) then f else None")
    case None
    with comps nf set_target spawned same_tick [OF i a] show ?thesis
      by (simp add: ActionFindFurniture_Tick_def current_tick_def Let_def split del: if_split) simp
  next
    case (Some g)
    then obtain l where "location (reg w) g = Some l"
      using nearest_furniture_located [of env "reg w" "current_survival_type n" loc g d] nf
      by (auto split: if_splits)
    with comps nf Some set_target same_tick [OF i a] show ?thesis
      by (simp add: ActionFindFurniture_Tick_def current_tick_def Let_def)
  qed
qed


text \<open>Occupying: a free piece and an agent without one are tied to each other.\<close>

lemma occupy_bt_inv:
  assumes i: "bt_inv r" and n: "needs r e = Some n" "occupied_furniture n = None"
    and af: "affordance r f = Some aff" "occupied_by aff = None"
  shows "bt_inv (r\<lparr>affordance := (affordance r)(f \<mapsto> aff\<lparr>occupied_by := Some e\<rparr>),
    needs := (needs r)(e \<mapsto> n\<lparr>occupied_furniture := Some f\<rparr>)\<rparr>)" (is "bt_inv ?r")
proof -
  define r1 where "r1 = ?r"
  have f: "live r1 = live r" "next_entity r1 = next_entity r" "identity r1 = identity r"
    "location r1 = location r" "behavior_tree r1 = behavior_tree r" "combat r1 = combat r"
    "aggro r1 = aggro r" "bt_context_tick r1 = bt_context_tick r" "activity r1 = activity r"
    "job r1 = job r" "toil r1 = toil r" "health r1 = health r"
    "affordance r1 = (affordance r)(f \<mapsto> aff\<lparr>occupied_by := Some e\<rparr>)"
    "needs r1 = (needs r)(e \<mapsto> n\<lparr>occupied_furniture := Some f\<rparr>)"
    by (simp_all add: r1_def)
  have ag: "agent r x \<Longrightarrow> agent r1 x" for x by (auto simp: agent_def f)
  have ro: "ref_ok r t \<Longrightarrow> ref_ok r1 t" for t
    by (auto simp: ref_ok_def valid_def fighter_def f split: option.splits)
  have oc: "occupied r1 x = (if x = e then Some f else occupied r x)"
    "occupant r1 y = (if y = f then Some e else occupant r y)" for x y
    by (auto simp: occupied_def occupant_def f)
  have inv: "occupied r x = Some y \<longleftrightarrow> occupant r y = Some x" for x y
    using i by (simp add: bt_inv_def occupancy_ok_def)
  have none: "occupied r e = None" "occupant r f = None"
    using n af by (simp_all add: occupied_def occupant_def)
  have "occupied r1 x = Some y \<longleftrightarrow> occupant r1 y = Some x" for x y
    using inv [of e y] inv [of x f] none by (simp add: oc inv)
  then have "occupancy_ok r1" by (simp add: occupancy_ok_def)
  moreover have "furniture_ok r1" using i n af by (auto simp: bt_inv_def furniture_ok_def f)
  moreover have "fresh_ok r1" using i n af by (auto simp: bt_inv_def fresh_ok_def f)
  moreover have "workers_ok r1" using i by (simp add: bt_inv_def workers_ok_def f)
  moreover have "behavior_tree r1 x = Some (Some t) \<Longrightarrow> t = CreateSurvivalTree \<and> agent r1 x" for x t
    using i ag by (auto simp: bt_inv_def f)
  ultimately have "bt_inv r1" using i ro by (auto simp: bt_inv_def f)
  then show ?thesis by (simp add: r1_def)
qed

lemma occupy_furniture_ok:
  assumes i: "bt_inv (reg w)" and a: "agent (reg w) e"
    and n: "needs (reg w) e = Some n" "occupied_furniture n = None"
    and f: "affordance (reg w) f = Some aff" "occupied_by aff = None"
      "has (location (reg w)) f" "has (identity (reg w)) f"
  shows "tick_ok e w (occupy_furniture e f w)"
proof (rule agentE [OF i a])
  fix ident loc act j t n' tick
  assume comps: "identity (reg w) e = Some ident" "location (reg w) e = Some loc"
    "activity (reg w) e = Some act" "job (reg w) e = Some j" "toil (reg w) e = Some t"
    "needs (reg w) e = Some n'" "bt_context_tick (reg w) = Some tick"
  obtain fl fi where f': "location (reg w) f = Some fl" "identity (reg w) f = Some fi"
    using f(3,4) by auto
  define w1 where "w1 = put_needs e (n\<lparr>occupied_furniture := Some f\<rparr>)
      (put_affordance f (aff\<lparr>occupied_by := Some e\<rparr>) w)"
  have r1: "reg w1 = (reg w)\<lparr>affordance := (affordance (reg w))(f \<mapsto> aff\<lparr>occupied_by := Some e\<rparr>),
      needs := (needs (reg w))(e \<mapsto> n\<lparr>occupied_furniture := Some f\<rparr>)\<rparr>"
    by (simp add: w1_def put_defs)
  have i1: "bt_inv (reg w1)" unfolding r1 by (rule occupy_bt_inv [OF i n f(1,2)])
  have a1: "agent (reg w1) e" using a by (auto simp: r1 agent_def)
  have "tick_ok e w1 (Some (StRunning, put_activity e act' (put_toil e t' (put_location e l' w1))))"
    for act' t' l'
    by (rule quiet_tick [OF i1 a1]) (auto simp: quiet_defs)
  then have "tick_ok e w (Some (StRunning, put_activity e act' (put_toil e t' (put_location e l' w1))))"
    for act' t' l'
    by (simp add: tick_ok_def r1)
  with n f(1) f' comps show ?thesis
    by (simp add: occupy_furniture_def w1_def put_affordance_def put_needs_def put_location_def Let_def)
qed

lemma claim_furniture_ok:
  assumes i: "bt_inv (reg w)" and a: "agent (reg w) e"
    and n: "needs (reg w) e = Some n" "occupied_furniture n = None"
  shows "tick_ok e w (claim_furniture env e w)"
proof (rule agentE [OF i a])
  fix ident loc act j t n' tick
  assume comps: "identity (reg w) e = Some ident" "location (reg w) e = Some loc"
    "activity (reg w) e = Some act" "job (reg w) e = Some j" "toil (reg w) e = Some t"
    "needs (reg w) e = Some n'" "bt_context_tick (reg w) = Some tick"
  have floor: "tick_ok e w (use_floor e w)"
    using comps by (auto simp: use_floor_def Let_def quiet_defs intro!: quiet_tick [OF i a])
  have camp: "tick_ok e w (occupy_furniture e camp w1)" if s: "spawn_camp nm af loc w = (camp, w1)" for nm af camp w1
  proof -
    note si = spawn_camp_inv [OF i s]
    have "tick_ok e w1 (occupy_furniture e camp w1)"
      by (rule occupy_furniture_ok) (use si a n in auto)
    with si show ?thesis by (simp add: tick_ok_def)
  qed
  show ?thesis
  proof (cases "find (claimable (reg w) (current_survival_type n) loc) (order env (reg w))")
    case None
    obtain c1 w1 c2 w2 where sp: "spawn_camp lit_temp_campfire AfEat loc w = (c1, w1)"
      "spawn_camp lit_temp_camp AfSleep loc w = (c2, w2)" by fastforce
    with None n comps floor camp [OF sp(1)] camp [OF sp(2)] show ?thesis
      by (simp add: claim_furniture_def)
  next
    case (Some f)
    then have "claimable (reg w) (current_survival_type n) loc f" by (auto simp: find_Some_iff)
    then obtain aff where aff: "affordance (reg w) f = Some aff" "occupied_by aff = None"
      "has (location (reg w)) f" "has (identity (reg w)) f"
      by (auto simp: claimable_def split: option.splits)
    have "tick_ok e w (occupy_furniture e f w)" by (rule occupy_furniture_ok [OF i a n aff])
    with Some n comps show ?thesis by (simp add: claim_furniture_def)
  qed
qed


text \<open>Giving a piece back, and taking a free piece away.\<close>

lemma release_bt_inv:
  assumes i: "bt_inv r" and n: "needs r e = Some n" "occupied_furniture n = Some f"
    and af: "affordance r f = Some aff" and n': "occupied_furniture n' = None"
  shows "bt_inv (r\<lparr>affordance := (affordance r)(f \<mapsto> aff\<lparr>occupied_by := None\<rparr>),
    needs := (needs r)(e \<mapsto> n')\<rparr>)" (is "bt_inv ?r")
proof -
  define r1 where "r1 = ?r"
  have f: "live r1 = live r" "next_entity r1 = next_entity r" "identity r1 = identity r"
    "location r1 = location r" "behavior_tree r1 = behavior_tree r" "combat r1 = combat r"
    "aggro r1 = aggro r" "bt_context_tick r1 = bt_context_tick r" "activity r1 = activity r"
    "job r1 = job r" "toil r1 = toil r" "health r1 = health r"
    "affordance r1 = (affordance r)(f \<mapsto> aff\<lparr>occupied_by := None\<rparr>)"
    "needs r1 = (needs r)(e \<mapsto> n')"
    by (simp_all add: r1_def)
  have ag: "agent r x \<Longrightarrow> agent r1 x" for x by (auto simp: agent_def f)
  have ro: "ref_ok r t \<Longrightarrow> ref_ok r1 t" for t
    by (auto simp: ref_ok_def valid_def fighter_def f split: option.splits)
  have oc: "occupied r1 x = (if x = e then None else occupied r x)"
    "occupant r1 y = (if y = f then None else occupant r y)" for x y
    using n' by (auto simp: occupied_def occupant_def f)
  have inv: "occupied r x = Some y \<longleftrightarrow> occupant r y = Some x" for x y
    using i by (simp add: bt_inv_def occupancy_ok_def)
  have tied: "occupied r e = Some f" using n by (simp add: occupied_def)
  then have "occupant r f = Some e" by (simp add: inv)
  then have "occupied r1 x = Some y \<longleftrightarrow> occupant r1 y = Some x" for x y
    using inv [of e y] inv [of x f] tied by (auto simp: oc inv)
  then have "occupancy_ok r1" by (simp add: occupancy_ok_def)
  moreover have "furniture_ok r1" using i n af by (auto simp: bt_inv_def furniture_ok_def f)
  moreover have "fresh_ok r1" using i n af by (auto simp: bt_inv_def fresh_ok_def f)
  moreover have "workers_ok r1" using i by (simp add: bt_inv_def workers_ok_def f)
  moreover have "behavior_tree r1 x = Some (Some t) \<Longrightarrow> t = CreateSurvivalTree \<and> agent r1 x" for x t
    using i ag by (auto simp: bt_inv_def f)
  ultimately have "bt_inv r1" using i ro by (auto simp: bt_inv_def f)
  then show ?thesis by (simp add: r1_def)
qed

lemma destroy_bt_inv:
  assumes i: "bt_inv r" and af: "affordance r f = Some aff" "occupied_by aff = None"
  shows "bt_inv (destroy f r) \<and> (\<forall>x. agent r x \<longrightarrow> agent (destroy f r) x)"
proof -
  define r1 where "r1 = destroy f r"
  have f: "live r1 = erase_value f (live r)" "next_entity r1 = next_entity r"
    "identity r1 = (identity r)(f := None)" "location r1 = (location r)(f := None)"
    "behavior_tree r1 = (behavior_tree r)(f := None)" "combat r1 = (combat r)(f := None)"
    "aggro r1 = (aggro r)(f := None)" "bt_context_tick r1 = bt_context_tick r"
    "activity r1 = (activity r)(f := None)" "job r1 = (job r)(f := None)"
    "toil r1 = (toil r)(f := None)" "health r1 = (health r)(f := None)"
    "affordance r1 = (affordance r)(f := None)" "needs r1 = (needs r)(f := None)"
    by (simp_all add: r1_def destroy_def)
  have nf: "needs r f = None" using i af by (simp add: bt_inv_def furniture_ok_def)
  then have ag: "agent r x \<Longrightarrow> agent r1 x" for x by (auto simp: agent_def f)
  have ro: "ref_ok r t \<Longrightarrow> ref_ok r1 t" for t
    by (auto simp: ref_ok_def valid_def fighter_def f split: option.splits)
  have oc: "occupied r1 = occupied r" "occupant r1 = occupant r"
    using nf af by (auto simp: fun_eq_iff occupied_def occupant_def f)
  have "occupancy_ok r1" "furniture_ok r1" "fresh_ok r1" "workers_ok r1"
    using i by (auto simp: bt_inv_def occupancy_ok_def oc furniture_ok_def fresh_ok_def workers_ok_def f)
  moreover have "behavior_tree r1 x = Some (Some t) \<Longrightarrow> t = CreateSurvivalTree \<and> agent r1 x" for x t
    using i ag by (auto simp: bt_inv_def f split: if_splits)
  ultimately have "bt_inv r1" using i ro by (auto simp: bt_inv_def f)
  with ag show ?thesis by (simp add: r1_def)
qed

text \<open>The piece an agent occupies exists and records it.\<close>

lemma occupied_affordance:
  assumes "bt_inv r" "needs r e = Some n" "occupied_furniture n = Some f"
  obtains aff where "affordance r f = Some aff" "occupied_by aff = Some e" "f \<noteq> e"
proof -
  have "occupied r e = Some f" using assms by (simp add: occupied_def)
  then have "occupant r f = Some e" using assms(1) by (simp add: bt_inv_def occupancy_ok_def)
  moreover have "f \<noteq> e" using assms calculation
    by (auto simp: bt_inv_def furniture_ok_def occupant_def split: option.splits)
  ultimately show thesis using that by (auto simp: occupant_def split: option.splits)
qed

text \<open>The state after \<open>finish_recovery\<close> gave the furniture back.\<close>

lemma released_ok:
  assumes i: "bt_inv (reg w)" and a: "agent (reg w) e"
    and n: "needs (reg w) e = Some n" "occupied_furniture n = Some f"
    and n': "occupied_furniture n' = None"
  shows "\<exists>w1. release_furniture f w = Some w1 \<and> needs (reg w1) e = Some n \<and>
    bt_inv (reg (put_needs e n' w1)) \<and> agent (reg (put_needs e n' w1)) e \<and>
    (has (combat (reg w)) e \<longrightarrow> has (combat (reg w1)) e)"
proof -
  obtain aff where aff: "affordance (reg w) f = Some aff" "occupied_by aff = Some e" "f \<noteq> e"
    by (rule occupied_affordance [OF i n])
  define r1 where "r1 = (reg w)\<lparr>affordance := (affordance (reg w))(f \<mapsto> aff\<lparr>occupied_by := None\<rparr>),
    needs := (needs (reg w))(e \<mapsto> n')\<rparr>"
  have i1: "bt_inv r1" unfolding r1_def by (rule release_bt_inv [OF i n aff(1) n'])
  have a1: "agent r1 e" using a by (auto simp: r1_def agent_def)
  have d: "bt_inv (destroy f r1) \<and> (\<forall>x. agent r1 x \<longrightarrow> agent (destroy f r1) x)"
    by (rule destroy_bt_inv [OF i1, of _ "aff\<lparr>occupied_by := None\<rparr>"]) (simp_all add: r1_def)
  obtain w1 where w1: "release_furniture f w = Some w1" using aff by (simp add: release_furniture_def Let_def)
  have "reg (put_needs e n' w1) = (if is_temporary aff then destroy f r1 else r1)"
    using w1 aff by (auto simp: release_furniture_def Let_def put_defs r1_def destroy_entity_def destroy_def
        fun_upd_twist)
  moreover have "needs (reg w1) e = Some n" "has (combat (reg w)) e \<longrightarrow> has (combat (reg w1)) e"
    using w1 aff n by (auto simp: release_furniture_def Let_def put_defs destroy_entity_def destroy_def)
  ultimately show ?thesis using w1 i1 a1 d by simp
qed

lemma finish_recovery_ok:
  assumes i: "bt_inv (reg w)" and a: "agent (reg w) e"
  shows "tick_ok e w (finish_recovery e w)"
proof -
  obtain n where n: "needs (reg w) e = Some n" using a by (auto simp: agent_def)
  define n' where "n' = n\<lparr>occupied_furniture := None, is_resolving_survival := False,
      current_survival_type := SvNone\<rparr>"
  obtain w1 where w1: "(case occupied_furniture n of None \<Rightarrow> Some w | Some f \<Rightarrow> release_furniture f w) = Some w1"
    "needs (reg w1) e = Some n" "bt_inv (reg (put_needs e n' w1))" "agent (reg (put_needs e n' w1)) e"
    "has (combat (reg w)) e \<longrightarrow> has (combat (reg w1)) e"
  proof (cases "occupied_furniture n")
    case None
    have q: "quiet (reg w) (reg (put_needs e n' w))"
      using n None by (auto simp: quiet_defs n'_def)
    from that None n quiet_bt_inv [OF q i] quiet_agent [OF q a] show thesis by simp
  next
    case (Some f)
    from released_ok [OF i a n Some, of n'] that Some show thesis by (auto simp: n'_def)
  qed
  define w2 where "w2 = put_needs e n' w1"
  have fin: "tick_ok e w2 (finish_recovery e w)"
  proof (rule agentE [OF w1(3,4)])
    fix ident loc act j t n0 tick
    assume comps: "identity (reg (put_needs e n' w1)) e = Some ident"
      "location (reg (put_needs e n' w1)) e = Some loc" "activity (reg (put_needs e n' w1)) e = Some act"
      "job (reg (put_needs e n' w1)) e = Some j" "toil (reg (put_needs e n' w1)) e = Some t"
      "needs (reg (put_needs e n' w1)) e = Some n0" "bt_context_tick (reg (put_needs e n' w1)) = Some tick"
    note comps = comps [folded w2_def]
    have eq: "finish_recovery e w = Some (StSuccess, put_activity e lit_waiting
        (put_toil e (t\<lparr>toil_state := TsIdle, duration_ticks := 0, current_action := ''''\<rparr>)
          (put_job e (j\<lparr>is_active := False\<rparr>)
            (call_rpc (ReportJobStatus (npc_id ident) (job_id j) 0 UNKNOWN_REASON
              ''survival_resolved'' tick) KNone w2))))"
      using comps n w1(1,2)
      by (simp add: finish_recovery_def n'_def [symmetric] w2_def [symmetric] Let_def current_tick_def)
    show ?thesis
      unfolding eq by (rule quiet_tick [OF w1(3,4) [folded w2_def]]) (use comps in \<open>auto simp: quiet_defs\<close>)
  qed
  have "combat (reg w2) = combat (reg w1)" by (simp add: w2_def put_defs)
  with fin w1(5) show ?thesis by (auto simp: tick_ok_def)
qed

lemma ActionInteractFurniture_ok:
  assumes i: "bt_inv (reg w)" and a: "agent (reg w) e"
  shows "tick_ok e w (ActionInteractFurniture_Tick env e w)"
proof (rule agentE [OF i a])
  fix ident loc act j t n tick
  assume comps: "identity (reg w) e = Some ident" "location (reg w) e = Some loc"
    "activity (reg w) e = Some act" "job (reg w) e = Some j" "toil (reg w) e = Some t"
    "needs (reg w) e = Some n" "bt_context_tick (reg w) = Some tick"
  have rc: "occupied_furniture (recharge x n) = occupied_furniture n" for x
    by (simp add: recharge_def Let_def split: SurvivalType.split)
  have later: "tick_ok e w (let w1 = put_needs e (recharge x n) w in
      if need_resolved (recharge x n) then finish_recovery e w1 else Some (StRunning, w1))" for x
  proof -
    have q: "quiet (reg w) (reg (put_needs e (recharge x n) w))"
      using comps by (auto simp: quiet_defs rc)
    have "tick_ok e w (finish_recovery e (put_needs e (recharge x n) w))"
      by (rule tick_ok_trans [OF q finish_recovery_ok [OF quiet_bt_inv [OF q i] quiet_agent [OF q a]]])
    with quiet_tick [OF i a q] show ?thesis by (simp add: Let_def)
  qed
  show ?thesis
  proof (cases "occupied_furniture n")
    case None
    with comps later claim_furniture_ok [OF i a comps(6) None, of env] show ?thesis
      by (simp add: ActionInteractFurniture_Tick_def current_tick_def Let_def)
  next
    case (Some f)
    obtain aff where "affordance (reg w) f = Some aff"
      by (rule occupied_affordance [OF i comps(6) Some])
    with comps Some later show ?thesis
      by (simp add: ActionInteractFurniture_Tick_def current_tick_def Let_def)
  qed
qed


section \<open>The whole tree\<close>

text \<open>A node runs without undefined behaviour and keeps the invariant; with \<open>c\<close>, on an entity
  that has a \<open>CombatComp\<close>.\<close>

definition node_ok :: "env \<Rightarrow> entity \<Rightarrow> bool \<Rightarrow> BTNode \<Rightarrow> bool" where
  "node_ok env e c t \<longleftrightarrow> (\<forall>w. bt_inv (reg w) \<longrightarrow> agent (reg w) e \<longrightarrow> (c \<longrightarrow> has (combat (reg w)) e) \<longrightarrow>
     tick_ok e w (bt_run (\<lambda>l w. leaf_tick env l e w) t w))"

lemma node_ok_weaken: "node_ok env e False t \<Longrightarrow> node_ok env e c t"
  by (simp add: node_ok_def)

lemma tick_ok_seq:
  assumes "tick_ok e w (Some (st, w1))" "tick_ok e w1 res"
  shows "tick_ok e w res"
  using assms by (auto simp: tick_ok_def)

lemma leaf_ok:
  assumes "l \<noteq> ActionFlee" "l \<noteq> ActionMeleeAttack"
  shows "node_ok env e c (Leaf l)"
  using assms
  by (cases l) (simp_all add: node_ok_def leaf_tick_def ConditionIsHungry_ok ConditionIsFatigued_ok
      ConditionIsScheduledEat_ok ConditionIsScheduledSleep_ok ActionFindFurniture_ok
      ActionMoveToTarget_ok ActionInteractFurniture_ok ConditionHasCombatTarget_ok
      ConditionIsLowHealth_ok ConditionCanWander_ok ActionWander_ok ConditionIsAggroHigh_ok
      ActionInhibitOrAttack_ok)

lemma combat_leaf_ok: "node_ok env e True (Leaf ActionFlee)" "node_ok env e True (Leaf ActionMeleeAttack)"
  by (simp_all add: node_ok_def leaf_tick_def ActionFlee_ok ActionMeleeAttack_ok)

lemma selector_ok:
  assumes "\<forall>t\<in>set ts. node_ok env e c t"
  shows "node_ok env e c (Selector ts)"
  using assms
proof (induction ts)
  case Nil
  then show ?case by (simp add: node_ok_def same_tick)
next
  case (Cons t ts)
  show ?case
    unfolding node_ok_def
  proof (intro allI impI)
    fix w :: world assume pre: "bt_inv (reg w)" "agent (reg w) e" "c \<longrightarrow> has (combat (reg w)) e"
    then have t: "tick_ok e w (bt_run (\<lambda>l w. leaf_tick env l e w) t w)"
      using Cons.prems by (simp add: node_ok_def)
    then obtain st w1 where r: "bt_run (\<lambda>l w. leaf_tick env l e w) t w = Some (st, w1)"
      and w1: "bt_inv (reg w1)" "agent (reg w1) e" "has (combat (reg w)) e \<longrightarrow> has (combat (reg w1)) e"
      by (auto simp: tick_ok_def)
    have "tick_ok e w1 (selector_run (\<lambda>l w. leaf_tick env l e w) ts w1)"
      using Cons w1 pre(3) by (simp add: node_ok_def)
    with t r show "tick_ok e w (bt_run (\<lambda>l w. leaf_tick env l e w) (Selector (t # ts)) w)"
      by (simp add: tick_ok_seq)
  qed
qed

lemma sequence_ok:
  assumes "\<forall>t\<in>set ts. node_ok env e c t"
  shows "node_ok env e c (Sequence ts)"
  using assms
proof (induction ts)
  case Nil
  then show ?case by (simp add: node_ok_def same_tick)
next
  case (Cons t ts)
  show ?case
    unfolding node_ok_def
  proof (intro allI impI)
    fix w :: world assume pre: "bt_inv (reg w)" "agent (reg w) e" "c \<longrightarrow> has (combat (reg w)) e"
    then have t: "tick_ok e w (bt_run (\<lambda>l w. leaf_tick env l e w) t w)"
      using Cons.prems by (simp add: node_ok_def)
    then obtain st w1 where r: "bt_run (\<lambda>l w. leaf_tick env l e w) t w = Some (st, w1)"
      and w1: "bt_inv (reg w1)" "agent (reg w1) e" "has (combat (reg w)) e \<longrightarrow> has (combat (reg w1)) e"
      by (auto simp: tick_ok_def)
    have "tick_ok e w1 (sequence_run (\<lambda>l w. leaf_tick env l e w) ts w1)"
      using Cons w1 pre(3) by (simp add: node_ok_def)
    with t r show "tick_ok e w (bt_run (\<lambda>l w. leaf_tick env l e w) (Sequence (t # ts)) w)"
      by (simp add: tick_ok_seq)
  qed
qed

text \<open>After a successful \<open>ConditionHasCombatTarget\<close> the entity has a \<open>CombatComp\<close>.\<close>

lemma combat_sequence_ok:
  assumes "\<forall>t\<in>set ts. node_ok env e True t"
  shows "node_ok env e c (Sequence (Leaf ConditionHasCombatTarget # ts))"
  unfolding node_ok_def
proof (intro allI impI)
  fix w :: world assume pre: "bt_inv (reg w)" "agent (reg w) e"
  note h = ConditionHasCombatTarget_ok [OF pre]
  then obtain st w1 where r: "ConditionHasCombatTarget_Tick e w = Some (st, w1)"
    and w1: "bt_inv (reg w1)" "agent (reg w1) e"
    by (auto simp: tick_ok_def)
  have s: "st = StSuccess \<Longrightarrow> tick_ok e w1 (sequence_run (\<lambda>l w. leaf_tick env l e w) ts w1)"
    using sequence_ok [OF assms] w1 h r by (simp add: node_ok_def)
  have "tick_ok e w (Some (st, w1))" using h r by simp
  with s r show "tick_ok e w (bt_run (\<lambda>l w. leaf_tick env l e w)
      (Sequence (Leaf ConditionHasCombatTarget # ts)) w)"
    by (simp add: leaf_tick_def tick_ok_seq)
qed

lemma CreateSurvivalTree_ok: "node_ok env e False CreateSurvivalTree"
  unfolding CreateSurvivalTree_def
  by (rule selector_ok)
    (auto intro!: sequence_ok combat_sequence_ok leaf_ok combat_leaf_ok)

lemma SystemBehaviorTree_step:
  assumes i: "bt_inv (reg w)" and t: "behavior_tree (reg w) e = Some (Some t)"
  shows "\<exists>w'. map_option snd (bt_tick_entity env t e w) = Some w' \<and> bt_inv (reg w')"
proof -
  have "agent (reg w) e" "t = CreateSurvivalTree" using i t by (auto simp: bt_inv_def)
  with CreateSurvivalTree_ok i have "tick_ok e w (bt_tick_entity env t e w)"
    by (simp add: node_ok_def bt_tick_entity_def)
  then show ?thesis by (auto simp: tick_ok_def)
qed


lemma SystemBehaviorTree_total:
  assumes "bt_inv (reg w)"
  shows "\<exists>w'. SystemBehaviorTree env w = Some w' \<and> bt_inv (reg w')"
  unfolding SystemBehaviorTree_def view_each_def
proof (rule foldM_total [where I = "\<lambda>w. bt_inv (reg w)", OF assms])
  fix x and t :: world
  assume i: "bt_inv (reg t)"
  show "\<exists>t'. (if has (behavior_tree (reg t)) x then
      case behavior_tree (reg t) x of
        Some (Some tr) \<Rightarrow> if has (busy (reg t)) x then Some t
          else map_option snd (bt_tick_entity env tr x t)
      | _ \<Rightarrow> Some t else Some t) = Some t' \<and> bt_inv (reg t')"
  proof (cases "\<exists>tr. behavior_tree (reg t) x = Some (Some tr)")
    case True
    then obtain tr where tr: "behavior_tree (reg t) x = Some (Some tr)" by blast
    from SystemBehaviorTree_step [OF i tr, of env] i tr show ?thesis by auto
  next
    case False
    with i show ?thesis by (auto split: option.split)
  qed
qed

section \<open>Properties of the behaviour trees\<close>

text \<open>C5: No undefined behaviour: in a registry whose tree owners have the components the nodes
  read, whose combat targets and threats are fighters while they are valid, and in which
  furniture and occupants agree, a tick of \<open>SystemBehaviorTree\<close> never reads a missing component,
  a destroyed entity or an absent context, in any visiting order; afterwards all of this still
  holds; in particular no piece of furniture has two occupants, none stays occupied by an
  agent that does not use it, and none that is in use has been destroyed.\<close>

theorem SystemBehaviorTree_safe:
  assumes "bt_inv (reg w)"
  shows "\<exists>w'. SystemBehaviorTree env w = Some w' \<and> bt_inv (reg w') \<and>
    (\<forall>e f. occupied (reg w') e = Some f \<longleftrightarrow> occupant (reg w') f = Some e)"
  using SystemBehaviorTree_total [OF assms, of env] by (auto simp: bt_inv_def occupancy_ok_def)

text \<open>An agent asleep in a bed, a wolf that hunts it, and the bed.\<close>

definition demo_registry :: registry where
  "demo_registry = registry_init\<lparr>live := [0, 1, 2], next_entity := 3, bt_context_tick := Some 7,
     behavior_tree := [0 \<mapsto> Some CreateSurvivalTree, 1 \<mapsto> Some CreateSurvivalTree],
     identity := [0 \<mapsto> \<lparr>npc_id = 1, display_name = ''Eva''\<rparr>, 1 \<mapsto> \<lparr>npc_id = 2, display_name = ''Wolf''\<rparr>,
       2 \<mapsto> \<lparr>npc_id = 0, display_name = ''Bed''\<rparr>],
     location := [0 \<mapsto> LocationComp_default, 1 \<mapsto> LocationComp_default, 2 \<mapsto> LocationComp_default],
     activity := [0 \<mapsto> '''', 1 \<mapsto> ''''], job := [0 \<mapsto> JobComp_default, 1 \<mapsto> JobComp_default],
     toil := [0 \<mapsto> ToilComp_default, 1 \<mapsto> ToilComp_default],
     needs := [0 \<mapsto> NeedsComp_default\<lparr>is_resolving_survival := True,
         current_survival_type := SvFatigue, occupied_furniture := Some 2\<rparr>, 1 \<mapsto> NeedsComp_default],
     health := [0 \<mapsto> HealthComp_default, 1 \<mapsto> HealthComp_default],
     combat := [1 \<mapsto> CombatComp_default\<lparr>target_entity := Some 0\<rparr>],
     aggro := [0 \<mapsto> AggroComp_default\<lparr>threat_entity := Some 1, aggro_score := 100\<rparr>],
     affordance := [2 \<mapsto> \<lparr>aff_type = AfSleep, occupied_by = Some 0, is_temporary = False\<rparr>]\<rparr>"

definition demo_world :: "registry \<Rightarrow> world" where
  "demo_world r = \<lparr>reg = r, grid_reg = LocationRegistry_init, tcp = TcpServer_init,
     backpressure = (\<lambda>_. bp_init), outbox = [], rands = (\<lambda>_. 0), dice = (\<lambda>_. Fin 0),
     contagion_dice = (\<lambda>_. Fin 0), disc_draws = (\<lambda>_. (Fin 0, Fin 0)), shuffles = 0,
     contagion_ids = None\<rparr>"

definition demo_env :: env where
  "demo_env = \<lparr>order = live, cos_f = (\<lambda>x. x), sin_f = (\<lambda>x. x), entity_int = int,
     walk_map = GridMap_init, shuffled = (\<lambda>_ xs. xs), encode = (\<lambda>_. []),
     parse_login = (\<lambda>_. None), parse_move = (\<lambda>_. None), parse_talk = (\<lambda>_. None),
     parse_message = (\<lambda>_. None), parse_end = (\<lambda>_. None), parse_status = (\<lambda>_. None)\<rparr>"

lemma demo_registry_inv: "bt_inv demo_registry"
proof -
  have "occupancy_ok demo_registry"
    by (simp add: occupancy_ok_def occupied_def occupant_def demo_registry_def NeedsComp_default_def
        registry_init_def split: option.split)
  moreover have "furniture_ok demo_registry" "fresh_ok demo_registry" "workers_ok demo_registry"
    by (auto simp: furniture_ok_def fresh_ok_def workers_ok_def demo_registry_def registry_init_def)
  ultimately show ?thesis
    by (auto simp: bt_inv_def demo_registry_def registry_init_def agent_def ref_ok_def fighter_def
        valid_def CombatComp_default_def AggroComp_default_def split: if_splits)
qed

theorem SystemBehaviorTree_safe_witness:
  "\<exists>w'. SystemBehaviorTree demo_env (demo_world demo_registry) = Some w' \<and> bt_inv (reg w')"
  using SystemBehaviorTree_safe [of "demo_world demo_registry"] demo_registry_inv
  by (simp add: demo_world_def) blast

end
