(* ===== verification/Perception.thy ===== *)
theory Perception
  imports BehaviorInv
begin

text \<open>
  Aggression (\<open>SystemPerception\<close> of \<open>SystemSocial.cpp\<close>): every entity with a faction looks
  at its neighbours in the spatial hash, picks the one that provokes it most, and raises or
  lowers its aggression score. The section on composition shows that the threats it sets are
  targets the behaviour trees can handle.
\<close>

section \<open>The scan\<close>

definition PERCEPTION_RANGE :: fl where "PERCEPTION_RANGE = flit 20"

definition hostile_pair :: "string \<Rightarrow> string \<Rightarrow> bool" where
  "hostile_pair a b \<longleftrightarrow> a = ''Wolf'' \<and> b = ''Human'' \<or> a = ''Human'' \<and> b = ''Wolf'' \<or>
     a = ''Goblin'' \<and> b = ''Human'' \<or> a = ''Human'' \<and> b = ''Goblin''"

definition bandit_pair :: "string \<Rightarrow> string \<Rightarrow> bool" where
  "bandit_pair a b \<longleftrightarrow> a = ''Bandit'' \<and> b = ''Human'' \<or> a = ''Human'' \<and> b = ''Bandit''"

definition liking_of :: "registry \<Rightarrow> entity \<Rightarrow> u32 \<Rightarrow> RelationshipEntry option" where
  "liking_of r e i = (case relationships r e of None \<Rightarrow> None | Some rels \<Rightarrow> map_of rels i)"

definition threat_gain :: "registry \<Rightarrow> entity \<Rightarrow> string \<Rightarrow> string \<Rightarrow> u32 \<Rightarrow> int" where
  "threat_gain r e mine theirs n_npc_id =
     (if mine \<noteq> theirs
      then if hostile_pair mine theirs then 100 else if bandit_pair mine theirs then 25 else 0
      else case liking_of r e n_npc_id of
             Some rel \<Rightarrow> if liking rel \<le> -50 then 5 else 0
           | None \<Rightarrow> 0)"

definition exempt :: "registry \<Rightarrow> entity \<Rightarrow> u32 \<Rightarrow> bool" where
  "exempt r e n_npc_id =
     (case cooldown r e of
        None \<Rightarrow> False
      | Some cd \<Rightarrow> (case cooldown_per_target cd n_npc_id of
            None \<Rightarrow> False
          | Some until \<Rightarrow>
              (case bt_context_tick r of None \<Rightarrow> 0 | Some tick \<Rightarrow> tick) < until))"

definition is_corpse :: "registry \<Rightarrow> entity \<Rightarrow> bool" where
  "is_corpse r e = (case health r e of None \<Rightarrow> False | Some h \<Rightarrow> is_dead h)"

text \<open>One neighbour: \<open>best\<close> is the best threat so far and its gain.\<close>

definition consider_threat ::
  "registry \<Rightarrow> entity \<Rightarrow> string \<Rightarrow> entity \<Rightarrow> entity option \<times> int \<Rightarrow> entity option \<times> int" where
  "consider_threat r e mine n best =
     (if n = e \<or> \<not> valid r n \<or> \<not> has (health r) n \<or> is_corpse r n then best
      else let n_npc_id = (case identity r n of None \<Rightarrow> 0 | Some i \<Rightarrow> npc_id i);
               n_faction = (case faction r n of None \<Rightarrow> ''Human'' | Some f \<Rightarrow> f)
           in if exempt r e n_npc_id then best
              else let gain = threat_gain r e mine n_faction n_npc_id
                   in if gain > snd best then (Some n, gain) else best)"

definition best_threat :: "registry \<Rightarrow> entity \<Rightarrow> string \<Rightarrow> entity list \<Rightarrow> entity option \<times> int" where
  "best_threat r e mine ns = fold (consider_threat r e mine) ns (None, 0)"

definition update_aggro :: "entity option \<times> int \<Rightarrow> AggroComp \<Rightarrow> AggroComp" where
  "update_aggro best a =
     (case fst best of
        Some t \<Rightarrow> a\<lparr>threat_entity := Some t, aggro_score := min 100 (aggro_score a + snd best)\<rparr>
      | None \<Rightarrow>
          if aggro_score a > 0
          then let a1 = a\<lparr>aggro_score := max 0 (aggro_score a - 10)\<rparr>
               in if aggro_score a1 = 0 then a1\<lparr>threat_entity := None, is_inhibited := False\<rparr> else a1
          else a)"

definition perceive :: "registry \<Rightarrow> location_registry \<Rightarrow> entity \<Rightarrow> AggroComp \<Rightarrow> LocationComp \<Rightarrow> string \<Rightarrow> AggroComp" where
  "perceive r g e a loc mine =
     (if (case combat r e of None \<Rightarrow> False | Some c \<Rightarrow> valid_ref r (target_entity c))
      then a\<lparr>aggro_score := 0, is_inhibited := False\<rparr>
      else if is_corpse r e then a\<lparr>aggro_score := 0, threat_entity := None, is_inhibited := False\<rparr>
      else update_aggro (best_threat r e mine
             (GetNearbyEntities g (lc_x loc) (lc_z loc) PERCEPTION_RANGE r)) a)"

definition perception_tick :: "entity \<Rightarrow> world \<Rightarrow> world option" where
  "perception_tick e w = do {
     loc \<leftarrow> location (reg w) e;
     a \<leftarrow> aggro (reg w) e;
     mine \<leftarrow> faction (reg w) e;
     Some (put_aggro e (perceive (reg w) (grid_reg w) e a loc mine) w)
   }"

definition SystemPerception :: "env \<Rightarrow> world \<Rightarrow> world option" where
  "SystemPerception env w =
     view_each env (\<lambda>r e. has (location r) e \<and> has (aggro r) e \<and> has (faction r) e)
       perception_tick w"

section \<open>Facts on the scan\<close>

lemma threat_gain_bounds: "0 \<le> threat_gain r e m t i \<and> threat_gain r e m t i \<le> 100"
  by (auto simp: threat_gain_def split: option.split)

text \<open>What the chosen threat is, and that its gain is the largest.\<close>

definition candidate :: "registry \<Rightarrow> entity \<Rightarrow> entity \<Rightarrow> bool" where
  "candidate r e n \<longleftrightarrow> n \<noteq> e \<and> valid r n \<and> has (health r) n \<and> \<not> is_corpse r n"

definition best_ok :: "registry \<Rightarrow> entity \<Rightarrow> entity list \<Rightarrow> entity option \<times> int \<Rightarrow> bool" where
  "best_ok r e ns best \<longleftrightarrow> 0 \<le> snd best \<and> snd best \<le> 100 \<and>
     (case fst best of None \<Rightarrow> snd best = 0 | Some n \<Rightarrow> n \<in> set ns \<and> candidate r e n)"

lemma consider_threat_ok:
  "best_ok r e ns best \<Longrightarrow> best_ok r e (ns @ [n]) (consider_threat r e m n best)"
  using threat_gain_bounds [of r e m]
  by (auto simp: best_ok_def consider_threat_def candidate_def Let_def split: option.splits)

lemma best_threat_ok: "best_ok r e ns (best_threat r e m ns)"
proof (induction ns rule: rev_induct)
  case Nil
  then show ?case by (simp add: best_threat_def best_ok_def)
next
  case (snoc n ns)
  then show ?case using consider_threat_ok [of r e ns "best_threat r e m ns" n m]
    by (simp add: best_threat_def)
qed

lemma consider_threat_mono: "snd best \<le> snd (consider_threat r e m n best)"
  by (auto simp: consider_threat_def Let_def)

lemma best_threat_ge:
  assumes "n \<in> set ns" "candidate r e n" "identity r n = Some ident" "faction r n = Some f"
    "\<not> exempt r e (npc_id ident)"
  shows "threat_gain r e m f (npc_id ident) \<le> snd (best_threat r e m ns)"
  using assms(1)
proof (induction ns rule: rev_induct)
  case (snoc x ns)
  have step: "snd (best_threat r e m (ns @ [x])) = snd (consider_threat r e m x (best_threat r e m ns))"
    by (simp add: best_threat_def)
  show ?case
  proof (cases "x = n")
    case True
    with assms(2-) show ?thesis
      unfolding step by (auto simp: consider_threat_def candidate_def Let_def)
  next
    case False
    with snoc have "threat_gain r e m f (npc_id ident) \<le> snd (best_threat r e m ns)" by simp
    then show ?thesis unfolding step using consider_threat_mono order_trans by blast
  qed
qed simp


section \<open>Composition with the behaviour trees\<close>

text \<open>Whatever has health has an identity.\<close>

definition bodies_ok :: "registry \<Rightarrow> bool" where
  "bodies_ok r \<longleftrightarrow> (\<forall>e. has (health r) e \<longrightarrow> has (identity r) e)"

definition aggro_ok :: "registry \<Rightarrow> bool" where
  "aggro_ok r \<longleftrightarrow> (\<forall>e a. aggro r e = Some a \<longrightarrow> 0 \<le> aggro_score a \<and> aggro_score a \<le> 100)"

lemma GetNearbyEntities_located: "n \<in> set (GetNearbyEntities g x z rad r) \<Longrightarrow> \<exists>l. location r n = Some l"
  by (auto simp: GetNearbyEntities_def in_range_def split: option.splits)

lemma candidate_ref_ok:
  "bt_inv r \<Longrightarrow> bodies_ok r \<Longrightarrow> candidate r e n \<Longrightarrow> has (location r) n \<Longrightarrow> ref_ok r (Some n)"
  by (auto simp: bt_inv_def fresh_ok_def bodies_ok_def candidate_def ref_ok_def fighter_def valid_def)
    (meson not_less)

lemma perceive_ok:
  assumes i: "bt_inv r" and b: "bodies_ok r" and a: "ref_ok r (threat_entity a)"
    and s: "0 \<le> aggro_score a" "aggro_score a \<le> 100"
  shows "ref_ok r (threat_entity (perceive r g e a loc m)) \<and>
    0 \<le> aggro_score (perceive r g e a loc m) \<and> aggro_score (perceive r g e a loc m) \<le> 100"
proof -
  define ns where "ns = GetNearbyEntities g (lc_x loc) (lc_z loc) PERCEPTION_RANGE r"
  have bt: "best_ok r e ns (best_threat r e m ns)" by (rule best_threat_ok)
  have "ref_ok r (Some n)" if "fst (best_threat r e m ns) = Some n" for n
    using bt that candidate_ref_ok [OF i b] GetNearbyEntities_located
    by (auto simp: best_ok_def ns_def)
  with bt a s show ?thesis
    by (auto simp: perceive_def ns_def [symmetric] update_aggro_def Let_def best_ok_def split: option.split)
qed

lemma perception_tick_total:
  assumes i: "bt_inv (reg w) \<and> bodies_ok (reg w) \<and> aggro_ok (reg w)"
    and h: "has (location (reg w)) e" "has (aggro (reg w)) e" "has (faction (reg w)) e"
  shows "\<exists>w'. perception_tick e w = Some w' \<and>
    bt_inv (reg w') \<and> bodies_ok (reg w') \<and> aggro_ok (reg w')"
proof -
  obtain loc a m where c: "location (reg w) e = Some loc" "aggro (reg w) e = Some a"
    "faction (reg w) e = Some m" using h by auto
  define a' where "a' = perceive (reg w) (grid_reg w) e a loc m"
  have a: "ref_ok (reg w) (threat_entity a')" "0 \<le> aggro_score a'" "aggro_score a' \<le> 100"
    using perceive_ok [of "reg w" a "grid_reg w" e loc m] i c(2) bt_inv_refs(2) [of "reg w" e a]
    by (auto simp: a'_def aggro_ok_def)
  have "bt_inv (reg (put_aggro e a' w))"
    by (rule target_bt_inv [of "reg w"])
      (use i a in \<open>auto simp: put_aggro_def quiet_def occupied_def split: if_splits intro: bt_inv_refs\<close>)
  moreover have "bodies_ok (reg (put_aggro e a' w))" "aggro_ok (reg (put_aggro e a' w))"
    using i a by (auto simp: put_aggro_def bodies_ok_def aggro_ok_def)
  ultimately show ?thesis using c by (simp add: perception_tick_def a'_def)
qed

lemma SystemPerception_total:
  assumes "bt_inv (reg w)" "bodies_ok (reg w)" "aggro_ok (reg w)"
  shows "\<exists>w'. SystemPerception env w = Some w' \<and>
    bt_inv (reg w') \<and> bodies_ok (reg w') \<and> aggro_ok (reg w')"
proof -
  have "\<exists>w'. SystemPerception env w = Some w' \<and>
      (\<lambda>w. bt_inv (reg w) \<and> bodies_ok (reg w) \<and> aggro_ok (reg w)) w'"
    unfolding SystemPerception_def view_each_def
    by (rule foldM_total) (use assms perception_tick_total in \<open>auto split: if_splits\<close>)
  then show ?thesis by blast
qed



section \<open>Enemies on sight\<close>



definition wolf_registry :: registry where
  "wolf_registry = registry_init\<lparr>live := [0, 1], next_entity := 2,
     identity := [0 \<mapsto> \<lparr>npc_id = 1, display_name = ''Eva''\<rparr>, 1 \<mapsto> \<lparr>npc_id = 2, display_name = ''Wolf''\<rparr>],
     location := [0 \<mapsto> LocationComp_default, 1 \<mapsto> LocationComp_default],
     health := [0 \<mapsto> HealthComp_default, 1 \<mapsto> HealthComp_default],
     faction := [0 \<mapsto> ''Human'', 1 \<mapsto> ''Wolf''], aggro := [1 \<mapsto> AggroComp_default]\<rparr>"

definition wolf_grid :: location_registry where
  "wolf_grid = place_entity 0 (GetCellKey (Fin 0) (Fin 0))
     (place_entity 1 (GetCellKey (Fin 0) (Fin 0)) LocationRegistry_init)"


end
