(* ===== verification/Emotion.thy ===== *)
theory Emotion
  imports World
begin

text \<open>
  Emotions (\<open>SystemEmotionDecay\<close> of \<open>SystemSocial.cpp\<close>): the registry of emotion names, the
  return of an emotion to the base emotion, and the contagion of anxiety and alertness from
  the negative emotions of a zone. The registration of a new emotion name is shared with the
  completion of a dialogue.
\<close>

section \<open>The emotion registry\<close>

text \<open>An unknown name takes the size of the tables, cut to 8 bits, as its id.\<close>

definition register_emotion :: "string \<Rightarrow> int \<Rightarrow> EmotionCategory \<Rightarrow> EmotionRegistry \<Rightarrow> u8 \<times> EmotionRegistry" where
  "register_emotion name ticks cat er =
     (case name_to_id er name of
        Some i \<Rightarrow> (i, er)
      | None \<Rightarrow>
          let i = word_of_nat (length (decay_ticks_table er))
          in (i, er\<lparr>name_to_id := (name_to_id er)(name \<mapsto> i),
                    decay_ticks_table := decay_ticks_table er @ [ticks],
                    category_table := category_table er @ [cat]\<rparr>))"

text \<open>\<open>category_table[id]\<close> where the code tests the bound first.\<close>

definition category_of :: "EmotionRegistry \<Rightarrow> u8 \<Rightarrow> EmotionCategory" where
  "category_of er i = (if unat i < length (category_table er) then category_table er ! unat i
                       else EcNeutral)"

section \<open>Decay\<close>

definition decay_emotion :: "EmotionComp \<Rightarrow> EmotionComp" where
  "decay_emotion emo =
     (if decay_ticks_remaining emo > 0
      then let e1 = emo\<lparr>decay_ticks_remaining := decay_ticks_remaining emo - 1\<rparr>
           in if decay_ticks_remaining e1 = 0 \<and> current_emotion_id e1 \<noteq> base_emotion_id e1
              then e1\<lparr>current_emotion := base_emotion e1, current_emotion_id := base_emotion_id e1\<rparr>
              else e1
      else emo)"

section \<open>Contagion\<close>

text \<open>The ids of the negative emotions in each zone, in the order of the scan.\<close>

definition zone_negative_emotions :: "env \<Rightarrow> EmotionRegistry \<Rightarrow> registry \<Rightarrow> u32 \<Rightarrow> u8 list" where
  "zone_negative_emotions env er r z =
     concat (List.map (\<lambda>e. case (location r e, emotion r e) of
         (Some loc, Some emo) \<Rightarrow>
           if zone_id loc = z \<and> category_of er (current_emotion_id emo) \<noteq> EcNeutral
           then [current_emotion_id emo] else []
       | _ \<Rightarrow> []) (order env r))"

text \<open>The ids of anxiety and alertness, registered when the first contagion is considered.\<close>

definition cached_ids :: "world \<Rightarrow> EmotionRegistry \<Rightarrow> (u8 \<times> u8) \<times> world" where
  "cached_ids w er =
     (case contagion_ids w of
        Some ids \<Rightarrow> (ids, w)
      | None \<Rightarrow>
          let (anxiety, er1) = register_emotion lit_anxiety 5 EcNeutral er;
              (alert, er2) = register_emotion lit_alertness 5 EcNeutral er1
          in ((anxiety, alert), w\<lparr>contagion_ids := Some (anxiety, alert),
                                 reg := (reg w)\<lparr>emotion_registry := Some er2\<rparr>\<rparr>))"

definition infect_chance :: "nat \<Rightarrow> fl" where
  "infect_chance n =
     (let c = fmul (of_i32 (int n)) (flit 0.15) in if flt (flit 0.45) c then flit 0.45 else c)"

definition infected :: "EmotionRegistry \<Rightarrow> u8 \<times> u8 \<Rightarrow> u8 \<Rightarrow> EmotionComp \<Rightarrow> EmotionComp" where
  "infected er ids source emo =
     (let hostile = (category_of er source = EcHostility)
      in emo\<lparr>current_emotion := (if hostile then lit_alertness else lit_anxiety),
             current_emotion_id := (if hostile then snd ids else fst ids),
             decay_ticks_remaining := 5\<rparr>)"

definition contagion :: "entity \<Rightarrow> u8 list \<Rightarrow> EmotionComp \<Rightarrow> world \<Rightarrow> world option" where
  "contagion e neg emo w = do {
     er \<leftarrow> emotion_registry (reg w);
     let (ids, w1) = cached_ids w er;
     er1 \<leftarrow> emotion_registry (reg w1);
     if current_emotion_id emo = base_emotion_id emo \<and> current_emotion_id emo \<noteq> fst ids
        \<and> current_emotion_id emo \<noteq> snd ids
     then (let (d, w2) = draw_contagion w1
           in Some (if flt d (infect_chance (length neg))
                    then put_emotion e (infected er1 ids (hd neg) emo) w2 else w2))
     else Some w1
   }"

definition emotion_tick :: "(u32 \<Rightarrow> u8 list) \<Rightarrow> entity \<Rightarrow> world \<Rightarrow> world option" where
  "emotion_tick zones e w = do {
     emo0 \<leftarrow> emotion (reg w) e;
     ident \<leftarrow> identity (reg w) e;
     let emo = decay_emotion emo0;
     let w1 = put_emotion e emo w;
     case location (reg w1) e of
       None \<Rightarrow> Some w1
     | Some loc \<Rightarrow> if zones (zone_id loc) \<noteq> [] then contagion e (zones (zone_id loc)) emo w1 else Some w1
   }"

definition SystemEmotionDecay :: "env \<Rightarrow> world \<Rightarrow> world option" where
  "SystemEmotionDecay env w =
     (case emotion_registry (reg w) of
        None \<Rightarrow> Some w
      | Some er \<Rightarrow>
          let zones = zone_negative_emotions env er (reg w)
          in view_each env (\<lambda>r e. has (emotion r) e \<and> has (identity r) e \<and> \<not> has (busy r) e)
               (emotion_tick zones) w)"


section \<open>The registry stays consistent\<close>

definition emotions_ok :: "EmotionRegistry \<Rightarrow> bool" where
  "emotions_ok er \<longleftrightarrow> length (category_table er) = length (decay_ticks_table er) \<and>
     (\<forall>n i. name_to_id er n = Some i \<longrightarrow> unat i < length (decay_ticks_table er)) \<and>
     (\<forall>m n i. name_to_id er m = Some i \<longrightarrow> name_to_id er n = Some i \<longrightarrow> m = n)"

lemma unat_u8_of_nat: "n < 256 \<Longrightarrow> unat (word_of_nat n :: u8) = n"
  by (simp add: unat_of_nat)

lemma register_emotion_ok:
  assumes "emotions_ok er" "length (decay_ticks_table er) < 256" "register_emotion n t c er = (i, er')"
  shows "emotions_ok er' \<and> name_to_id er' n = Some i \<and> unat i < length (decay_ticks_table er') \<and>
    length (decay_ticks_table er) \<le> length (decay_ticks_table er') \<and>
    length (decay_ticks_table er') \<le> length (decay_ticks_table er) + 1 \<and>
    name_to_id er \<subseteq>\<^sub>m name_to_id er' \<and>
    (\<forall>j. unat j < length (decay_ticks_table er) \<longrightarrow> category_of er' j = category_of er j)"
proof (cases "name_to_id er n")
  case (Some j)
  with assms show ?thesis by (auto simp: register_emotion_def emotions_ok_def)
next
  case None
  define k where "k = length (decay_ticks_table er)"
  have u: "unat (word_of_nat k :: u8) = k" using assms(2) by (simp add: unat_u8_of_nat k_def)
  have i: "i = word_of_nat k" and er': "er' = er\<lparr>name_to_id := (name_to_id er)(n \<mapsto> word_of_nat k),
      decay_ticks_table := decay_ticks_table er @ [t], category_table := category_table er @ [c]\<rparr>"
    using None assms(3) by (auto simp: register_emotion_def Let_def k_def)
  have new: "name_to_id er m \<noteq> Some (word_of_nat k)" for m
    using assms(1) u by (metis emotions_ok_def k_def less_irrefl)
  show ?thesis
    using assms(1) None u new
    by (auto simp: emotions_ok_def er' i k_def [symmetric] map_le_def dom_def category_of_def
        nth_append less_Suc_eq)
qed

text \<open>The id wraps when 256 emotions are known: the new name shares the id of the first one.\<close>

lemma register_emotion_wraps:
  "name_to_id er n = None \<Longrightarrow> length (decay_ticks_table er) = 256 \<Longrightarrow>
     fst (register_emotion n t c er) = 0"
  by (simp add: register_emotion_def Let_def)

section \<open>No undefined behaviour, and consistent ids\<close>

definition emo_ids_ok :: "EmotionRegistry \<Rightarrow> EmotionComp \<Rightarrow> bool" where
  "emo_ids_ok er emo \<longleftrightarrow> unat (current_emotion_id emo) < length (decay_ticks_table er) \<and>
     unat (base_emotion_id emo) < length (decay_ticks_table er) \<and> 0 \<le> decay_ticks_remaining emo"

definition emo_inv :: "world \<Rightarrow> bool" where
  "emo_inv w \<longleftrightarrow> (\<exists>er. emotion_registry (reg w) = Some er \<and> emotions_ok er \<and>
     (\<forall>e emo. emotion (reg w) e = Some emo \<longrightarrow> emo_ids_ok er emo) \<and>
     (case contagion_ids w of
        None \<Rightarrow> length (decay_ticks_table er) \<le> 254
      | Some (a, b) \<Rightarrow> name_to_id er lit_anxiety = Some a \<and> name_to_id er lit_alertness = Some b))"

lemma decay_emotion_ok: "emo_ids_ok er emo \<Longrightarrow> emo_ids_ok er (decay_emotion emo)"
  by (auto simp: emo_ids_ok_def decay_emotion_def Let_def)

lemma put_emotion_inv:
  "emo_inv w \<Longrightarrow> emotion_registry (reg w) = Some er \<Longrightarrow> emo_ids_ok er emo \<Longrightarrow> emo_inv (put_emotion e emo w)"
  by (auto simp: emo_inv_def put_defs)

lemma cached_ids_ok:
  assumes i: "emo_inv w" and er: "emotion_registry (reg w) = Some er"
    and c: "cached_ids w er = ((a, b), w1)"
  shows "emo_inv w1 \<and> emotion (reg w1) = emotion (reg w) \<and> (\<exists>er1. emotion_registry (reg w1) = Some er1 \<and>
    name_to_id er1 lit_anxiety = Some a \<and> name_to_id er1 lit_alertness = Some b \<and>
    length (decay_ticks_table er) \<le> length (decay_ticks_table er1))"
proof (cases "contagion_ids w")
  case (Some ids)
  with assms show ?thesis by (auto simp: cached_ids_def emo_inv_def)
next
  case None
  have ok: "emotions_ok er" "length (decay_ticks_table er) \<le> 254"
    and ids: "\<And>e emo. emotion (reg w) e = Some emo \<Longrightarrow> emo_ids_ok er emo"
    using i er None by (auto simp: emo_inv_def)
  obtain a1 er1 where r1: "register_emotion lit_anxiety 5 EcNeutral er = (a1, er1)" by fastforce
  obtain b1 er2 where r2: "register_emotion lit_alertness 5 EcNeutral er1 = (b1, er2)" by fastforce
  have f1: "emotions_ok er1" "name_to_id er1 lit_anxiety = Some a1"
    "length (decay_ticks_table er) \<le> length (decay_ticks_table er1)"
    "length (decay_ticks_table er1) \<le> length (decay_ticks_table er) + 1"
    using register_emotion_ok [OF ok(1) _ r1] ok(2) by auto
  have f2: "emotions_ok er2" "name_to_id er2 lit_alertness = Some b1" "name_to_id er1 \<subseteq>\<^sub>m name_to_id er2"
    "length (decay_ticks_table er1) \<le> length (decay_ticks_table er2)"
    using register_emotion_ok [OF f1(1) _ r2] f1(4) ok(2) by auto
  have a1: "name_to_id er2 lit_anxiety = Some a1"
    using f1(2) f2(3) by (metis domI map_le_def)
  have w1: "a = a1" "b = b1" "w1 = w\<lparr>contagion_ids := Some (a1, b1),
      reg := (reg w)\<lparr>emotion_registry := Some er2\<rparr>\<rparr>"
    using c None r1 r2 by (auto simp: cached_ids_def)
  have "emo_ids_ok er2 emo" if "emotion (reg w) e = Some emo" for e emo
    using ids [OF that] f1(3) f2(4) by (auto simp: emo_ids_ok_def)
  with f1 f2 a1 show ?thesis by (auto simp: w1 emo_inv_def)
qed

lemma contagion_ok:
  assumes i: "emo_inv w" and e: "emotion (reg w) e = Some emo"
  shows "\<exists>w'. contagion e neg emo w = Some w' \<and> emo_inv w'"
proof -
  obtain er where er: "emotion_registry (reg w) = Some er" using i by (auto simp: emo_inv_def)
  obtain a b w1 where c: "cached_ids w er = ((a, b), w1)" by (metis prod.collapse)
  note co = cached_ids_ok [OF i er c]
  then obtain er1 where er1: "emotion_registry (reg w1) = Some er1"
    "name_to_id er1 lit_anxiety = Some a" "name_to_id er1 lit_alertness = Some b"
    "emotions_ok er1" and em: "emotion (reg w1) e = Some emo"
    using e by (auto simp: emo_inv_def)
  have base: "emo_ids_ok er1 emo" using co em er1(1) by (auto simp: emo_inv_def)
  have "emo_ids_ok er1 (infected er1 (a, b) s emo)" for s
    using base er1 by (auto simp: emo_ids_ok_def infected_def Let_def emotions_ok_def)
  moreover define w2 where "w2 = snd (draw_contagion w1)"
  have "emo_inv w2" "emotion_registry (reg w2) = Some er1"
    using co er1(1) by (auto simp: w2_def draw_contagion_def emo_inv_def)
  ultimately have "emo_inv (put_emotion e (infected er1 (a, b) (hd neg) emo) w2)"
    by (metis put_emotion_inv)
  with co \<open>emo_inv w2\<close> er c er1(1) show ?thesis
    by (auto simp: contagion_def Let_def w2_def split: prod.split)
qed

lemma emotion_tick_ok:
  assumes i: "emo_inv w" and e: "has (emotion (reg w)) e" "has (identity (reg w)) e"
  shows "\<exists>w'. emotion_tick zones e w = Some w' \<and> emo_inv w'"
proof -
  obtain emo0 ident where c: "emotion (reg w) e = Some emo0" "identity (reg w) e = Some ident"
    using e by auto
  obtain er where er: "emotion_registry (reg w) = Some er" "emo_ids_ok er emo0"
    using i c by (auto simp: emo_inv_def)
  define w1 where "w1 = put_emotion e (decay_emotion emo0) w"
  have i1: "emo_inv w1" unfolding w1_def by (rule put_emotion_inv [OF i er(1) decay_emotion_ok [OF er(2)]])
  have e1: "emotion (reg w1) e = Some (decay_emotion emo0)" by (simp add: w1_def put_defs)
  from contagion_ok [OF i1 e1] i1 c show ?thesis
    by (simp add: emotion_tick_def w1_def [symmetric] Let_def split: option.split)
qed


section \<open>Properties of the emotion system\<close>

text \<open>C20: No undefined behaviour and no dangling emotion id: while at most 254 emotions are known
  when the two contagious ones are first needed, the tables of the emotion registry have the
  same length, names and ids determine each other, and every emotion id an entity holds
  indexes the tables; a tick of the emotion system keeps all of this.\<close>

theorem SystemEmotionDecay_safe:
  assumes "emo_inv w"
  shows "\<exists>w'. SystemEmotionDecay env w = Some w' \<and> emo_inv w'"
proof (cases "emotion_registry (reg w)")
  case None
  with assms show ?thesis by (auto simp: emo_inv_def)
next
  case (Some er)
  show ?thesis
    unfolding SystemEmotionDecay_def Some option.case Let_def view_each_def
    by (rule foldM_total [where I = emo_inv, OF assms])
      (use emotion_tick_ok in \<open>auto split: if_splits\<close>)
qed

text \<open>Two villagers of one zone, one of them hostile, and a registry of three emotions.\<close>

definition demo_emotions :: EmotionRegistry where
  "demo_emotions = snd (register_emotion lit_fear 5 EcFear (snd (register_emotion lit_hostility 5 EcHostility
     (snd (register_emotion lit_calm 0 EcNeutral
        \<lparr>name_to_id = Map.empty, decay_ticks_table = [], category_table = []\<rparr>)))))"

definition demo_mood :: "registry \<Rightarrow> registry" where
  "demo_mood r = r\<lparr>live := [0, 1], next_entity := 2, emotion_registry := Some demo_emotions,
     identity := [0 \<mapsto> \<lparr>npc_id = 1, display_name = ''Eva''\<rparr>, 1 \<mapsto> \<lparr>npc_id = 2, display_name = ''Bo''\<rparr>],
     location := [0 \<mapsto> LocationComp_default, 1 \<mapsto> LocationComp_default],
     emotion := [0 \<mapsto> \<lparr>current_emotion = lit_calm, base_emotion = lit_calm, current_emotion_id = 0,
         base_emotion_id = 0, decay_ticks_remaining = 0\<rparr>,
       1 \<mapsto> \<lparr>current_emotion = lit_hostility, base_emotion = lit_calm, current_emotion_id = 1,
         base_emotion_id = 0, decay_ticks_remaining = 2\<rparr>]\<rparr>"

definition mood_world :: world where
  "mood_world = \<lparr>reg = demo_mood registry_init, grid_reg = LocationRegistry_init, tcp = TcpServer_init,
     backpressure = (\<lambda>_. bp_init), outbox = [], rands = (\<lambda>_. 0), dice = (\<lambda>_. Fin 0),
     contagion_dice = (\<lambda>_. Fin 0), disc_draws = (\<lambda>_. (Fin 0, Fin 0)), shuffles = 0,
     contagion_ids = None\<rparr>"

definition live_env :: env where
  "live_env = \<lparr>order = live, cos_f = (\<lambda>x. x), sin_f = (\<lambda>x. x), entity_int = int,
     walk_map = GridMap_init, shuffled = (\<lambda>_ xs. xs), encode = (\<lambda>_. []),
     parse_login = (\<lambda>_. None), parse_move = (\<lambda>_. None), parse_talk = (\<lambda>_. None),
     parse_message = (\<lambda>_. None), parse_end = (\<lambda>_. None), parse_status = (\<lambda>_. None)\<rparr>"

lemma demo_emotions_eq:
  "demo_emotions = \<lparr>name_to_id = [lit_calm \<mapsto> 0, lit_hostility \<mapsto> 1, lit_fear \<mapsto> 2],
     decay_ticks_table = [0, 5, 5], category_table = [EcNeutral, EcHostility, EcFear]\<rparr>"
proof -
  have "lit_hostility \<noteq> lit_calm" "lit_fear \<noteq> lit_calm" "lit_fear \<noteq> lit_hostility" by code_simp+
  then show ?thesis by (simp add: demo_emotions_def register_emotion_def)
qed

lemma mood_world_inv: "emo_inv mood_world"
proof -
  have "lit_hostility \<noteq> lit_calm" "lit_fear \<noteq> lit_calm" "lit_fear \<noteq> lit_hostility" by code_simp+
  then have "emotions_ok demo_emotions"
    by (auto simp: emotions_ok_def demo_emotions_eq split: if_splits)
  then show ?thesis
    by (auto simp: emo_inv_def mood_world_def demo_mood_def demo_emotions_eq emo_ids_ok_def split: if_splits)
qed

theorem SystemEmotionDecay_safe_witness:
  "\<exists>w'. SystemEmotionDecay live_env mood_world = Some w' \<and> emo_inv w'"
  by (rule SystemEmotionDecay_safe [OF mood_world_inv])

text \<open>An emotion lasts exactly as many ticks as its counter says and then gives way to the
  base emotion: before that the decay leaves it in place, and from then on the entity holds
  its base emotion with the counter at zero.\<close>

theorem emotion_lasts:
  assumes "0 < decay_ticks_remaining emo" "current_emotion_id emo \<noteq> base_emotion_id emo"
  shows "(int k < decay_ticks_remaining emo \<longrightarrow>
      (decay_emotion ^^ k) emo = emo\<lparr>decay_ticks_remaining := decay_ticks_remaining emo - int k\<rparr>) \<and>
    (decay_ticks_remaining emo \<le> int k \<longrightarrow> (decay_emotion ^^ k) emo =
      emo\<lparr>current_emotion := base_emotion emo, current_emotion_id := base_emotion_id emo,
          decay_ticks_remaining := 0\<rparr>)"
proof (induction k)
  case 0
  with assms show ?case by simp
next
  case (Suc k)
  consider "int (Suc k) < decay_ticks_remaining emo" | "decay_ticks_remaining emo = int (Suc k)"
    | "decay_ticks_remaining emo \<le> int k" by linarith
  then show ?case
    by cases (use assms Suc in \<open>auto simp: decay_emotion_def Let_def\<close>)
qed

theorem emotion_lasts_witness:
  "(decay_emotion ^^ 2) \<lparr>current_emotion = lit_fear, base_emotion = lit_calm, current_emotion_id = 2,
      base_emotion_id = 0, decay_ticks_remaining = 2\<rparr> =
   \<lparr>current_emotion = lit_calm, base_emotion = lit_calm, current_emotion_id = 0,
      base_emotion_id = 0, decay_ticks_remaining = 0\<rparr>"
  using emotion_lasts [of "\<lparr>current_emotion = lit_fear, base_emotion = lit_calm, current_emotion_id = 2,
      base_emotion_id = 0, decay_ticks_remaining = 2\<rparr>" 2] by simp

end
