(* ===== verification/Social.thy ===== *)
theory Social
  imports World
begin

text \<open>
  The start of dialogues (\<open>SystemSocialInteraction\<close> of \<open>SystemSocial.cpp\<close>,
  \<open>IsNPCFocusedOnActivity\<close> of \<open>Systems.h\<close>): recovery of social energy, the choice of an
  initiator and a target, acceptance, and the joining of others. What happens when the AI
  server answers is in \<open>Dialogue\<close>.
\<close>

section \<open>Parameters of a meeting\<close>

definition GetLocationSocialModifier :: "LocationType \<Rightarrow> fl" where
  "GetLocationSocialModifier t = (case t of
       LtPub \<Rightarrow> flit 1.8 | LtMarket \<Rightarrow> flit 1.5 | LtSquare \<Rightarrow> flit 1.2 | LtChurch \<Rightarrow> flit 0.3
     | _ \<Rightarrow> flit 1)"

definition IsNPCFocusedOnActivity :: "string \<Rightarrow> fl \<Rightarrow> bool" where
  "IsNPCFocusedOnActivity act roll =
     (if contains lit_sleeping act \<or> contains lit_resting act then True
      else if contains lit_praying act \<or> contains lit_meditating act then flt roll (rnd F64 0.8)
      else False)"

definition recover_energy :: "int \<Rightarrow> LocationComp \<Rightarrow> CooldownComp \<Rightarrow> CooldownComp" where
  "recover_energy tick loc cd =
     (if (loc_type loc = LtPub \<or> tick mod 10 = 0) \<and> social_energy cd < max_social_energy cd
      then cd\<lparr>social_energy := min (max_social_energy cd) (social_energy cd + 1)\<rparr>
      else cd)"

definition extroversion :: "registry \<Rightarrow> entity \<Rightarrow> fl" where
  "extroversion r e = get_or (flit 0.5) (personality r) e"

definition relation_to :: "registry \<Rightarrow> entity \<Rightarrow> u32 \<Rightarrow> RelationshipEntry option" where
  "relation_to r e i = (case relationships r e of None \<Rightarrow> None | Some rels \<Rightarrow> map_of rels i)"

definition liking_to :: "registry \<Rightarrow> entity \<Rightarrow> u32 \<Rightarrow> int" where
  "liking_to r e i = (case relation_to r e i of None \<Rightarrow> 0 | Some rel \<Rightarrow> liking rel)"

text \<open>\<open>if (p < lo) p = lo; if (p > hi) p = hi;\<close>\<close>

definition clamp_prob :: "fl \<Rightarrow> fl \<Rightarrow> fl \<Rightarrow> fl" where
  "clamp_prob lo hi p = (let p1 = (if flt p lo then lo else p) in if flt hi p1 then hi else p1)"

definition initiation_prob :: "fl \<Rightarrow> fl \<Rightarrow> fl" where
  "initiation_prob ext modifier =
     clamp_prob (flit 0.02) (flit 0.6) (fmul (fmul (flit 0.6) (fadd (flit 0.3) ext)) modifier)"

definition accept_prob :: "fl \<Rightarrow> int \<Rightarrow> fl \<Rightarrow> fl" where
  "accept_prob ext like modifier =
     clamp_prob (flit 0.1) (flit 0.95)
       (fadd (fadd (fadd (flit 0.5) (fmul ext (flit 0.25))) (fdiv (of_i32 like) (flit 200)))
         (fmul (fsub modifier (flit 1)) (flit 0.15)))"

definition join_prob :: "fl \<Rightarrow> fl \<Rightarrow> fl \<Rightarrow> nat \<Rightarrow> fl" where
  "join_prob ext avg_liking avg_trust grp =
     clamp_prob (Fin 0) (flit 0.5)
       (fmul (fmul (fmul (flit 0.25) (fadd (flit 0.5) ext))
          (fadd (fadd (flit 1) (fdiv avg_liking (flit 100)))
            (fdiv (fsub avg_trust (flit 50)) (flit 100))))
         (fdiv (flit 2) (of_i32 (int grp))))"

section \<open>Who can take part\<close>

definition alive_mind :: "registry \<Rightarrow> entity \<Rightarrow> bool" where
  "alive_mind r e \<longleftrightarrow> (case health r e of None \<Rightarrow> True | Some h \<Rightarrow> \<not> is_dead h) \<and>
     get_or True (sentience r) e"

definition in_combat :: "registry \<Rightarrow> entity \<Rightarrow> bool" where
  "in_combat r e = (case combat r e of None \<Rightarrow> False | Some c \<Rightarrow> target_entity c \<noteq> None)"

definition all_npcs :: "env \<Rightarrow> registry \<Rightarrow> entity list" where
  "all_npcs env r = filter (\<lambda>e. has (location r) e \<and> has (activity r) e \<and> has (identity r) e \<and>
     \<not> has (player_tag r) e \<and> alive_mind r e) (order env r)"

text \<open>\<open>reg.get_or_emplace<CooldownComp>(e)\<close>.\<close>

definition ensure_cooldown :: "entity \<Rightarrow> world \<Rightarrow> CooldownComp \<times> world" where
  "ensure_cooldown e w =
     (case cooldown (reg w) e of
        Some cd \<Rightarrow> (cd, w)
      | None \<Rightarrow> (CooldownComp_default, put_cooldown e CooldownComp_default w))"

text \<open>One neighbour of the initiator: whether it becomes a candidate.\<close>

definition consider_candidate ::
  "int \<Rightarrow> entity list \<Rightarrow> entity \<Rightarrow> LocationComp \<Rightarrow> entity \<Rightarrow> entity list \<times> world \<Rightarrow>
     (entity list \<times> world) option" where
  "consider_candidate tick done_list initiator loc_i n cw =
     (let (cands, w) = cw; r = reg w
      in if n = initiator \<or> n \<in> set done_list \<or> has (player_tag r) n \<or> has (busy r) n \<or> in_combat r n \<or>
            \<not> alive_mind r n \<or> \<not> has (activity r) n
         then Some cw
         else let (cd, w1) = ensure_cooldown n w
              in if social_energy cd < 20 \<or> tick \<le> cognitive_refractory_until cd then Some (cands, w1)
                 else do {
                   act \<leftarrow> activity (reg w1) n;
                   let (roll, w2) = draw_die w1;
                   if IsNPCFocusedOnActivity act roll then Some (cands, w2)
                   else do {
                     loc_c \<leftarrow> location (reg w2) n;
                     Some (if location_name loc_i \<noteq> location_name loc_c then cands else cands @ [n], w2)
                   }
                 })"

definition candidates_of ::
  "int \<Rightarrow> entity list \<Rightarrow> entity \<Rightarrow> LocationComp \<Rightarrow> world \<Rightarrow> (entity list \<times> world) option" where
  "candidates_of tick done_list initiator loc_i w =
     foldM (consider_candidate tick done_list initiator loc_i)
       (GetNearbyEntities (grid_reg w) (lc_x loc_i) (lc_z loc_i) (flit 8) (reg w)) ([initiator], w)"

section \<open>Choosing and asking a target\<close>

definition target_weight :: "int \<Rightarrow> fl" where
  "target_weight like = fmax (flit 1) (of_i32 (like + 60))"

definition consider_target ::
  "int \<Rightarrow> entity \<Rightarrow> u32 \<Rightarrow> LocationComp \<Rightarrow> CooldownComp \<Rightarrow> registry \<Rightarrow> entity \<Rightarrow>
     (entity \<times> fl) list \<times> fl \<Rightarrow> ((entity \<times> fl) list \<times> fl) option" where
  "consider_target tick e id_i loc_i cd r c acc =
     (if c = e \<or> has (busy r) c then Some acc
      else do {
        ident \<leftarrow> identity r c;
        let id_c = npc_id ident;
        if (case cooldown_per_target cd id_c of None \<Rightarrow> False | Some until \<Rightarrow> tick < until) then Some acc
        else do {
          loc_c \<leftarrow> location r c;
          let dist = dist2 (fsub (lc_x loc_i) (lc_x loc_c)) (fsub (lc_z loc_i) (lc_z loc_c));
          let like = liking_to r e id_c;
          if flt (flit 8) dist \<or> like < -70 \<or> liking_to r c id_i < -70 then Some acc
          else Some (fst acc @ [(c, target_weight like)], fadd (snd acc) (target_weight like))
        }
      })"

definition potential_targets ::
  "int \<Rightarrow> entity \<Rightarrow> u32 \<Rightarrow> LocationComp \<Rightarrow> CooldownComp \<Rightarrow> registry \<Rightarrow> entity list \<Rightarrow>
     ((entity \<times> fl) list \<times> fl) option" where
  "potential_targets tick e id_i loc_i cd r cands =
     foldM (consider_target tick e id_i loc_i cd r) cands ([], Fin 0)"

text \<open>The weighted choice; \<open>back()\<close> when rounding leaves a rest.\<close>

fun pick_weighted :: "fl \<Rightarrow> (entity \<times> fl) list \<Rightarrow> entity option" where
  "pick_weighted rw [] = None"
| "pick_weighted rw (p # ps) =
     (let rw1 = fsub rw (snd p)
      in if fle rw1 (Fin 0) then Some (fst p) else pick_weighted rw1 ps)"

definition pick_target :: "fl \<Rightarrow> fl \<Rightarrow> (entity \<times> fl) list \<Rightarrow> entity" where
  "pick_target die tw ps =
     (case pick_weighted (to_f32 (fl_mul F64 die tw)) ps of Some t \<Rightarrow> t | None \<Rightarrow> fst (last ps))"

definition embarrassment :: "fl \<Rightarrow> int" where
  "embarrassment ext = (if flt (flit 0.7) ext then 1 else if flt ext (flit 0.3) then 3 else 2)"

section \<open>The group\<close>

text \<open>Liking and trust of \<open>other\<close> towards the members it knows: sums and their number.\<close>

fun member_sums :: "registry \<Rightarrow> entity \<Rightarrow> entity list \<Rightarrow> (int \<times> int \<times> nat) option" where
  "member_sums r other [] = Some (0, 0, 0)"
| "member_sums r other (m # ms) = do {
     ident \<leftarrow> identity r m;
     (sl, st, k) \<leftarrow> member_sums r other ms;
     Some (case relation_to r other (npc_id ident) of
         None \<Rightarrow> (sl, st, k)
       | Some rel \<Rightarrow> (sl + liking rel, st + trust rel, k + 1))
   }"

definition average :: "fl \<Rightarrow> int \<Rightarrow> nat \<Rightarrow> fl" where
  "average d tw k = (if k > 0 then fdiv (of_i32 tw) (of_i32 (int k)) else d)"

fun join_group ::
  "entity \<Rightarrow> entity \<Rightarrow> entity list \<Rightarrow> entity list \<times> u32 list \<Rightarrow> world \<Rightarrow>
     ((entity list \<times> u32 list) \<times> world) option" where
  "join_group e target [] g w = Some (g, w)"
| "join_group e target (other # os) g w =
     (if other = e \<or> other = target then join_group e target os g w
      else if length (fst g) \<ge> 4 then Some (g, w)
      else if has (busy (reg w)) other then join_group e target os g w
      else do {
        ident \<leftarrow> identity (reg w) other;
        (sl, st, k) \<leftarrow> member_sums (reg w) other (fst g);
        let avg_liking = average (Fin 0) sl k;
        let avg_trust = average (flit 50) st k;
        if flt avg_liking (flit 20) then join_group e target os g w
        else (let (d, w1) = draw_die w
              in if flt d (join_prob (extroversion (reg w) other) avg_liking avg_trust (length (fst g)))
                 then join_group e target os (fst g @ [other], snd g @ [npc_id ident]) w1
                 else join_group e target os g w1)
      })"

section \<open>One initiator\<close>

definition start_event :: "registry \<Rightarrow> entity list \<Rightarrow> string \<Rightarrow> LocationComp \<Rightarrow> DialogueEventPayload" where
  "start_event r grp zone_name loc_i =
     (let name = (\<lambda>e. case identity r e of None \<Rightarrow> '''' | Some i \<Rightarrow> display_name i)
      in \<lparr>de_task_id = 0, de_npc_a_name = name (grp ! 0), de_npc_b_name = name (grp ! 1),
          de_is_started = True, de_summary = '''', de_location_name = zone_name,
          de_position = Some (lc_x loc_i, lc_y loc_i, lc_z loc_i), de_lines = []\<rparr>)"

definition mark_requested :: "entity \<Rightarrow> world \<Rightarrow> world option" where
  "mark_requested e w =
     (case activity (reg w) e of
        None \<Rightarrow> None
      | Some _ \<Rightarrow> Some (put_busy e BusyTag_default (put_activity e lit_dialogue_requested w)))"

definition start_dialogue ::
  "env \<Rightarrow> int \<Rightarrow> string \<Rightarrow> LocationComp \<Rightarrow> entity list \<Rightarrow> u32 list \<Rightarrow> world \<Rightarrow> world option" where
  "start_dialogue env tick zone_name loc_i grp ids w = do {
     w1 \<leftarrow> foldM mark_requested grp w;
     w2 \<leftarrow> broadcast env SC_DIALOGUE_EVENT (DialogueEventMsg (start_event (reg w1) grp zone_name loc_i)) w1;
     Some (call_rpc (TriggerDialogue ids) (KDialogue grp tick zone_name) w2)
   }"

text \<open>The initiator has won its roll: find a target, ask it, and gather the group.\<close>

definition initiate ::
  "env \<Rightarrow> int \<Rightarrow> entity \<Rightarrow> LocationComp \<Rightarrow> entity list \<Rightarrow> string \<Rightarrow> fl \<Rightarrow> entity list \<times> world \<Rightarrow>
     (entity list \<times> world) option" where
  "initiate env tick e loc_i cands zone_name modifier dw =
     (let (done_list, w) = dw; cd = (fst (ensure_cooldown e w))\<lparr>last_initiative_tick := tick\<rparr>;
          w1 = put_cooldown e cd w
      in do {
        ident \<leftarrow> identity (reg w1) e;
        let id_i = npc_id ident;
        (ps, tw) \<leftarrow> potential_targets tick e id_i loc_i cd (reg w1) cands;
        if ps = [] then Some (done_list, w1)
        else do {
          let (d1, w2) = draw_die w1;
          let target = pick_target d1 tw ps;
          t_ident \<leftarrow> identity (reg w2) target;
          let p = accept_prob (extroversion (reg w2) target) (liking_to (reg w2) target id_i) modifier;
          let (d2, w3) = draw_die w2;
          if fle p d2
          then Some (done_list, put_cooldown e
                 (cd\<lparr>cognitive_refractory_until := tick + embarrassment (extroversion (reg w3) e),
                     cooldown_per_target := (cooldown_per_target cd)(npc_id t_ident \<mapsto> tick + 3)\<rparr>) w3)
          else do {
            (g, w4) \<leftarrow> join_group e target cands ([e, target], [id_i, npc_id t_ident]) w3;
            w5 \<leftarrow> start_dialogue env tick zone_name loc_i (fst g) (snd g) w4;
            Some (done_list @ fst g, w5)
          }
        }
      })"

definition social_turn :: "env \<Rightarrow> int \<Rightarrow> entity \<Rightarrow> entity list \<times> world \<Rightarrow> (entity list \<times> world) option" where
  "social_turn env tick e dw =
     (let (done_list, w) = dw
      in if \<not> valid (reg w) e \<or> e \<in> set done_list \<or> has (busy (reg w)) e \<or> in_combat (reg w) e then Some dw
         else let (cd, w1) = ensure_cooldown e w
              in if social_energy cd < 20 \<or> tick \<le> cognitive_refractory_until cd
                    \<or> tick \<le> last_initiative_tick cd
                 then Some (done_list, w1)
                 else do {
                   loc_i \<leftarrow> location (reg w1) e;
                   (cands0, w2) \<leftarrow> candidates_of tick done_list e loc_i w1;
                   if length cands0 < 2 then Some (done_list, w2)
                   else do {
                     let (cands, w3) = shuffle_entities env cands0 w2;
                     candidate_loc \<leftarrow> location (reg w3) (hd cands);
                     let modifier = GetLocationSocialModifier (loc_type candidate_loc);
                     let (d, w4) = draw_die w3;
                     if fle (initiation_prob (extroversion (reg w4) e) modifier) d
                     then Some (done_list, w4)
                     else initiate env tick e loc_i cands (location_name candidate_loc) modifier (done_list, w4)
                   }
                 })"

definition SystemSocialInteraction :: "env \<Rightarrow> int \<Rightarrow> world \<Rightarrow> world option" where
  "SystemSocialInteraction env tick w = do {
     w1 \<leftarrow> view_each env (\<lambda>r e. has (cooldown r) e \<and> has (location r) e)
       (\<lambda>e w. do { cd \<leftarrow> cooldown (reg w) e; loc \<leftarrow> location (reg w) e;
                   Some (put_cooldown e (recover_energy tick loc cd) w) }) w;
     (done_list, w2) \<leftarrow> foldM (social_turn env tick) (all_npcs env (reg w1)) ([], w1);
     Some w2
   }"


section \<open>Steps that touch only cooldowns and dice\<close>

definition cd_only :: "world \<Rightarrow> world \<Rightarrow> bool" where
  "cd_only w w' \<longleftrightarrow> (\<exists>c. reg w' = (reg w)\<lparr>cooldown := c\<rparr>) \<and> outbox w' = outbox w \<and>
     grid_reg w' = grid_reg w \<and> tcp w' = tcp w"

lemma cd_only_refl [simp]: "cd_only w w"
  by (auto simp: cd_only_def intro: exI [of _ "cooldown (reg w)"])

lemma cd_only_trans: "cd_only w w' \<Longrightarrow> cd_only w' w'' \<Longrightarrow> cd_only w w''"
  by (auto simp: cd_only_def)

lemma cd_only_put [simp]: "cd_only w (put_cooldown e c w)"
  by (auto simp: cd_only_def put_cooldown_def)

lemma cd_only_die [simp]: "draw_die w = (d, w') \<Longrightarrow> cd_only w w'"
  by (auto simp: cd_only_def draw_die_def intro: exI [of _ "cooldown (reg w)"])

lemma cd_only_shuffle [simp]: "shuffle_entities env xs w = (ys, w') \<Longrightarrow> cd_only w w'"
  by (auto simp: cd_only_def shuffle_entities_def intro: exI [of _ "cooldown (reg w)"])

lemma cd_only_ensure: "ensure_cooldown e w = (cd, w') \<Longrightarrow> cd_only w w'"
  by (auto simp: ensure_cooldown_def split: option.splits)

lemma cd_only_regs:
  assumes "cd_only w w'"
  shows "identity (reg w') = identity (reg w)" "location (reg w') = location (reg w)"
    "activity (reg w') = activity (reg w)" "busy (reg w') = busy (reg w)"
    "player_tag (reg w') = player_tag (reg w)" "health (reg w') = health (reg w)"
    "sentience (reg w') = sentience (reg w)" "combat (reg w') = combat (reg w)"
    "live (reg w') = live (reg w)" "relationships (reg w') = relationships (reg w)"
    "alive_mind (reg w') = alive_mind (reg w)" "in_combat (reg w') = in_combat (reg w)"
    "GetNearbyEntities g x z rad (reg w') = GetNearbyEntities g x z rad (reg w)"
proof -
  obtain c where c: "reg w' = (reg w)\<lparr>cooldown := c\<rparr>" using assms by (auto simp: cd_only_def)
  have "in_range (reg w') = in_range (reg w)" by (auto simp: c fun_eq_iff in_range_def valid_def split: option.splits)
  then show "GetNearbyEntities g x z rad (reg w') = GetNearbyEntities g x z rad (reg w)"
    by (simp add: GetNearbyEntities_def)
qed (use assms in \<open>auto simp: cd_only_def fun_eq_iff alive_mind_def in_combat_def valid_def\<close>)

section \<open>Candidates, targets and groups\<close>

text \<open>What every partner of a dialogue is.\<close>

definition partner_ok :: "registry \<Rightarrow> entity list \<Rightarrow> string \<Rightarrow> entity \<Rightarrow> bool" where
  "partner_ok r done_list place n \<longleftrightarrow> n \<notin> set done_list \<and> \<not> has (player_tag r) n \<and> \<not> has (busy r) n \<and>
     \<not> in_combat r n \<and> alive_mind r n \<and> has (activity r) n \<and>
     (\<exists>loc. location r n = Some loc \<and> location_name loc = place)"

lemma consider_candidate_ok:
  assumes "has (location (reg w)) n"
  shows "\<exists>w' cs. consider_candidate tick dl e loc_i n (cands, w) = Some (cands @ cs, w') \<and> cd_only w w' \<and>
    (cs = [] \<or> cs = [n] \<and> n \<noteq> e \<and> partner_ok (reg w) dl (location_name loc_i) n)"
proof -
  obtain cd w1 where ec: "ensure_cooldown n w = (cd, w1)" by fastforce
  note f1 = cd_only_regs [OF cd_only_ensure [OF ec]]
  obtain d w2 where dd: "draw_die w1 = (d, w2)" by fastforce
  note f2 = cd_only_regs [OF cd_only_die [OF dd]]
  have c: "cd_only w w1" "cd_only w w2"
    using cd_only_ensure [OF ec] cd_only_die [OF dd] cd_only_trans by blast+
  show ?thesis
    using assms c ec dd f1 f2
    by (auto simp: consider_candidate_def Let_def partner_ok_def split: if_splits)
qed

lemma candidates_fold_ok:
  assumes "\<forall>n\<in>set ns. has (location (reg w)) n" "distinct ns" "set cands \<inter> set ns \<subseteq> {e}" "distinct cands" "e \<in> set cands"
  shows "\<exists>w' cs. foldM (consider_candidate tick dl e loc_i) ns (cands, w) = Some (cands @ cs, w') \<and>
    cd_only w w' \<and> distinct (cands @ cs) \<and> set cs \<subseteq> set ns \<and>
    (\<forall>n\<in>set cs. n \<noteq> e \<and> partner_ok (reg w) dl (location_name loc_i) n)"
  using assms
proof (induction ns arbitrary: cands w)
  case Nil
  then show ?case by auto
next
  case (Cons n ns)
  obtain w1 cs1 where s: "consider_candidate tick dl e loc_i n (cands, w) = Some (cands @ cs1, w1)"
    "cd_only w w1" "cs1 = [] \<or> cs1 = [n] \<and> n \<noteq> e \<and> partner_ok (reg w) dl (location_name loc_i) n"
    using consider_candidate_ok [of w n] Cons.prems(1) by fastforce
  note f = cd_only_regs [OF s(2)]
  have p: "partner_ok (reg w1) = partner_ok (reg w)" by (simp add: fun_eq_iff partner_ok_def f)
  have "\<exists>w' cs. foldM (consider_candidate tick dl e loc_i) ns (cands @ cs1, w1) = Some ((cands @ cs1) @ cs, w') \<and>
    cd_only w1 w' \<and> distinct ((cands @ cs1) @ cs) \<and> set cs \<subseteq> set ns \<and>
    (\<forall>n\<in>set cs. n \<noteq> e \<and> partner_ok (reg w1) dl (location_name loc_i) n)"
    by (rule Cons.IH) (use Cons.prems s(3) f in auto)
  then obtain w' cs where r: "foldM (consider_candidate tick dl e loc_i) ns (cands @ cs1, w1) = Some ((cands @ cs1) @ cs, w')"
    "cd_only w1 w'" "distinct ((cands @ cs1) @ cs)" "set cs \<subseteq> set ns"
    "\<forall>n\<in>set cs. n \<noteq> e \<and> partner_ok (reg w) dl (location_name loc_i) n"
    unfolding p by blast
  show ?case
    by (rule exI [of _ w'], rule exI [of _ "cs1 @ cs"])
      (use s r cd_only_trans [OF s(2) r(2)] in auto)
qed

lemma consider_target_ok:
  assumes "has (identity r) x" "has (location r) x"
  shows "\<exists>acc'. consider_target tick e i loc_i cd r x acc = Some acc' \<and>
    fst ` set (fst acc') \<subseteq> fst ` set (fst acc) \<union> ({x} - {e})"
proof -
  obtain i' l' a b where *: "identity r x = Some i'" "location r x = Some l'" "acc = (a, b)"
    using assms by (cases acc) (auto simp: has_def)
  show ?thesis
  proof (cases "x = e \<or> has (busy r) x")
    case True
    then show ?thesis by (auto simp: consider_target_def)
  next
    case False
    then show ?thesis
      unfolding consider_target_def by (simp add: * Let_def split: option.splits) auto
  qed
qed

lemma potential_targets_ok:
  assumes "\<forall>c\<in>set xs. has (identity r) c \<and> has (location r) c"
  shows "\<exists>ps tw. potential_targets tick e i loc_i cd r xs = Some (ps, tw) \<and>
    fst ` set ps \<subseteq> set xs - {e}"
proof -
  have "\<exists>acc'. foldM (consider_target tick e i loc_i cd r) xs ([], Fin 0) = Some acc' \<and>
      fst ` set (fst acc') \<subseteq> set xs - {e}"
  proof (rule foldM_total)
    fix x :: entity and acc :: "(entity \<times> fl) list \<times> fl"
    assume x: "x \<in> set xs" and acc: "fst ` set (fst acc) \<subseteq> set xs - {e}"
    have "has (identity r) x" "has (location r) x" using assms x by blast+
    from consider_target_ok [OF this] obtain acc' where
      "consider_target tick e i loc_i cd r x acc = Some acc'"
      "fst ` set (fst acc') \<subseteq> fst ` set (fst acc) \<union> ({x} - {e})" by blast
    with x acc show "\<exists>acc'. consider_target tick e i loc_i cd r x acc = Some acc' \<and>
        fst ` set (fst acc') \<subseteq> set xs - {e}" by blast
  qed simp
  then show ?thesis by (auto simp: potential_targets_def)
qed

lemma pick_weighted_mem: "pick_weighted rw ps = Some t \<Longrightarrow> t \<in> fst ` set ps"
  by (induction rw ps rule: pick_weighted.induct) (auto simp: Let_def split: if_splits)

lemma pick_target_mem: "ps \<noteq> [] \<Longrightarrow> pick_target d tw ps \<in> fst ` set ps"
  using pick_weighted_mem by (auto simp: pick_target_def split: option.split)

lemma member_sums_total: "\<forall>m\<in>set ms. has (identity r) m \<Longrightarrow> \<exists>x. member_sums r other ms = Some x"
proof (induction ms)
  case (Cons m ms)
  then obtain i sl st k where "identity r m = Some i" "member_sums r other ms = Some (sl, st, k)"
    by (auto simp: has_def)
  then show ?case by (simp split: option.split)
qed simp

definition id_of :: "registry \<Rightarrow> entity \<Rightarrow> u32" where
  "id_of r e = (case identity r e of None \<Rightarrow> 0 | Some i \<Rightarrow> npc_id i)"

lemma join_group_ok:
  assumes "\<forall>c\<in>set (os @ gs). has (identity (reg w)) c" "ids = List.map (id_of (reg w)) gs" "length gs \<le> 4"
    "distinct gs" "distinct os" "set gs \<inter> set os \<subseteq> {e, t}"
  shows "\<exists>gs' ids' w'. join_group e t os (gs, ids) w = Some ((gs @ gs', ids @ ids'), w') \<and> cd_only w w' \<and>
    ids' = List.map (id_of (reg w)) gs' \<and> length (gs @ gs') \<le> 4 \<and> distinct (gs @ gs') \<and> set gs' \<subseteq> set os - {e, t}"
  using assms
proof (induction os arbitrary: gs ids w)
  case Nil
  then show ?case by auto
next
  case (Cons x os)
  have skip: "\<exists>gs' ids' w'. join_group e t os (gs, ids) w1 = Some ((gs @ gs', ids @ ids'), w') \<and> cd_only w1 w' \<and>
    ids' = List.map (id_of (reg w)) gs' \<and> length (gs @ gs') \<le> 4 \<and> distinct (gs @ gs') \<and> set gs' \<subseteq> set os - {e, t}"
    if "cd_only w w1" for w1
  proof -
    have i: "id_of (reg w1) = id_of (reg w)" by (simp add: id_of_def fun_eq_iff cd_only_regs(1) [OF that])
    show ?thesis unfolding i [symmetric]
      by (rule Cons.IH) (use Cons.prems cd_only_regs [OF that] i in auto)
  qed
  show ?case
  proof (cases "x = e \<or> x = t \<or> length gs \<ge> 4 \<or> has (busy (reg w)) x")
    case True
    with skip [OF cd_only_refl] Cons.prems(3,4) show ?thesis by fastforce
  next
    case False
    obtain ident where ident: "identity (reg w) x = Some ident" using Cons.prems(1) by auto
    obtain sl st k where ms: "member_sums (reg w) x gs = Some (sl, st, k)"
      using member_sums_total [of gs "reg w" x] Cons.prems(1) by auto
    obtain d w1 where d: "draw_die w = (d, w1)" by fastforce
    note cw = cd_only_die [OF d]
    have add: "\<exists>gs' ids' w'. join_group e t os (gs @ [x], ids @ [npc_id ident]) w1 =
        Some (((gs @ [x]) @ gs', (ids @ [npc_id ident]) @ ids'), w') \<and> cd_only w1 w' \<and>
        ids' = List.map (id_of (reg w)) gs' \<and> length ((gs @ [x]) @ gs') \<le> 4 \<and> distinct ((gs @ [x]) @ gs') \<and> set gs' \<subseteq> set os - {e, t}"
    proof -
      have i: "id_of (reg w1) = id_of (reg w)" by (simp add: id_of_def fun_eq_iff cd_only_regs(1) [OF cw])
      show ?thesis unfolding i [symmetric]
        by (rule Cons.IH) (use Cons.prems False cd_only_regs [OF cw] i ident in \<open>auto simp: id_of_def\<close>)
    qed
    then obtain gs' ids' w' where j: "join_group e t os (gs @ [x], ids @ [npc_id ident]) w1 =
        Some ((gs @ x # gs', ids @ npc_id ident # ids'), w')" "cd_only w1 w'"
        "ids' = List.map (id_of (reg w)) gs'" "length (gs @ x # gs') \<le> 4" "distinct (gs @ x # gs')" "set gs' \<subseteq> set os - {e, t}"
      by auto
    have joined: "\<exists>gs' ids' w'. join_group e t os (gs @ [x], ids @ [npc_id ident]) w1 =
        Some ((gs @ gs', ids @ ids'), w') \<and> cd_only w w' \<and> ids' = List.map (id_of (reg w)) gs' \<and>
        length (gs @ gs') \<le> 4 \<and> distinct (gs @ gs') \<and> set gs' \<subseteq> set (x # os) - {e, t}"
      by (rule exI [of _ "x # gs'"], rule exI [of _ "npc_id ident # ids'"], rule exI [of _ w'])
        (use j False cd_only_trans [OF cw j(2)] ident in \<open>auto simp: id_of_def\<close>)
    have "\<exists>gs' ids' w'. join_group e t os (gs, ids) w1 =
        Some ((gs @ gs', ids @ ids'), w') \<and> cd_only w w' \<and> ids' = List.map (id_of (reg w)) gs' \<and>
        length (gs @ gs') \<le> 4 \<and> distinct (gs @ gs') \<and> set gs' \<subseteq> set (x # os) - {e, t}"
      using skip [OF cw] cd_only_trans [OF cw] by fastforce
    moreover have "\<exists>gs' ids' w'. join_group e t os (gs, ids) w =
        Some ((gs @ gs', ids @ ids'), w') \<and> cd_only w w' \<and> ids' = List.map (id_of (reg w)) gs' \<and>
        length (gs @ gs') \<le> 4 \<and> distinct (gs @ gs') \<and> set gs' \<subseteq> set (x # os) - {e, t}"
      using skip [OF cd_only_refl] by fastforce
    ultimately show ?thesis using joined False ident ms d by (simp add: Let_def)
  qed
qed

section \<open>What a tick starts\<close>

text \<open>Somebody who can be drawn into a dialogue.\<close>

definition free_speaker :: "registry \<Rightarrow> entity \<Rightarrow> bool" where
  "free_speaker r e \<longleftrightarrow> has (identity r) e \<and> has (location r) e \<and> has (activity r) e \<and>
     \<not> has (player_tag r) e \<and> \<not> has (busy r) e \<and> \<not> in_combat r e \<and> alive_mind r e"

definition place_of :: "registry \<Rightarrow> entity \<Rightarrow> string" where
  "place_of r e = (case location r e of None \<Rightarrow> '''' | Some loc \<Rightarrow> location_name loc)"

text \<open>The registry after the entities of \<open>A\<close> were asked to talk, up to cooldowns.\<close>

definition set_talking :: "entity set \<Rightarrow> registry \<Rightarrow> registry" where
  "set_talking A r = r\<lparr>activity := (\<lambda>e. if e \<in> A then Some lit_dialogue_requested else activity r e),
     busy := (\<lambda>e. if e \<in> A then Some BusyTag_default else busy r e)\<rparr>"

text \<open>
  The dialogues \<open>gs\<close>, each a group and the name of its zone, are all that happened between
  two worlds, apart from cooldowns, dice and messages.
\<close>

definition members :: "(entity list \<times> string) list \<Rightarrow> entity set" where
  "members gs = set (concat (List.map fst gs))"

definition dialogue_call :: "registry \<Rightarrow> int \<Rightarrow> entity list \<times> string \<Rightarrow> rpc_call \<times> continuation" where
  "dialogue_call r tick gp =
     (TriggerDialogue (List.map (id_of r) (fst gp)), KDialogue (fst gp) tick (snd gp))"

definition group_ok :: "registry \<Rightarrow> entity list \<Rightarrow> bool" where
  "group_ok r g \<longleftrightarrow> 2 \<le> length g \<and> length g \<le> 4 \<and> (\<forall>e\<in>set g. free_speaker r e) \<and>
     (\<exists>place. \<forall>e\<in>set g. place_of r e = place)"

definition talks_started :: "int \<Rightarrow> world \<Rightarrow> (entity list \<times> string) list \<Rightarrow> world \<Rightarrow> bool" where
  "talks_started tick w gs w' \<longleftrightarrow>
     (\<exists>c. reg w' = (set_talking (members gs) (reg w))\<lparr>cooldown := c\<rparr>) \<and> grid_reg w' = grid_reg w \<and>
     outbox w' = outbox w @ List.map (dialogue_call (reg w) tick) gs \<and>
     distinct (concat (List.map fst gs)) \<and> (\<forall>gp\<in>set gs. group_ok (reg w) (fst gp))"

lemma members_simps [simp]:
  "members [] = {}" "members (gp # gs) = set (fst gp) \<union> members gs" "members (gs @ hs) = members gs \<union> members hs"
  by (auto simp: members_def)

lemma talks_refl: "cd_only w w' \<Longrightarrow> talks_started tick w [] w'"
  by (auto simp: talks_started_def set_talking_def cd_only_def)

lemma talking_regs:
  assumes "talks_started tick w gs w'"
  shows "identity (reg w') = identity (reg w)" "location (reg w') = location (reg w)"
    "player_tag (reg w') = player_tag (reg w)" "health (reg w') = health (reg w)"
    "sentience (reg w') = sentience (reg w)" "combat (reg w') = combat (reg w)"
    "live (reg w') = live (reg w)" "id_of (reg w') = id_of (reg w)" "place_of (reg w') = place_of (reg w)"
    "alive_mind (reg w') = alive_mind (reg w)" "in_combat (reg w') = in_combat (reg w)"
    "has (busy (reg w')) e \<longleftrightarrow> e \<in> members gs \<or> has (busy (reg w)) e"
    "has (activity (reg w')) e \<longleftrightarrow> e \<in> members gs \<or> has (activity (reg w)) e"
  using assms
  by (auto simp: talks_started_def set_talking_def fun_eq_iff alive_mind_def in_combat_def id_of_def
      place_of_def has_def)

lemma talks_trans:
  assumes "talks_started tick w gs w'" "talks_started tick w' hs w''"
  shows "talks_started tick w (gs @ hs) w''"
proof -
  note f = talking_regs [OF assms(1)]
  have new: "free_speaker (reg w) e \<and> e \<notin> members gs" if "free_speaker (reg w') e" for e
  proof -
    from that have "e \<notin> members gs" unfolding free_speaker_def f by blast
    with that show ?thesis unfolding free_speaker_def f by blast
  qed
  have g: "group_ok (reg w) g \<and> set g \<inter> members gs = {}" if "group_ok (reg w') g" for g
    using that new unfolding group_ok_def f by blast
  have h: "\<forall>gp\<in>set hs. group_ok (reg w) (fst gp)" "members gs \<inter> members hs = {}"
    using assms(2) g unfolding talks_started_def members_def by fastforce+
  have d: "dialogue_call (reg w') tick = dialogue_call (reg w) tick"
    by (simp add: fun_eq_iff dialogue_call_def f)
  obtain c c' where c: "reg w' = (set_talking (members gs) (reg w))\<lparr>cooldown := c\<rparr>"
      "reg w'' = (set_talking (members hs) (reg w'))\<lparr>cooldown := c'\<rparr>"
    using assms by (auto simp: talks_started_def)
  have "reg w'' = (set_talking (members (gs @ hs)) (reg w))\<lparr>cooldown := c'\<rparr>"
    unfolding c(2) unfolding c(1) by (auto simp: set_talking_def fun_eq_iff)
  moreover have "distinct (concat (List.map fst (gs @ hs)))"
    using assms h(2) by (auto simp: talks_started_def members_def)
  ultimately show ?thesis
    using assms h(1) unfolding talks_started_def d by auto
qed

lemma cd_then_talks: "cd_only w w1 \<Longrightarrow> talks_started tick w1 gs w2 \<Longrightarrow> talks_started tick w gs w2"
  using talks_trans [OF talks_refl] by fastforce

lemma mark_all:
  "\<forall>e\<in>set g. has (activity (reg w)) e \<Longrightarrow>
     foldM mark_requested g w = Some (w\<lparr>reg := set_talking (set g) (reg w)\<rparr>)"
proof (induction g arbitrary: w)
  case Nil
  then show ?case by (simp add: set_talking_def)
next
  case (Cons e g)
  obtain a where a: "activity (reg w) e = Some a" using Cons.prems by (auto simp: has_def)
  define w1 where "w1 = put_busy e BusyTag_default (put_activity e lit_dialogue_requested w)"
  have r: "reg w1 = set_talking {e} (reg w)"
    by (auto simp: w1_def put_defs set_talking_def fun_eq_iff)
  have "foldM mark_requested g w1 = Some (w1\<lparr>reg := set_talking (set g) (reg w1)\<rparr>)"
    by (rule Cons.IH) (use Cons.prems in \<open>auto simp: r set_talking_def has_def\<close>)
  moreover have "w1\<lparr>reg := set_talking (set g) (reg w1)\<rparr> = w\<lparr>reg := set_talking (set (e # g)) (reg w)\<rparr>"
    by (auto simp: w1_def put_defs set_talking_def fun_eq_iff)
  moreover have "mark_requested e w = Some w1" by (simp add: mark_requested_def a w1_def)
  ultimately show ?case by simp
qed

lemma start_dialogue_ok:
  assumes fit: "\<forall>p. fits env (DialogueEventMsg p)"
    and g: "group_ok (reg w) g" "distinct g"
  shows "\<exists>w'. start_dialogue env tick zone loc_i g (List.map (id_of (reg w)) g) w = Some w' \<and>
    talks_started tick w [(g, zone)] w'"
proof -
  define w1 where "w1 = w\<lparr>reg := set_talking (set g) (reg w)\<rparr>"
  have m: "foldM mark_requested g w = Some w1"
    unfolding w1_def by (rule mark_all) (use g(1) in \<open>auto simp: group_ok_def free_speaker_def\<close>)
  obtain s where b: "broadcast env SC_DIALOGUE_EVENT (DialogueEventMsg (start_event (reg w1) g zone loc_i)) w1
      = Some (w1\<lparr>tcp := s\<rparr>)"
    using broadcast_total fit by blast
  define w2 where "w2 = call_rpc (TriggerDialogue (List.map (id_of (reg w)) g)) (KDialogue g tick zone) (w1\<lparr>tcp := s\<rparr>)"
  have "start_dialogue env tick zone loc_i g (List.map (id_of (reg w)) g) w = Some w2"
    by (simp add: start_dialogue_def m b w2_def)
  moreover have "\<exists>c. reg w2 = (set_talking (set g) (reg w))\<lparr>cooldown := c\<rparr>"
    by (rule exI [of _ "cooldown (reg w)"]) (simp add: w2_def w1_def call_rpc_def set_talking_def)
  ultimately show ?thesis
    using g by (simp add: talks_started_def dialogue_call_def) (simp add: w2_def w1_def call_rpc_def)
qed

lemma free_speaker_cd: "cd_only w w' \<Longrightarrow> free_speaker (reg w') = free_speaker (reg w)"
  by (simp add: fun_eq_iff free_speaker_def cd_only_regs)

lemma place_of_cd: "cd_only w w' \<Longrightarrow> place_of (reg w') = place_of (reg w)"
  by (simp add: fun_eq_iff place_of_def cd_only_regs)

lemma id_of_cd: "cd_only w w' \<Longrightarrow> id_of (reg w') = id_of (reg w)"
  by (simp add: fun_eq_iff id_of_def cd_only_regs)

text \<open>The end of \<open>initiate\<close>: the target accepts, the others may join, the dialogue starts.\<close>

lemma accepted_ok:
  assumes fit: "\<forall>p. fits env (DialogueEventMsg p)"
    and cands: "distinct cands" "\<forall>n\<in>set cands. free_speaker (reg w) n \<and> place_of (reg w) n = place"
    and et: "e \<in> set cands" "t \<in> set cands" "e \<noteq> t"
  shows "\<exists>g w' w''. join_group e t cands ([e, t], [id_of (reg w) e, id_of (reg w) t]) w = Some (g, w') \<and>
    start_dialogue env tick zone loc_i (fst g) (snd g) w' = Some w'' \<and> talks_started tick w [(fst g, zone)] w''"
proof -
  have "\<exists>gs' ids' w'. join_group e t cands ([e, t], [id_of (reg w) e, id_of (reg w) t]) w =
      Some (([e, t] @ gs', [id_of (reg w) e, id_of (reg w) t] @ ids'), w') \<and> cd_only w w' \<and>
      ids' = List.map (id_of (reg w)) gs' \<and> length ([e, t] @ gs') \<le> 4 \<and> distinct ([e, t] @ gs') \<and>
      set gs' \<subseteq> set cands - {e, t}"
    by (rule join_group_ok) (use assms in \<open>auto simp: free_speaker_def\<close>)
  then obtain gs' w' where j: "join_group e t cands ([e, t], [id_of (reg w) e, id_of (reg w) t]) w =
      Some (([e, t] @ gs', List.map (id_of (reg w)) ([e, t] @ gs')), w')" "cd_only w w'"
      "length ([e, t] @ gs') \<le> 4" "distinct ([e, t] @ gs')" "set gs' \<subseteq> set cands - {e, t}"
    by auto
  define g where "g = [e, t] @ gs'"
  have "set g \<subseteq> set cands" "2 \<le> length g" using j(5) et by (auto simp: g_def)
  with cands(2) j(3) have "group_ok (reg w') g"
    unfolding group_ok_def free_speaker_cd [OF j(2)] place_of_cd [OF j(2)] by (auto simp: g_def)
  from start_dialogue_ok [OF fit this, of tick zone loc_i] j(4)
  obtain w'' where "start_dialogue env tick zone loc_i g (List.map (id_of (reg w')) g) w' = Some w''"
    "talks_started tick w' [(g, zone)] w''" by (auto simp: g_def)
  with j(1,2) cd_then_talks [OF j(2)] show ?thesis
    unfolding id_of_cd [OF j(2)] g_def by fastforce
qed

lemma initiate_ok:
  assumes fit: "\<forall>p. fits env (DialogueEventMsg p)"
    and cands: "distinct cands" "\<forall>n\<in>set cands. free_speaker (reg w) n \<and> place_of (reg w) n = place"
    and e: "e \<in> set cands"
  shows "\<exists>gs w'. initiate env tick e loc_i cands zone modifier (dl, w) = Some (dl @ concat (List.map fst gs), w') \<and>
    talks_started tick w gs w'"
proof -
  define cd where "cd = (fst (ensure_cooldown e w))\<lparr>last_initiative_tick := tick\<rparr>"
  define w1 where "w1 = put_cooldown e cd w"
  have c1: "cd_only w w1" by (simp add: w1_def)
  have c: "\<forall>n\<in>set cands. free_speaker (reg w1) n \<and> place_of (reg w1) n = place"
    using cands(2) by (simp add: free_speaker_cd [OF c1] place_of_cd [OF c1])
  obtain ident where ident: "identity (reg w1) e = Some ident"
    using c e by (auto simp: free_speaker_def has_def)
  have id_e: "npc_id ident = id_of (reg w1) e" by (simp add: id_of_def ident)
  obtain ps tw where ps: "potential_targets tick e (npc_id ident) loc_i cd (reg w1) cands = Some (ps, tw)"
    "fst ` set ps \<subseteq> set cands - {e}"
    using potential_targets_ok [of cands "reg w1" tick e "npc_id ident" loc_i cd] c
    by (auto simp: free_speaker_def)
  obtain d1 w2 where d1: "draw_die w1 = (d1, w2)" by fastforce
  obtain d2 w3 where d2: "draw_die w2 = (d2, w3)" by fastforce
  have c2: "cd_only w1 w2" "cd_only w1 w3"
    using cd_only_die [OF d1] cd_only_die [OF d2] cd_only_trans by blast+
  show ?thesis
  proof (cases "ps = []")
    case True
    then have "initiate env tick e loc_i cands zone modifier (dl, w) = Some (dl, w1)"
      by (simp add: initiate_def Let_def cd_def [symmetric] w1_def [symmetric] ident ps)
    with talks_refl [OF c1, of tick] show ?thesis by (intro exI [of _ "[]"]) auto
  next
    case False
    define t where "t = pick_target d1 tw ps"
    have t: "t \<in> set cands" "e \<noteq> t" using pick_target_mem [OF False, of d1 tw] ps(2) by (auto simp: t_def)
    obtain ti where ti: "identity (reg w2) t = Some ti"
      using c t(1) cd_only_regs(1) [OF c2(1)] by (auto simp: free_speaker_def has_def)
    have id_t: "npc_id ti = id_of (reg w1) t"
      using ti cd_only_regs(1) [OF c2(1)] by (simp add: id_of_def)
    have "\<forall>n\<in>set cands. free_speaker (reg w3) n \<and> place_of (reg w3) n = place"
      using c by (simp add: free_speaker_cd [OF c2(2)] place_of_cd [OF c2(2)])
    from accepted_ok [OF fit cands(1) this e t(1,2), of tick zone loc_i]
    obtain g w' w'' where j: "join_group e t cands ([e, t], [npc_id ident, npc_id ti]) w3 = Some (g, w')"
      "start_dialogue env tick zone loc_i (fst g) (snd g) w' = Some w''"
      "talks_started tick w3 [(fst g, zone)] w''"
      unfolding id_e id_t id_of_cd [OF c2(2)] by blast
    have c3: "cd_only w w3" by (rule cd_only_trans [OF c1 c2(2)])
    show ?thesis
    proof (cases "fle (accept_prob (extroversion (reg w2) t) (liking_to (reg w2) t (npc_id ident)) modifier) d2")
      case True
      then have "\<exists>cd'. initiate env tick e loc_i cands zone modifier (dl, w) = Some (dl, put_cooldown e cd' w3)"
        using False by (simp add: initiate_def Let_def cd_def [symmetric] w1_def [symmetric] ident ps d1 d2
            t_def [symmetric] ti) blast
      then obtain cd' where "initiate env tick e loc_i cands zone modifier (dl, w) = Some (dl, put_cooldown e cd' w3)"
        by blast
      with talks_refl [OF cd_only_trans [OF c3 cd_only_put], of tick e cd'] show ?thesis
        by (intro exI [of _ "[]"]) auto
    next
      case no: False
      then have "initiate env tick e loc_i cands zone modifier (dl, w) = Some (dl @ fst g, w'')"
        using False j by (simp add: initiate_def Let_def cd_def [symmetric] w1_def [symmetric] ident ps d1 d2
            t_def [symmetric] ti)
      with cd_then_talks [OF c3 j(3)] show ?thesis by (intro exI [of _ "[(fst g, zone)]"]) auto
    qed
  qed
qed

text \<open>The environment: a shuffle permutes, and the announcements of dialogues can be sent.\<close>

definition social_env :: "env \<Rightarrow> bool" where
  "social_env env \<longleftrightarrow> (\<forall>n xs. mset (shuffled env n xs) = mset xs) \<and> (\<forall>p. fits env (DialogueEventMsg p))"

definition speakers_known :: "registry \<Rightarrow> bool" where
  "speakers_known r \<longleftrightarrow> (\<forall>e. has (activity r) e \<longrightarrow> has (identity r) e)"

lemma candidates_of_ok:
  assumes "cells_ok (grid_reg w)"
  shows "\<exists>cs w'. candidates_of tick dl e loc_i w = Some (e # cs, w') \<and> cd_only w w' \<and> distinct (e # cs) \<and>
    (\<forall>n\<in>set cs. has (location (reg w)) n \<and> partner_ok (reg w) dl (location_name loc_i) n)"
proof -
  have "\<exists>w' cs. candidates_of tick dl e loc_i w = Some ([e] @ cs, w') \<and> cd_only w w' \<and> distinct ([e] @ cs) \<and>
     set cs \<subseteq> set (GetNearbyEntities (grid_reg w) (lc_x loc_i) (lc_z loc_i) (flit 8) (reg w)) \<and>
     (\<forall>n\<in>set cs. n \<noteq> e \<and> partner_ok (reg w) dl (location_name loc_i) n)"
    unfolding candidates_of_def
    by (rule candidates_fold_ok)
      (auto simp: GetNearbyEntities_iff in_range_def GetNearbyEntities_distinct assms split: option.splits)
  then show ?thesis by (fastforce simp: partner_ok_def has_def)
qed

lemma social_turn_ok:
  assumes env: "social_env env" and cells: "cells_ok (grid_reg w)" and known: "speakers_known (reg w)"
    and e: "has (location (reg w)) e" "has (activity (reg w)) e" "\<not> has (player_tag (reg w)) e"
      "alive_mind (reg w) e"
  shows "\<exists>gs w'. social_turn env tick e (dl, w) = Some (dl @ concat (List.map fst gs), w') \<and>
    talks_started tick w gs w'"
proof (cases "\<not> valid (reg w) e \<or> e \<in> set dl \<or> has (busy (reg w)) e \<or> in_combat (reg w) e")
  case True
  then show ?thesis by (intro exI [of _ "[]"] exI [of _ w]) (simp add: social_turn_def talks_refl)
next
  case False
  obtain cd w1 where cd: "ensure_cooldown e w = (cd, w1)" by fastforce
  note c1 = cd_only_ensure [OF cd]
  have stop: ?thesis if "social_turn env tick e (dl, w) = Some (dl, w')" "cd_only w w'" for w'
    using that talks_refl by (intro exI [of _ "[]"] exI [of _ w']) simp
  show ?thesis
  proof (cases "social_energy cd < 20 \<or> tick \<le> cognitive_refractory_until cd \<or> tick \<le> last_initiative_tick cd")
    case True
    then show ?thesis using False cd by (intro stop [OF _ c1]) (simp add: social_turn_def)
  next
    case eager: False
    obtain loc_i where loc: "location (reg w1) e = Some loc_i"
      using e(1) cd_only_regs(2) [OF c1] by (auto simp: has_def)
    have "cells_ok (grid_reg w1)" using cells c1 by (simp add: cd_only_def)
    from candidates_of_ok [OF this, of tick dl e loc_i]
    obtain cs w2 where cs: "candidates_of tick dl e loc_i w1 = Some (e # cs, w2)" "cd_only w1 w2"
      "distinct (e # cs)" "\<forall>n\<in>set cs. has (location (reg w1)) n \<and> partner_ok (reg w1) dl (location_name loc_i) n"
      by blast
    note c2 = cd_only_trans [OF c1 cs(2)]
    show ?thesis
    proof (cases "cs = []")
      case True
      then show ?thesis using False eager cd loc cs by (intro stop [OF _ c2]) (simp add: social_turn_def)
    next
      case ne: False
      obtain cands w3 where sh: "shuffle_entities env (e # cs) w2 = (cands, w3)" by fastforce
      have "mset cands = mset (e # cs)" using env sh by (auto simp: social_env_def shuffle_entities_def)
      then have cands: "set cands = set (e # cs)" "distinct cands" "cands \<noteq> []"
        using cs(3) by (metis mset_eq_setD, metis mset_eq_imp_distinct_iff, auto)
      note c3 = cd_only_trans [OF c2 cd_only_shuffle [OF sh]]
      obtain d w4 where d: "draw_die w3 = (d, w4)" by fastforce
      note c4 = cd_only_trans [OF c3 cd_only_die [OF d]]
      have free: "free_speaker (reg w) n \<and> place_of (reg w) n = location_name loc_i" if "n \<in> set cands" for n
        using that cs(4) cands(1) e known False loc cd_only_regs [OF c1]
        by (auto simp: free_speaker_def partner_ok_def speakers_known_def place_of_def split: option.splits)
      then have free4: "\<forall>n\<in>set cands. free_speaker (reg w4) n \<and> place_of (reg w4) n = location_name loc_i"
        by (simp add: free_speaker_cd [OF c4] place_of_cd [OF c4])
      have "has (location (reg w3)) (hd cands)"
        using free [of "hd cands"] cands(3) free_speaker_cd [OF c3] by (simp add: free_speaker_def cd_only_regs [OF c3])
      then obtain lc where lc: "location (reg w3) (hd cands) = Some lc" by (auto simp: has_def)
      define turn where "turn = social_turn env tick e (dl, w)"
      have eq: "turn = (if fle (initiation_prob (extroversion (reg w4) e) (GetLocationSocialModifier (loc_type lc))) d
           then Some (dl, w4)
           else initiate env tick e loc_i cands (location_name lc) (GetLocationSocialModifier (loc_type lc)) (dl, w4))"
        using False eager ne cd loc cs sh d lc by (cases cs) (simp_all add: turn_def social_turn_def Let_def)
      show ?thesis
      proof (cases "fle (initiation_prob (extroversion (reg w4) e) (GetLocationSocialModifier (loc_type lc))) d")
        case True
        then show ?thesis using eq by (intro stop [OF _ c4]) (simp add: turn_def)
      next
        case no: False
        have "e \<in> set cands" using cands(1) by simp
        from initiate_ok [OF _ cands(2) free4 this, of env tick loc_i "location_name lc"
            "GetLocationSocialModifier (loc_type lc)" dl] env
        obtain gs w' where "turn = Some (dl @ concat (List.map fst gs), w')" "talks_started tick w4 gs w'"
          using no eq by (auto simp: social_env_def)
        with cd_then_talks [OF c4] show ?thesis by (auto simp: turn_def)
      qed
    qed
  qed
qed

lemma recover_energy_cd:
  "\<exists>w'. view_each env (\<lambda>r e. has (cooldown r) e \<and> has (location r) e)
       (\<lambda>e w. do { cd \<leftarrow> cooldown (reg w) e; loc \<leftarrow> location (reg w) e;
                   Some (put_cooldown e (recover_energy tick loc cd) w) }) w = Some w' \<and> cd_only w w'"
  unfolding view_each_def
proof (rule foldM_total [where I = "cd_only w"])
  fix e :: entity and t :: world
  assume "cd_only w t"
  with cd_only_trans [OF this cd_only_put] show "\<exists>t'. (if has (cooldown (reg t)) e \<and> has (location (reg t)) e
      then do { cd \<leftarrow> cooldown (reg t) e; loc \<leftarrow> location (reg t) e;
                Some (put_cooldown e (recover_energy tick loc cd) t) } else Some t) = Some t' \<and> cd_only w t'"
    by (auto simp: has_def)
qed simp

lemma SystemSocialInteraction_total:
  assumes env: "social_env env" and cells: "cells_ok (grid_reg w)" and known: "speakers_known (reg w)"
  shows "\<exists>gs w'. SystemSocialInteraction env tick w = Some w' \<and> talks_started tick w gs w'"
proof -
  obtain w1 where w1: "view_each env (\<lambda>r e. has (cooldown r) e \<and> has (location r) e)
       (\<lambda>e w. do { cd \<leftarrow> cooldown (reg w) e; loc \<leftarrow> location (reg w) e;
                   Some (put_cooldown e (recover_energy tick loc cd) w) }) w = Some w1" "cd_only w w1"
    using recover_energy_cd by blast
  define I where "I = (\<lambda>(dl, t). \<exists>gs. dl = concat (List.map fst gs) \<and> talks_started tick w gs t)"
  have "\<exists>s. foldM (social_turn env tick) (all_npcs env (reg w1)) ([], w1) = Some s \<and> I s"
  proof (rule foldM_total)
    show "I ([], w1)" using talks_refl [OF w1(2)] by (auto simp: I_def intro: exI [of _ "[]"])
    fix e :: entity and s :: "entity list \<times> world"
    assume e: "e \<in> set (all_npcs env (reg w1))" and "I s"
    then obtain gs t where s: "s = (concat (List.map fst gs), t)" and t: "talks_started tick w gs t"
      by (auto simp: I_def split: prod.splits)
    note f = talking_regs [OF t]
    have fs: "has (activity (reg w)) x \<and> has (identity (reg w)) x" if "x \<in> members gs" for x
      using that t by (auto simp: members_def talks_started_def group_ok_def free_speaker_def)
    have "speakers_known (reg t)"
      unfolding speakers_known_def f using known fs unfolding speakers_known_def by blast
    moreover have "cells_ok (grid_reg t)" using cells t by (simp add: talks_started_def)
    moreover have "has (location (reg t)) e" "has (activity (reg t)) e" "\<not> has (player_tag (reg t)) e"
        "alive_mind (reg t) e"
      using e fs unfolding f by (auto simp: all_npcs_def cd_only_regs [OF w1(2)])
    ultimately obtain hs t' where "social_turn env tick e s = Some (concat (List.map fst gs) @ concat (List.map fst hs), t')"
      "talks_started tick t hs t'"
      using social_turn_ok [OF env] unfolding s by blast
    with talks_trans [OF t] show "\<exists>s'. social_turn env tick e s = Some s' \<and> I s'"
      by (auto simp: I_def intro: exI [of _ "gs @ hs"])
  qed
  then obtain dl t gs where "foldM (social_turn env tick) (all_npcs env (reg w1)) ([], w1) = Some (dl, t)"
    "talks_started tick w gs t" by (auto simp: I_def)
  with w1(1) show ?thesis by (auto simp: SystemSocialInteraction_def)
qed


text \<open>Two friends in a pub.\<close>

definition pub_registry :: registry where
  "pub_registry = registry_init\<lparr>live := [0, 1], next_entity := 2,
     identity := [0 \<mapsto> \<lparr>npc_id = 1, display_name = ''Eva''\<rparr>, 1 \<mapsto> \<lparr>npc_id = 2, display_name = ''Tom''\<rparr>],
     location := [0 \<mapsto> LocationComp_default\<lparr>location_name := ''Pub'', loc_type := LtPub\<rparr>,
       1 \<mapsto> LocationComp_default\<lparr>location_name := ''Pub'', loc_type := LtPub\<rparr>],
     activity := [0 \<mapsto> [], 1 \<mapsto> []]\<rparr>"

definition pub_world :: world where
  "pub_world = \<lparr>reg = pub_registry,
     grid_reg = place_entity 1 (GetCellKey (Fin 0) (Fin 0))
       (place_entity 0 (GetCellKey (Fin 0) (Fin 0)) LocationRegistry_init),
     tcp = TcpServer_init, backpressure = (\<lambda>_. bp_init), outbox = [], rands = (\<lambda>_. 0),
     dice = (\<lambda>_. Fin 0), contagion_dice = (\<lambda>_. Fin 0), disc_draws = (\<lambda>_. (Fin 0, Fin 0)),
     shuffles = 0, contagion_ids = None\<rparr>"

definition pub_env :: env where
  "pub_env = \<lparr>order = live, cos_f = (\<lambda>x. x), sin_f = (\<lambda>x. x), entity_int = int,
     walk_map = GridMap_init, shuffled = (\<lambda>_ xs. xs), encode = (\<lambda>_. []),
     parse_login = (\<lambda>_. None), parse_move = (\<lambda>_. None), parse_talk = (\<lambda>_. None),
     parse_message = (\<lambda>_. None), parse_end = (\<lambda>_. None), parse_status = (\<lambda>_. None)\<rparr>"


end
