(* ===== verification/Jobs.thy ===== *)
theory Jobs
  imports BehaviorInv
begin

text \<open>
  Needs and jobs: the decay of hunger and fatigue and the return of furniture
  (\<open>SystemSurvival.cpp\<close>), the state machine of a job (\<open>SystemJobDriver.cpp\<close>), and what busy
  agents show meanwhile (\<open>SystemAmbient.cpp\<close>). The systems keep the invariant of the
  behaviour trees.
\<close>

section \<open>Needs\<close>

text \<open>\<open>is_scheduled_sleep\<close> and \<open>is_scheduled_eat\<close>.\<close>

definition scheduled :: "JobCategory \<Rightarrow> JobComp \<Rightarrow> ToilComp \<Rightarrow> bool" where
  "scheduled c j t \<longleftrightarrow> is_active j \<and> toil_state t = TsWorking \<and> category j = c"

definition decay_need :: "fl \<Rightarrow> bool \<Rightarrow> fl \<Rightarrow> fl" where
  "decay_need rate skip x =
     (let y = (if skip then x else fsub x rate) in if flt y (Fin 0) then Fin 0 else y)"

definition needs_decay :: "JobComp \<Rightarrow> ToilComp \<Rightarrow> NeedsComp \<Rightarrow> NeedsComp" where
  "needs_decay j t n =
     (let skip_hunger = (is_resolving_survival n \<and> current_survival_type n = SvHunger) \<or>
            (scheduled JcEat j t \<and> occupied_furniture n \<noteq> None);
          skip_fatigue = (is_resolving_survival n \<and> current_survival_type n = SvFatigue) \<or>
            (scheduled JcSleep j t \<and> occupied_furniture n \<noteq> None)
      in n\<lparr>hunger := decay_need (flit 0.045) skip_hunger (hunger n),
           fatigue := decay_need (flit 0.025) skip_fatigue (fatigue n)\<rparr>)"

definition SystemSurvivalOverride :: "env \<Rightarrow> world \<Rightarrow> world option" where
  "SystemSurvivalOverride env w =
     view_each env (\<lambda>r e. has (needs r) e \<and> has (location r) e \<and> has (toil r) e \<and> has (job r) e)
       (\<lambda>e w. do { n \<leftarrow> needs (reg w) e; t \<leftarrow> toil (reg w) e; j \<leftarrow> job (reg w) e;
                   Some (put_needs e (needs_decay j t n) w) }) w"

section \<open>Furniture of scheduled activities\<close>

text \<open>An occupant that is gone or that uses something else.\<close>

definition stale_occupant :: "registry \<Rightarrow> entity \<Rightarrow> AffordanceComp \<Rightarrow> bool" where
  "stale_occupant r f aff =
     (case occupied_by aff of
        None \<Rightarrow> False
      | Some x \<Rightarrow> \<not> valid r x \<or>
          (case needs r x of None \<Rightarrow> True | Some n \<Rightarrow> occupied_furniture n \<noteq> Some f))"

definition fix_occupants :: "env \<Rightarrow> world \<Rightarrow> world option" where
  "fix_occupants env w =
     view_each env (\<lambda>r f. has (affordance r) f)
       (\<lambda>f w. do { aff \<leftarrow> affordance (reg w) f;
                   Some (if stale_occupant (reg w) f aff
                         then put_affordance f (aff\<lparr>occupied_by := None\<rparr>) w else w) }) w"

definition keep_furniture :: "registry \<Rightarrow> entity \<Rightarrow> JobComp \<Rightarrow> ToilComp \<Rightarrow> bool option" where
  "keep_furniture r f j t =
     (if scheduled JcSleep j t
      then if valid r f
           then map_option (\<lambda>aff. aff_type aff \<in> {AfSleep, AfSit}) (affordance r f)
           else Some False
      else if scheduled JcEat j t
      then if valid r f
           then map_option (\<lambda>aff. aff_type aff \<in> {AfEat, AfDrink, AfSit}) (affordance r f)
           else Some False
      else Some False)"

text \<open>Free the piece, and take it away when its name marks it as temporary.\<close>

definition return_furniture :: "entity \<Rightarrow> world \<Rightarrow> world option" where
  "return_furniture f w = do {
     aff \<leftarrow> affordance (reg w) f;
     let w1 = put_affordance f (aff\<lparr>occupied_by := None\<rparr>) w;
     Some (case identity (reg w1) f of
         None \<Rightarrow> w1
       | Some i \<Rightarrow> if contains lit_temp (display_name i)
                   then destroy_entity f (w1\<lparr>grid_reg := RemoveEntity f (grid_reg w1)\<rparr>)
                   else w1)
   }"

definition resolve_affordance :: "entity \<Rightarrow> world \<Rightarrow> world option" where
  "resolve_affordance e w = do {
     n \<leftarrow> needs (reg w) e;
     t \<leftarrow> toil (reg w) e;
     j \<leftarrow> job (reg w) e;
     if is_resolving_survival n then Some w
     else case occupied_furniture n of
         None \<Rightarrow> Some w
       | Some f \<Rightarrow> do {
           keep \<leftarrow> keep_furniture (reg w) f j t;
           if keep then Some w
           else do {
             w1 \<leftarrow> (if valid (reg w) f then return_furniture f w else Some w);
             n1 \<leftarrow> needs (reg w1) e;
             Some (put_needs e (n1\<lparr>occupied_furniture := None\<rparr>) w1)
           }
         }
   }"

definition SystemAffordanceResolver :: "env \<Rightarrow> world \<Rightarrow> world option" where
  "SystemAffordanceResolver env w = do {
     w1 \<leftarrow> fix_occupants env w;
     view_each env (\<lambda>r e. has (needs r) e \<and> has (toil r) e \<and> has (job r) e) resolve_affordance w1
   }"

section \<open>The job state machine\<close>

text \<open>Leaving for a far target starts with full needs.\<close>

definition prepare_expedition :: "entity \<Rightarrow> LocationComp \<Rightarrow> JobComp \<Rightarrow> world \<Rightarrow> world" where
  "prepare_expedition e loc j w =
     (if flt (flit 150) (dist2 (fsub (target_x j) (lc_x loc)) (fsub (target_z j) (lc_z loc)))
      then case needs (reg w) e of
             None \<Rightarrow> w
           | Some n \<Rightarrow> put_needs e (n\<lparr>hunger := flit 100, fatigue := flit 100\<rparr>) w
      else w)"

definition start_job :: "entity \<Rightarrow> LocationComp \<Rightarrow> JobComp \<Rightarrow> ToilComp \<Rightarrow> world \<Rightarrow> world" where
  "start_job e loc j t w =
     (if location_name loc \<noteq> target_location j
      then prepare_expedition e loc j
             (put_activity e (lit_moving_to @ target_location j) (put_toil e (t\<lparr>toil_state := TsMoving\<rparr>) w))
      else put_activity e (intent j)
             (put_toil e (t\<lparr>toil_state := TsWorking, duration_ticks := 3\<rparr>) w))"

definition work_job ::
  "int \<Rightarrow> entity \<Rightarrow> IdentityComp \<Rightarrow> JobComp \<Rightarrow> ToilComp \<Rightarrow> world \<Rightarrow> world" where
  "work_job tick e ident j t w =
     (let t1 = (if duration_ticks t > 0 then t\<lparr>duration_ticks := duration_ticks t - 1\<rparr> else t)
      in if duration_ticks t1 \<le> 0
         then call_rpc (ReportJobStatus (npc_id ident) (job_id j) 0 UNKNOWN_REASON lit_schedule_done tick) KNone
                (put_busy e \<lparr>busy_reason = BrScheduleWait, anim_timer = Fin 0\<rparr>
                  (put_activity e lit_waiting
                    (put_toil e (t1\<lparr>toil_state := TsIdle\<rparr>) (put_job e (j\<lparr>is_active := False\<rparr>) w))))
         else put_toil e t1 w)"

text \<open>The first switch to \<open>Interrupted\<close> reports the running job.\<close>

definition interrupt_job ::
  "int \<Rightarrow> entity \<Rightarrow> IdentityComp \<Rightarrow> JobComp \<Rightarrow> ToilComp \<Rightarrow> world \<Rightarrow> world" where
  "interrupt_job tick e ident j t w =
     (if toil_state t = TsInterrupted then w
      else let w1 = (if is_active j
              then call_rpc (ReportJobStatus (npc_id ident) (job_id j) 2 DIALOGUE_BUSY
                     lit_busy_dialogue_ctx tick) (KJobReport e) w
              else w)
           in put_activity e lit_in_dialogue (put_toil e (t\<lparr>toil_state := TsInterrupted\<rparr>) w1))"

definition drive_job ::
  "int \<Rightarrow> entity \<Rightarrow> LocationComp \<Rightarrow> IdentityComp \<Rightarrow> JobComp \<Rightarrow> ToilComp \<Rightarrow> world \<Rightarrow> world" where
  "drive_job tick e loc ident j t w =
     (let t1 = (if toil_state t = TsInterrupted then t\<lparr>toil_state := TsIdle\<rparr> else t);
          w1 = (if toil_state t = TsInterrupted
                then put_activity e lit_waiting (put_toil e t1 w) else w)
      in if \<not> is_active j
         then put_activity e lit_waiting (put_toil e (t1\<lparr>toil_state := TsIdle\<rparr>) w1)
         else case toil_state t1 of
                TsIdle \<Rightarrow> start_job e loc j t1 w1
              | TsMoving \<Rightarrow> w1
              | TsWorking \<Rightarrow> work_job tick e ident j t1 w1
              | TsInterrupted \<Rightarrow> w1)"

text \<open>Who is not driven: the dead, those a behaviour tree steers, and wanderers.\<close>

definition job_paused :: "registry \<Rightarrow> entity \<Rightarrow> JobComp \<Rightarrow> bool" where
  "job_paused r e j \<longleftrightarrow>
     (case health r e of None \<Rightarrow> False | Some h \<Rightarrow> is_dead h) \<or>
     (case needs r e of None \<Rightarrow> False | Some n \<Rightarrow> is_resolving_survival n) \<or>
     (case combat r e of None \<Rightarrow> False | Some c \<Rightarrow> target_entity c \<noteq> None) \<or>
     intent j = lit_wandering"

definition job_tick :: "int \<Rightarrow> entity \<Rightarrow> world \<Rightarrow> world option" where
  "job_tick tick e w = do {
     loc \<leftarrow> location (reg w) e;
     act \<leftarrow> activity (reg w) e;
     ident \<leftarrow> identity (reg w) e;
     let j = get_or JobComp_default (job (reg w)) e;
     let t = get_or ToilComp_default (toil (reg w)) e;
     let w1 = put_toil e t (put_job e j w);
     Some (if job_paused (reg w1) e j then w1
           else if has (busy (reg w1)) e then interrupt_job tick e ident j t w1
           else drive_job tick e loc ident j t w1)
   }"

definition SystemJobDriver :: "env \<Rightarrow> int \<Rightarrow> world \<Rightarrow> world option" where
  "SystemJobDriver env tick w =
     view_each env (\<lambda>r e. has (location r) e \<and> has (activity r) e \<and> has (identity r) e) (job_tick tick) w"

text \<open>The answer to the report of an interrupted job.\<close>

definition JobCategory_of :: "nat \<Rightarrow> JobCategory" where
  "JobCategory_of n = (if n < 8 then [JcUnspecified, JcSleep, JcEat, JcSocial, JcWork, JcTravel,
     JcSurvival, JcCombat] ! n else JcUnspecified)"

definition on_job_report :: "entity \<Rightarrow> bool \<Rightarrow> bool \<Rightarrow> JobPayload \<Rightarrow> world \<Rightarrow> world" where
  "on_job_report e success has_new_job p w =
     (if success \<and> valid (reg w) e \<and> has_new_job
      then case job (reg w) e of
             None \<Rightarrow> w
           | Some j \<Rightarrow>
               put_toil e ((get_or ToilComp_default (toil (reg w)) e)\<lparr>toil_state := TsIdle, duration_ticks := 0\<rparr>)
                 (put_job e (j\<lparr>job_id := jp_job_id p, target_location := jp_target_location p,
                    intent := jp_intent p, target_agent_id := jp_target_agent_id p,
                    priority := jp_priority p, category := JobCategory_of (jp_category p),
                    is_active := True\<rparr>) w)
      else w)"

section \<open>Busy agents\<close>

definition ambient_step :: "fl \<Rightarrow> BusyTag \<Rightarrow> ToilComp \<Rightarrow> BusyTag \<times> string \<times> ToilComp" where
  "ambient_step dt b t =
     (let b1 = b\<lparr>anim_timer := fadd (anim_timer b) dt\<rparr>
      in case busy_reason b of
           BrDialogue \<Rightarrow> (b1, lit_in_dialogue, t\<lparr>current_action :=
              (if toil_state t = TsInterrupted then ''Dialogue_Talking'' else ''Dialogue_Listening'')\<rparr>)
         | BrReflection \<Rightarrow> (if flt (flit 10) (anim_timer b1) then b1\<lparr>anim_timer := Fin 0\<rparr> else b1,
              lit_reflecting, t\<lparr>current_action := ''Thinking''\<rparr>)
         | BrScheduleWait \<Rightarrow> (if flt (flit 8) (anim_timer b1) then b1\<lparr>anim_timer := Fin 0\<rparr> else b1,
              lit_schedule_wait, t\<lparr>current_action := ''WanderingAround''\<rparr>))"

definition ambient_tick :: "fl \<Rightarrow> entity \<Rightarrow> world \<Rightarrow> world option" where
  "ambient_tick dt e w = do {
     b \<leftarrow> busy (reg w) e;
     act \<leftarrow> activity (reg w) e;
     t \<leftarrow> toil (reg w) e;
     v \<leftarrow> velocity (reg w) e;
     let v1 = (if busy_reason b \<in> {BrDialogue, BrReflection}
               then v\<lparr>dir_x := Fin 0, dir_z := Fin 0, vel_speed := Fin 0\<rparr> else v);
     let (b1, act1, t1) = ambient_step dt b t;
     Some (put_toil e t1 (put_activity e act1 (put_velocity e v1 (put_busy e b1 w))))
   }"

definition SystemBusyAmbient :: "env \<Rightarrow> fl \<Rightarrow> world \<Rightarrow> world option" where
  "SystemBusyAmbient env dt w =
     view_each env (\<lambda>r e. has (busy r) e \<and> has (activity r) e \<and> has (toil r) e \<and> has (velocity r) e \<and>
       has (identity r) e) (ambient_tick dt) w"

section \<open>Properties of the needs\<close>

lemma rate_values:
  "flit 0.045 = Fin (12079596 / 268435456)" "flit 0.025 = Fin (13421773 / 536870912)"
  by code_simp+

text \<open>One step never raises a need, keeps it in range, and lowers it by the rate up to rounding.\<close>

lemma decay_need_step:
  assumes x: "repr F32 x" "0 \<le> x" "x \<le> 100" and r: "0 \<le> r" "r \<le> 1"
  shows "\<exists>y. decay_need (Fin r) skip (Fin x) = Fin y \<and> repr F32 y \<and> 0 \<le> y \<and> y \<le> x \<and>
    (\<not> skip \<longrightarrow> y \<le> max 0 (x - r + 1 / 262144))"
proof (cases skip)
  case True
  with x show ?thesis by (simp add: decay_need_def)
next
  case False
  have m1: "repr F32 (- 1)" using repr_of_int [of "-1" F32] by simp
  have "\<exists>y. rnd F32 (x - r) = Fin y \<and> - 1 \<le> y \<and> y \<le> x \<and> repr F32 y"
    by (rule rnd_finite) (use x r m1 in auto)
  then obtain y where y: "rnd F32 (x - r) = Fin y" "y \<le> x" "repr F32 y" by blast
  have z: "repr F32 0" using repr_of_int [of 0 F32] by simp
  have d: "decay_need (Fin r) skip (Fin x) = Fin (max 0 y)"
    using False y(1) by (auto simp: decay_need_def fl_sub_def max_def)
  have "max 0 y \<le> max 0 (x - r + 1 / 262144)"
  proof (cases "0 < x - r")
    case True
    have "rnd_rat F32 (x - r) = y" using y(1) by (auto simp: rnd_def Let_def split: if_splits)
    then have "\<bar>y - (x - r)\<bar> \<le> 2 powi ulp_exp F32 (x - r) / 2" using rnd_rat_err [of F32 "x - r"] by simp
    moreover have "ulp_exp F32 (x - r) \<le> ulp_exp F32 100"
      by (rule ulp_exp_mono [OF True]) (use x r in simp)
    moreover have "ulp_exp F32 100 = - 17" by code_simp
    ultimately have "2 powi ulp_exp F32 (x - r) \<le> (2 powi (- 17) :: rat)"
      "\<bar>y - (x - r)\<bar> \<le> 2 powi ulp_exp F32 (x - r) / 2"
      by (simp_all only: p2_mono)
    then have "\<bar>y - (x - r)\<bar> \<le> 2 powi (- 17) / 2" by linarith
    then have "\<bar>y - (x - r)\<bar> \<le> 1 / 262144" by (simp add: power_int_minus)
    then have "y \<le> x - r + 1 / 262144" by linarith
    then show ?thesis by linarith
  next
    case False
    then have "y \<le> 0" using rnd_le [OF y(1) _ z] by simp
    then show ?thesis by simp
  qed
  with d y x z False show ?thesis by (auto simp: max_def split: if_splits)
qed

definition need_ok :: "fl \<Rightarrow> bool" where
  "need_ok v \<longleftrightarrow> (\<exists>x. v = Fin x \<and> repr F32 x \<and> 0 \<le> x \<and> x \<le> 100)"

lemma needs_decay_ok:
  assumes "need_ok (hunger n)" "need_ok (fatigue n)"
  shows "need_ok (hunger (needs_decay j t n))" "need_ok (fatigue (needs_decay j t n))"
    "fle (hunger (needs_decay j t n)) (hunger n)" "fle (fatigue (needs_decay j t n)) (fatigue n)"
proof -
  obtain x y where xy: "hunger n = Fin x" "repr F32 x" "0 \<le> x" "x \<le> 100"
    "fatigue n = Fin y" "repr F32 y" "0 \<le> y" "y \<le> 100"
    using assms by (auto simp: need_ok_def)
  have h: "need_ok (decay_need (flit 0.045) s (hunger n)) \<and> fle (decay_need (flit 0.045) s (hunger n)) (hunger n)" for s
    using decay_need_step [OF xy(2-4), of "12079596 / 268435456" s] xy
    unfolding rate_values need_ok_def by auto
  have f: "need_ok (decay_need (flit 0.025) s (fatigue n)) \<and> fle (decay_need (flit 0.025) s (fatigue n)) (fatigue n)" for s
    using decay_need_step [OF xy(6-8), of "13421773 / 536870912" s] xy
    unfolding rate_values need_ok_def by auto
  show "need_ok (hunger (needs_decay j t n))" "need_ok (fatigue (needs_decay j t n))"
    "fle (hunger (needs_decay j t n)) (hunger n)" "fle (fatigue (needs_decay j t n)) (fatigue n)"
    using h f by (simp_all add: needs_decay_def Let_def)
qed

lemma hunger_bound:
  assumes "need_ok (hunger n)" "\<not> is_resolving_survival n" "\<forall>(j, t)\<in>set jts. \<not> scheduled JcEat j t"
    "hunger n = Fin x" "x \<le> b"
  shows "\<exists>y. hunger (fold (\<lambda>(j, t). needs_decay j t) jts n) = Fin y \<and>
    y \<le> max 0 (b - of_nat (length jts) * 0.0449)"
  using assms
proof (induction jts arbitrary: n x b)
  case Nil
  then show ?case by auto
next
  case (Cons jt jts)
  obtain j t where jt: "jt = (j, t)" by fastforce
  have x: "repr F32 x" "0 \<le> x" "x \<le> 100" using Cons.prems(1,4) by (auto simp: need_ok_def)
  define n1 where "n1 = needs_decay j t n"
  have "hunger n1 = decay_need (flit 0.045) False (Fin x)"
    using Cons.prems by (simp add: n1_def needs_decay_def Let_def jt)
  then obtain y where y: "hunger n1 = Fin y" "repr F32 y" "0 \<le> y" "y \<le> x"
    "y \<le> max 0 (x - 12079596 / 268435456 + 1 / 262144)"
    using decay_need_step [OF x, of "12079596 / 268435456" False] unfolding rate_values by auto
  have "\<exists>z. hunger (fold (\<lambda>(j, t). needs_decay j t) jts n1) = Fin z \<and>
      z \<le> max 0 (max 0 (b - 0.0449) - of_nat (length jts) * 0.0449)"
  proof (rule Cons.IH)
    show "need_ok (hunger n1)" using y x by (auto simp: need_ok_def)
    show "\<not> is_resolving_survival n1" using Cons.prems by (simp add: n1_def needs_decay_def Let_def)
    show "\<forall>(j, t)\<in>set jts. \<not> scheduled JcEat j t" using Cons.prems by simp
    show "hunger n1 = Fin y" by (rule y(1))
    show "y \<le> max 0 (b - 0.0449)" using y(5) Cons.prems(5) by (auto simp: max_def split: if_splits)
  qed
  moreover have "max 0 (max 0 (b - 0.0449) - of_nat (length jts) * 0.0449) \<le>
      max 0 (b - of_nat (length (jt # jts)) * (0.0449 :: rat))"
    by (simp add: max_def algebra_simps)
  ultimately show ?case by (auto simp: jt n1_def intro: order_trans)
qed

section \<open>The systems keep the invariant of the trees\<close>

text \<open>Agents and furniture are live entities.\<close>

definition needs_live :: "registry \<Rightarrow> bool" where
  "needs_live r \<longleftrightarrow> (\<forall>e. e \<in> dom (needs r) \<union> dom (affordance r) \<longrightarrow> valid r e)"

definition sim_inv :: "registry \<Rightarrow> bool" where
  "sim_inv r \<longleftrightarrow> bt_inv r \<and> needs_live r"

lemma quiet_sim_inv: "quiet r r' \<Longrightarrow> sim_inv r \<Longrightarrow> sim_inv r'"
  using quiet_bt_inv [of r r'] by (auto simp: sim_inv_def needs_live_def valid_def quiet_def)

lemma quiet_trans:
  assumes "quiet a b" "quiet b c"
  shows "quiet a c"
proof -
  have s: "A \<subseteq> B \<Longrightarrow> B \<subseteq> C \<Longrightarrow> A \<subseteq> C" for A B C :: "entity set" by blast
  have sub:
    "dom (identity a) \<subseteq> dom (identity b)" "dom (identity b) \<subseteq> dom (identity c)"
    "dom (location a) \<subseteq> dom (location b)" "dom (location b) \<subseteq> dom (location c)"
    "dom (activity a) \<subseteq> dom (activity b)" "dom (activity b) \<subseteq> dom (activity c)"
    "dom (job a) \<subseteq> dom (job b)" "dom (job b) \<subseteq> dom (job c)"
    "dom (toil a) \<subseteq> dom (toil b)" "dom (toil b) \<subseteq> dom (toil c)"
    "dom (health a) \<subseteq> dom (health b)" "dom (health b) \<subseteq> dom (health c)"
    "dom (job b) \<subseteq> dom (job a) \<union> dom (activity b)" "dom (job c) \<subseteq> dom (job b) \<union> dom (activity c)"
    using assms by (simp_all only: quiet_def)
  have "dom (job c) \<subseteq> dom (job a) \<union> dom (activity c)" using sub(6,13,14) by blast
  moreover note s [OF sub(1) sub(2)] s [OF sub(3) sub(4)] s [OF sub(5) sub(6)] s [OF sub(7) sub(8)] s [OF sub(9) sub(10)] s [OF sub(11) sub(12)]
  ultimately show ?thesis using assms by (simp only: quiet_def simp_thms)
qed

text \<open>A system whose visits are all quiet.\<close>

lemma quiet_view:
  assumes i: "sim_inv (reg w)"
    and step: "\<And>e t. sim_inv (reg t) \<Longrightarrow> P (reg t) e \<Longrightarrow> \<exists>t'. f e t = Some t' \<and> quiet (reg t) (reg t')"
  shows "\<exists>w'. view_each env P f w = Some w' \<and> sim_inv (reg w')"
  unfolding view_each_def
proof (rule foldM_total [where I = "\<lambda>w. sim_inv (reg w)", OF i])
  fix x and t :: world
  assume t: "sim_inv (reg t)"
  show "\<exists>t'. (if P (reg t) x then f x t else Some t) = Some t' \<and> sim_inv (reg t')"
  proof (cases "P (reg t) x")
    case True
    from step [OF t this] obtain t' where "f x t = Some t'" "quiet (reg t) (reg t')" by blast
    with quiet_sim_inv [OF _ t] True show ?thesis by auto
  next
    case False
    with t show ?thesis by simp
  qed
qed

lemma SystemSurvivalOverride_total:
  assumes "sim_inv (reg w)"
  shows "\<exists>w'. SystemSurvivalOverride env w = Some w' \<and> sim_inv (reg w')"
  unfolding SystemSurvivalOverride_def
  by (rule quiet_view [OF assms]) (auto simp: quiet_defs needs_decay_def Let_def)

lemma quiet_puts:
  "quiet (reg w) (reg (put_toil e t w))"
  "has (activity (reg w)) e \<Longrightarrow> quiet (reg w) (reg (put_job e j w))"
  "quiet (reg w) (reg (put_activity e a w))" "quiet (reg w) (reg (put_busy e b w))"
  "quiet (reg w) (reg (call_rpc c k w))"
  by (auto simp: quiet_defs)

lemma start_job_quiet: "quiet (reg w) (reg (start_job e loc j t w))"
proof -
  have p: "quiet (reg x) (reg (prepare_expedition e loc j x))" for x
    by (auto simp: prepare_expedition_def quiet_defs split: option.split)
  note put = quiet_trans [OF quiet_puts(1) quiet_puts(3)]
  show ?thesis
    using put quiet_trans [OF put p] by (simp add: start_job_def)
qed

lemma work_job_quiet:
  "has (activity (reg w)) e \<Longrightarrow> quiet (reg w) (reg (work_job tick e ident j t w))"
  unfolding work_job_def Let_def by (auto simp del: split_paired_All intro!: quiet_puts quiet_trans [OF _ quiet_puts(5)]
      quiet_trans [OF _ quiet_puts(4)] quiet_trans [OF _ quiet_puts(3)] quiet_trans [OF _ quiet_puts(1)])

lemma drive_job_quiet:
  assumes a: "has (activity (reg w)) e"
  shows "quiet (reg w) (reg (drive_job tick e loc ident j t w))"
proof -
  define t1 where "t1 = (if toil_state t = TsInterrupted then t\<lparr>toil_state := TsIdle\<rparr> else t)"
  define w1 where "w1 = (if toil_state t = TsInterrupted then put_activity e lit_waiting (put_toil e t1 w) else w)"
  have q: "quiet (reg w) (reg w1)"
    using quiet_trans [OF quiet_puts(1) quiet_puts(3)] by (simp add: w1_def)
  have a1: "has (activity (reg w1)) e" using a by (simp add: w1_def put_defs)
  have "quiet (reg w1) (reg (put_activity e lit_waiting (put_toil e (t1\<lparr>toil_state := TsIdle\<rparr>) w1)))"
    by (rule quiet_trans [OF quiet_puts(1) quiet_puts(3)])
  moreover have "drive_job tick e loc ident j t w =
      (if \<not> is_active j then put_activity e lit_waiting (put_toil e (t1\<lparr>toil_state := TsIdle\<rparr>) w1)
       else case toil_state t1 of TsIdle \<Rightarrow> start_job e loc j t1 w1 | TsMoving \<Rightarrow> w1
         | TsWorking \<Rightarrow> work_job tick e ident j t1 w1 | TsInterrupted \<Rightarrow> w1)"
    by (simp only: drive_job_def Let_def t1_def w1_def)
  ultimately show ?thesis
    using q quiet_trans [OF q start_job_quiet] quiet_trans [OF q work_job_quiet [OF a1]] quiet_trans [OF q]
    by (simp split: ToilState.split)
qed

lemma interrupt_job_quiet: "quiet (reg w) (reg (interrupt_job tick e ident j t w))"
  unfolding interrupt_job_def Let_def
  by (auto intro!: quiet_puts quiet_trans [OF _ quiet_puts(3)] quiet_trans [OF _ quiet_puts(1)])

lemma job_tick_quiet:
  assumes "has (location (reg w)) e" "has (activity (reg w)) e" "has (identity (reg w)) e"
  shows "\<exists>w'. job_tick tick e w = Some w' \<and> quiet (reg w) (reg w')"
proof -
  obtain loc act ident where c: "location (reg w) e = Some loc" "activity (reg w) e = Some act"
    "identity (reg w) e = Some ident" using assms by auto
  define j where "j = get_or JobComp_default (job (reg w)) e"
  define t where "t = get_or ToilComp_default (toil (reg w)) e"
  define w1 where "w1 = put_toil e t (put_job e j w)"
  have q: "quiet (reg w) (reg w1)"
    unfolding w1_def by (rule quiet_trans [OF quiet_puts(2) quiet_puts(1)]) (simp add: c)
  have a1: "has (activity (reg w1)) e" by (simp add: w1_def put_defs c)
  note quiet_trans [OF q interrupt_job_quiet] quiet_trans [OF q drive_job_quiet [OF a1]]
  with c q show ?thesis
    by (simp add: job_tick_def Let_def j_def [symmetric] t_def [symmetric] w1_def [symmetric])
qed

lemma SystemJobDriver_total:
  assumes "sim_inv (reg w)"
  shows "\<exists>w'. SystemJobDriver env tick w = Some w' \<and> sim_inv (reg w')"
  unfolding SystemJobDriver_def by (rule quiet_view [OF assms]) (blast intro: job_tick_quiet)

lemma SystemBusyAmbient_total:
  assumes "sim_inv (reg w)"
  shows "\<exists>w'. SystemBusyAmbient env dt w = Some w' \<and> sim_inv (reg w')"
  unfolding SystemBusyAmbient_def
  by (rule quiet_view [OF assms]) (auto simp: ambient_tick_def Let_def quiet_defs split: prod.split)

lemma on_job_report_inv: "sim_inv (reg w) \<Longrightarrow> sim_inv (reg (on_job_report e success has_new p w))"
  by (rule quiet_sim_inv [rotated]) (auto simp: on_job_report_def quiet_defs split: option.split)

subsection \<open>Furniture\<close>

text \<open>Under the invariant nobody needs fixing.\<close>

lemma not_stale: "sim_inv r \<Longrightarrow> affordance r f = Some aff \<Longrightarrow> \<not> stale_occupant r f aff"
proof -
  assume i: "sim_inv r" and a: "affordance r f = Some aff"
  show ?thesis
  proof (cases "occupied_by aff")
    case None
    then show ?thesis by (simp add: stale_occupant_def)
  next
    case (Some x)
    then have "occupant r f = Some x" using a by (simp add: occupant_def)
    then have "occupied r x = Some f" using i by (simp add: sim_inv_def bt_inv_def occupancy_ok_def)
    then obtain n where "needs r x = Some n" "occupied_furniture n = Some f"
      by (auto simp: occupied_def split: option.splits)
    moreover have "valid r x" using i calculation(1) by (auto simp: sim_inv_def needs_live_def)
    ultimately show ?thesis by (simp add: stale_occupant_def Some)
  qed
qed

lemma fix_occupants_id: "sim_inv (reg w) \<Longrightarrow> fix_occupants env w = Some w"
proof -
  assume i: "sim_inv (reg w)"
  define step where "step = (\<lambda>f (w :: world). if has (affordance (reg w)) f
     then do { aff \<leftarrow> affordance (reg w) f;
               Some (if stale_occupant (reg w) f aff
                     then put_affordance f (aff\<lparr>occupied_by := None\<rparr>) w else w) }
     else Some w)"
  have s: "step f w = Some w" for f using not_stale [OF i] by (auto simp: step_def)
  have "foldM step fs w = Some w" for fs by (induction fs) (simp_all add: s)
  then show ?thesis by (simp add: fix_occupants_def view_each_def step_def)
qed

text \<open>Giving a piece back on behalf of its occupant.\<close>

lemma returned_ok:
  assumes i: "sim_inv (reg w)" and n: "needs (reg w) e = Some n" "occupied_furniture n = Some f"
  shows "\<exists>w1. return_furniture f w = Some w1 \<and> needs (reg w1) e = Some n \<and>
    sim_inv (reg (put_needs e (n\<lparr>occupied_furniture := None\<rparr>) w1))"
proof -
  have bi: "bt_inv (reg w)" and nl: "needs_live (reg w)" using i by (auto simp: sim_inv_def)
  obtain aff where aff: "affordance (reg w) f = Some aff" "occupied_by aff = Some e" "f \<noteq> e"
    by (rule occupied_affordance [OF bi n])
  define n' where "n' = n\<lparr>occupied_furniture := None\<rparr>"
  define r1 where "r1 = (reg w)\<lparr>affordance := (affordance (reg w))(f \<mapsto> aff\<lparr>occupied_by := None\<rparr>),
    needs := (needs (reg w))(e \<mapsto> n')\<rparr>"
  have i1: "bt_inv r1" unfolding r1_def by (rule release_bt_inv [OF bi n aff(1)]) (simp add: n'_def)
  have d: "bt_inv (destroy f r1)"
    using destroy_bt_inv [OF i1, of f "aff\<lparr>occupied_by := None\<rparr>"] by (simp add: r1_def)
  have nf: "needs (reg w) f = None" using bi aff(1) by (simp add: bt_inv_def furniture_ok_def)
  have nl1: "needs_live r1" "needs_live (destroy f r1)"
    using nl n nf aff(1,3) by (auto simp: needs_live_def r1_def destroy_def valid_def)
  obtain w1 where w1: "return_furniture f w = Some w1" using aff by (simp add: return_furniture_def Let_def)
  have "reg (put_needs e n' w1) \<in> {destroy f r1, r1}"
    using w1 aff by (auto simp: return_furniture_def Let_def put_defs r1_def destroy_entity_def destroy_def
        fun_upd_twist split: option.splits if_splits)
  moreover have "needs (reg w1) e = Some n"
    using w1 aff n by (auto simp: return_furniture_def Let_def put_defs destroy_entity_def destroy_def
        split: option.splits if_splits)
  ultimately show ?thesis using w1 i1 d nl1 by (auto simp: sim_inv_def n'_def)
qed

lemma resolve_affordance_ok:
  assumes i: "sim_inv (reg w)" and c: "has (needs (reg w)) e" "has (toil (reg w)) e" "has (job (reg w)) e"
  shows "\<exists>w'. resolve_affordance e w = Some w' \<and> sim_inv (reg w')"
proof -
  obtain n t j where n: "needs (reg w) e = Some n" "toil (reg w) e = Some t" "job (reg w) e = Some j"
    using c by auto
  show ?thesis
  proof (cases "is_resolving_survival n \<or> occupied_furniture n = None")
    case True
    with n i show ?thesis by (auto simp: resolve_affordance_def)
  next
    case False
    then obtain f where f: "occupied_furniture n = Some f" by auto
    obtain aff where aff: "affordance (reg w) f = Some aff" "occupied_by aff = Some e" "f \<noteq> e"
      using occupied_affordance [OF _ n(1) f] i by (auto simp: sim_inv_def)
    have v: "valid (reg w) f" using i aff(1) by (auto simp: sim_inv_def needs_live_def)
    then have "\<exists>keep. keep_furniture (reg w) f j t = Some keep" by (auto simp: keep_furniture_def aff intro: exI [of _ False])
    then obtain keep where keep: "keep_furniture (reg w) f j t = Some keep" ..
    from returned_ok [OF i n(1) f] obtain w1 where w1: "return_furniture f w = Some w1"
      "needs (reg w1) e = Some n" "sim_inv (reg (put_needs e (n\<lparr>occupied_furniture := None\<rparr>) w1))" by blast
    with v False n f keep i show ?thesis by (auto simp: resolve_affordance_def)
  qed
qed

lemma SystemAffordanceResolver_total:
  assumes "sim_inv (reg w)"
  shows "\<exists>w'. SystemAffordanceResolver env w = Some w' \<and> sim_inv (reg w')"
proof -
  have "\<exists>w'. view_each env (\<lambda>r e. has (needs r) e \<and> has (toil r) e \<and> has (job r) e)
      resolve_affordance w = Some w' \<and> sim_inv (reg w')"
    unfolding view_each_def
  proof (rule foldM_total [where I = "\<lambda>w. sim_inv (reg w)", OF assms])
    fix x and t :: world
    assume t: "sim_inv (reg t)"
    with resolve_affordance_ok [OF t, of x] show "\<exists>t'. (if has (needs (reg t)) x \<and> has (toil (reg t)) x \<and>
        has (job (reg t)) x then resolve_affordance x t else Some t) = Some t' \<and> sim_inv (reg t')" by auto
  qed
  then show ?thesis by (simp add: SystemAffordanceResolver_def fix_occupants_id [OF assms])
qed

section \<open>Properties of needs and jobs\<close>

definition needs_ok :: "registry \<Rightarrow> bool" where
  "needs_ok r \<longleftrightarrow> (\<forall>e n. needs r e = Some n \<longrightarrow> need_ok (hunger n) \<and> need_ok (fatigue n))"

text \<open>No need is higher than in the other registry.\<close>

definition needs_le :: "registry \<Rightarrow> registry \<Rightarrow> bool" where
  "needs_le r' r \<longleftrightarrow> (\<forall>e n'. needs r' e = Some n' \<longrightarrow>
     (\<exists>n. needs r e = Some n \<and> fle (hunger n') (hunger n) \<and> fle (fatigue n') (fatigue n)))"

lemma fle_need_trans: "need_ok a \<Longrightarrow> need_ok b \<Longrightarrow> need_ok c \<Longrightarrow> fle a b \<Longrightarrow> fle b c \<Longrightarrow> fle a c"
  by (auto simp: need_ok_def)

lemma fle_need_refl: "need_ok a \<Longrightarrow> fle a a"
  by (auto simp: need_ok_def)

text \<open>C23: Hunger and fatigue stay in the range from 0 to 100 and a tick of the decay never raises
  one of them, rounding of the float subtraction included, whatever jobs and furniture the
  agents have.\<close>

theorem SystemSurvivalOverride_bounds:
  assumes ok: "needs_ok (reg w)"
  shows "\<exists>w'. SystemSurvivalOverride env w = Some w' \<and> needs_ok (reg w') \<and> needs_le (reg w') (reg w)"
proof -
  have "needs_le (reg w) (reg w)" using ok by (auto simp: needs_le_def needs_ok_def fle_need_refl)
  with ok have start: "needs_ok (reg w) \<and> needs_le (reg w) (reg w)" by blast
  show ?thesis
    unfolding SystemSurvivalOverride_def view_each_def
  proof (rule foldM_total [where I = "\<lambda>t. needs_ok (reg t) \<and> needs_le (reg t) (reg w)", OF start])
    fix e and t :: world
    assume t: "needs_ok (reg t) \<and> needs_le (reg t) (reg w)"
    show "\<exists>t'. (if has (needs (reg t)) e \<and> has (location (reg t)) e \<and> has (toil (reg t)) e \<and> has (job (reg t)) e
        then do { n \<leftarrow> needs (reg t) e; tl \<leftarrow> toil (reg t) e; j \<leftarrow> job (reg t) e;
                  Some (put_needs e (needs_decay j tl n) t) } else Some t) = Some t' \<and>
        needs_ok (reg t') \<and> needs_le (reg t') (reg w)"
    proof (cases "has (needs (reg t)) e \<and> has (location (reg t)) e \<and> has (toil (reg t)) e \<and> has (job (reg t)) e")
      case True
      then obtain n tl j where c: "needs (reg t) e = Some n" "toil (reg t) e = Some tl" "job (reg t) e = Some j"
        by auto
      have n: "need_ok (hunger n)" "need_ok (fatigue n)" using t c by (auto simp: needs_ok_def)
      obtain n0 where n0: "needs (reg w) e = Some n0" "fle (hunger n) (hunger n0)" "fle (fatigue n) (fatigue n0)"
        using t c by (auto simp: needs_le_def)
      have o: "need_ok (hunger n0)" "need_ok (fatigue n0)" using ok n0 by (auto simp: needs_ok_def)
      note d = needs_decay_ok [OF n, of j tl]
      have "needs_ok (reg (put_needs e (needs_decay j tl n) t))"
        using t d by (auto simp: needs_ok_def put_needs_def)
      moreover have "needs_le (reg (put_needs e (needs_decay j tl n) t)) (reg w)"
        using t n0 fle_need_trans [OF d(1) n(1) o(1) d(3) n0(2)] fle_need_trans [OF d(2) n(2) o(2) d(4) n0(3)]
        by (auto simp: needs_le_def put_needs_def)
      ultimately show ?thesis using True c by simp
    next
      case False
      show ?thesis unfolding if_not_P [OF False] using t by simp
    qed
  qed
qed

lemma need_ok_100: "need_ok (flit 100)"
proof -
  have "flit 100 = Fin 100" using rnd_of_int [of 100 F32] by simp
  moreover have "repr F32 100" using repr_of_int [of 100 F32] by simp
  ultimately show ?thesis by (simp add: need_ok_def)
qed

theorem SystemSurvivalOverride_bounds_witness:
  "\<exists>w'. SystemSurvivalOverride demo_env (demo_world demo_registry) = Some w' \<and> needs_ok (reg w')"
proof -
  have "needs_ok (reg (demo_world demo_registry))"
    by (auto simp: needs_ok_def demo_world_def demo_registry_def registry_init_def NeedsComp_default_def
        need_ok_100 split: if_splits)
  from SystemSurvivalOverride_bounds [OF this] show ?thesis by blast
qed



text \<open>A turn of the driver that only counts down.\<close>

lemma job_tick_working:
  assumes "location (reg v) e = Some loc" "has (activity (reg v)) e" "identity (reg v) e = Some ident"
    "job (reg v) e = Some j" "toil (reg v) e = Some tt" "busy (reg v) e = None"
    "toil_state tt = TsWorking" "duration_ticks tt > 1" "\<not> job_paused (reg v) e j" "is_active j"
  shows "\<exists>v'. job_tick tk e v = Some v' \<and> toil (reg v') e = Some (tt\<lparr>duration_ticks := duration_ticks tt - 1\<rparr>) \<and>
    location (reg v') = location (reg v) \<and> activity (reg v') = activity (reg v) \<and>
    identity (reg v') = identity (reg v) \<and> job (reg v') = job (reg v) \<and> busy (reg v') = busy (reg v) \<and>
    health (reg v') = health (reg v) \<and> needs (reg v') = needs (reg v) \<and> combat (reg v') = combat (reg v) \<and>
    outbox v' = outbox v"
  using assms
  by (auto simp: job_tick_def job_paused_def get_or_def drive_job_def work_job_def put_defs Let_def
      intro!: fun_upd_idem)

text \<open>C25: A job at the place where the agent stands takes four ticks of the driver: the first starts
  it, the next three count down, the last one marks it done, makes the agent wait for its
  schedule and reports the completion to the AI server, once; while the agent waits nothing
  more is reported.\<close>

theorem job_completes:
  assumes c: "location (reg w) e = Some loc" "activity (reg w) e = Some act" "identity (reg w) e = Some ident"
    "job (reg w) e = Some j" "toil (reg w) e = Some t" "busy (reg w) e = None"
    and run: "is_active j" "toil_state t = TsIdle" "location_name loc = target_location j"
    and free: "\<not> job_paused (reg w) e j"
  shows "\<exists>w'. foldM (\<lambda>tick. job_tick tick e) [t1, t2, t3, t4, t5] w = Some w' \<and>
    job (reg w') e = Some (j\<lparr>is_active := False\<rparr>) \<and>
    busy (reg w') e = Some \<lparr>busy_reason = BrScheduleWait, anim_timer = Fin 0\<rparr> \<and>
    outbox w' = outbox w @ [(ReportJobStatus (npc_id ident) (job_id j) 0 UNKNOWN_REASON lit_schedule_done t4, KNone)]"
proof -
  have s1: "job_tick t1 e w = Some (put_activity e (intent j)
      (put_toil e (t\<lparr>toil_state := TsWorking, duration_ticks := 3\<rparr>) (put_toil e t (put_job e j w))))"
    using c run free by (simp add: job_tick_def job_paused_def get_or_def drive_job_def start_job_def put_defs)
  define w1 where "w1 = put_activity e (intent j)
      (put_toil e (t\<lparr>toil_state := TsWorking, duration_ticks := 3\<rparr>) (put_toil e t (put_job e j w)))"
  have p1: "\<not> job_paused (reg w1) e j" using free by (simp add: job_paused_def w1_def put_defs)
  obtain w2 where w2: "job_tick t2 e w1 = Some w2" "toil (reg w2) e = Some (t\<lparr>toil_state := TsWorking, duration_ticks := 2\<rparr>)"
    "location (reg w2) = location (reg w1)" "activity (reg w2) = activity (reg w1)"
    "identity (reg w2) = identity (reg w1)" "job (reg w2) = job (reg w1)" "busy (reg w2) = busy (reg w1)"
    "health (reg w2) = health (reg w1)" "needs (reg w2) = needs (reg w1)" "combat (reg w2) = combat (reg w1)"
    "outbox w2 = outbox w1"
    using job_tick_working [of w1 e loc ident j "t\<lparr>toil_state := TsWorking, duration_ticks := 3\<rparr>" t2] c p1 run(1)
    by (auto simp: w1_def put_defs)
  have p2: "\<not> job_paused (reg w2) e j" using p1 by (simp add: job_paused_def w2)
  obtain w3 where w3: "job_tick t3 e w2 = Some w3" "toil (reg w3) e = Some (t\<lparr>toil_state := TsWorking, duration_ticks := 1\<rparr>)"
    "location (reg w3) = location (reg w1)" "activity (reg w3) = activity (reg w1)"
    "identity (reg w3) = identity (reg w1)" "job (reg w3) = job (reg w1)" "busy (reg w3) = busy (reg w1)"
    "health (reg w3) = health (reg w1)" "needs (reg w3) = needs (reg w1)" "combat (reg w3) = combat (reg w1)"
    "outbox w3 = outbox w1"
    using job_tick_working [of w2 e loc ident j "t\<lparr>toil_state := TsWorking, duration_ticks := 2\<rparr>" t3] c p2 run(1)
    by (auto simp: w2 w1_def put_defs)
  have p3: "\<not> job_paused (reg w3) e j" using p1 by (simp add: job_paused_def w3)
  have c3: "location (reg w3) e = Some loc" "activity (reg w3) e = Some (intent j)" "identity (reg w3) e = Some ident"
    "job (reg w3) e = Some j" "busy (reg w3) e = None" "outbox w3 = outbox w"
    using c by (simp_all add: w3 w1_def put_defs)
  obtain w4 where w4: "job_tick t4 e w3 = Some w4" "job (reg w4) e = Some (j\<lparr>is_active := False\<rparr>)"
    "busy (reg w4) e = Some \<lparr>busy_reason = BrScheduleWait, anim_timer = Fin 0\<rparr>"
    "outbox w4 = outbox w @ [(ReportJobStatus (npc_id ident) (job_id j) 0 UNKNOWN_REASON lit_schedule_done t4, KNone)]"
    "location (reg w4) e = Some loc" "has (activity (reg w4)) e" "identity (reg w4) e = Some ident"
    "\<exists>tt. toil (reg w4) e = Some tt"
    using c3 w3(2) run(1) p3
    by (simp add: job_tick_def job_paused_def get_or_def drive_job_def work_job_def put_defs Let_def call_rpc_def)
  obtain w5 where "job_tick t5 e w4 = Some w5" "job (reg w5) e = job (reg w4) e"
    "busy (reg w5) e = busy (reg w4) e" "outbox w5 = outbox w4"
    using w4 by (auto simp: job_tick_def get_or_def interrupt_job_def put_defs Let_def)
  with s1 [folded w1_def] w2(1) w3(1) w4(1-4) show ?thesis by simp
qed

definition smith_registry :: registry where
  "smith_registry = registry_init\<lparr>live := [0], next_entity := 1,
     identity := [0 \<mapsto> \<lparr>npc_id = 1, display_name = ''Tom''\<rparr>],
     location := [0 \<mapsto> LocationComp_default\<lparr>location_name := ''Smithy''\<rparr>], activity := [0 \<mapsto> []],
     job := [0 \<mapsto> JobComp_default\<lparr>job_id := 7, target_location := ''Smithy'', intent := ''Forge'',
       is_active := True\<rparr>], toil := [0 \<mapsto> ToilComp_default]\<rparr>"

theorem job_completes_witness:
  "\<exists>w'. foldM (\<lambda>tick. job_tick tick 0) [1, 2, 3, 4, 5] (demo_world smith_registry) = Some w' \<and>
    outbox w' = [(ReportJobStatus 1 7 0 UNKNOWN_REASON lit_schedule_done 4, KNone)]"
proof -
  have "''Forge'' \<noteq> lit_wandering" by code_simp
  then have "\<exists>w'. foldM (\<lambda>tick. job_tick tick 0) [1, 2, 3, 4, 5] (demo_world smith_registry) = Some w' \<and>
      job (reg w') 0 = Some ((JobComp_default\<lparr>job_id := 7, target_location := ''Smithy'', intent := ''Forge'',
        is_active := True\<rparr>)\<lparr>is_active := False\<rparr>) \<and>
      busy (reg w') 0 = Some \<lparr>busy_reason = BrScheduleWait, anim_timer = Fin 0\<rparr> \<and>
      outbox w' = outbox (demo_world smith_registry) @
        [(ReportJobStatus (npc_id \<lparr>npc_id = 1, display_name = ''Tom''\<rparr>)
           (job_id (JobComp_default\<lparr>job_id := 7, target_location := ''Smithy'', intent := ''Forge'',
              is_active := True\<rparr>)) 0 UNKNOWN_REASON lit_schedule_done 4, KNone)]"
    by (intro job_completes [where t = ToilComp_default and act = "[]" and
          loc = "LocationComp_default\<lparr>location_name := ''Smithy''\<rparr>"])
      (simp_all add: demo_world_def smith_registry_def registry_init_def ToilComp_default_def job_paused_def)
  then show ?thesis by (auto simp: demo_world_def)
qed

text \<open>Who is not steered by its behaviour tree holds furniture only for a running meal or sleep.\<close>

definition holds_rightly :: "registry \<Rightarrow> entity \<Rightarrow> bool" where
  "holds_rightly r e \<longleftrightarrow>
     (case (needs r e, toil r e, job r e) of
        (Some n, Some t, Some j) \<Rightarrow>
          is_resolving_survival n \<or>
          (case occupied_furniture n of None \<Rightarrow> True | Some f \<Rightarrow> keep_furniture r f j t = Some True)
      | _ \<Rightarrow> True)"

lemma return_frame:
  "return_furniture f w = Some w1 \<Longrightarrow> y \<noteq> f \<Longrightarrow>
     needs (reg w1) y = needs (reg w) y \<and> toil (reg w1) y = toil (reg w) y \<and> job (reg w1) y = job (reg w) y \<and>
     affordance (reg w1) y = affordance (reg w) y \<and> (valid (reg w1) y \<longleftrightarrow> valid (reg w) y)"
  by (cases "affordance (reg w) f")
    (auto simp: return_furniture_def Let_def put_defs destroy_entity_def destroy_def valid_def
      split: option.splits if_splits)

lemma resolve_affordance_holds:
  assumes i: "sim_inv (reg w)" and r: "resolve_affordance e w = Some w'"
  shows "holds_rightly (reg w') e \<and> (\<forall>x. holds_rightly (reg w) x \<longrightarrow> holds_rightly (reg w') x)"
proof (cases "\<exists>n t j f. needs (reg w) e = Some n \<and> toil (reg w) e = Some t \<and> job (reg w) e = Some j \<and>
    \<not> is_resolving_survival n \<and> occupied_furniture n = Some f \<and> keep_furniture (reg w) f j t \<noteq> Some True")
  case False
  then have "w' = w" using r by (auto simp: resolve_affordance_def split: option.splits bind_splits if_splits)
  with False show ?thesis by (auto simp: holds_rightly_def split: option.split)
next
  case True
  then obtain n t j f where c: "needs (reg w) e = Some n" "toil (reg w) e = Some t" "job (reg w) e = Some j"
    "\<not> is_resolving_survival n" "occupied_furniture n = Some f" "keep_furniture (reg w) f j t \<noteq> Some True" by blast
  have bi: "bt_inv (reg w)" and nl: "needs_live (reg w)" using i by (auto simp: sim_inv_def)
  obtain aff where aff: "affordance (reg w) f = Some aff" "occupied_by aff = Some e" "f \<noteq> e"
    by (rule occupied_affordance [OF bi c(1,5)])
  have v: "valid (reg w) f" using nl aff(1) by (auto simp: needs_live_def)
  obtain w1 n1 where w1: "return_furniture f w = Some w1" "needs (reg w1) e = Some n1"
    "w' = put_needs e (n1\<lparr>occupied_furniture := None\<rparr>) w1"
    using r c v by (auto simp: resolve_affordance_def split: if_splits bind_splits)
  have nf: "needs (reg w) f = None" using bi aff(1) by (simp add: bt_inv_def furniture_ok_def)
  have "needs (reg w1) f = None"
    using w1(1) nf aff(1) by (auto simp: return_furniture_def Let_def put_defs destroy_entity_def destroy_def
        split: option.splits if_splits)
  then have f: "holds_rightly (reg w') f" using aff(3) by (simp add: holds_rightly_def w1(3) put_needs_def)
  have other: "holds_rightly (reg w') x" if x: "x \<noteq> e" "x \<noteq> f" and h: "holds_rightly (reg w) x" for x
  proof -
    have "needs (reg w') x = needs (reg w) x" "toil (reg w') x = toil (reg w) x" "job (reg w') x = job (reg w) x"
      using return_frame [OF w1(1) x(2)] x(1) by (simp_all add: w1(3) put_needs_def)
    moreover have "keep_furniture (reg w') g j t = keep_furniture (reg w) g j t"
      if "needs (reg w) x = Some m" "occupied_furniture m = Some g" for m g j t
    proof -
      have "g \<noteq> f" using occupied_affordance [OF bi that] aff(1,2) x(1) by force
      with return_frame [OF w1(1), of g] show ?thesis by (simp add: keep_furniture_def w1(3) put_needs_def valid_def)
    qed
    ultimately show ?thesis using h by (auto simp: holds_rightly_def split: option.splits)
  qed
  have "holds_rightly (reg w') e"
    by (simp add: holds_rightly_def w1(3) put_needs_def split: option.split)
  with f other show ?thesis by metis
qed


lemma demo_sim_inv: "sim_inv (reg (demo_world demo_registry))"
  using demo_registry_inv by (auto simp: sim_inv_def needs_live_def demo_world_def demo_registry_def
      registry_init_def valid_def)


end
