(* ===== verification/Network.thy ===== *)
theory Network
  imports Jobs
begin

text \<open>
  \<open>SystemNetwork.cpp\<close>: the batched status synchronisation with the AI server, with the
  callback of its answer, and the world snapshot broadcast to the clients.
\<close>

section \<open>Status synchronisation\<close>

text \<open>The part of an entity's state the AI server mirrors, and what it was last told.\<close>

definition shown :: "registry \<Rightarrow> entity \<Rightarrow> (string \<times> string \<times> string) option" where
  "shown r e = (case (location r e, emotion r e, activity r e) of
       (Some l, Some m, Some a) \<Rightarrow> Some (location_name l, current_emotion m, a)
     | _ \<Rightarrow> None)"

definition told :: "registry \<Rightarrow> entity \<Rightarrow> (string \<times> string \<times> string) option" where
  "told r e = map_option (\<lambda>s. (ls_location s, ls_emotion s, ls_activity s)) (last_synced r e)"

definition out_of_sync :: "LastSyncedComp \<Rightarrow> LocationComp \<Rightarrow> EmotionComp \<Rightarrow> string \<Rightarrow> bool" where
  "out_of_sync s l m a \<longleftrightarrow> ls_location s \<noteq> location_name l \<or> ls_emotion s \<noteq> current_emotion m \<or> ls_activity s \<noteq> a"

definition status_update :: "IdentityComp \<Rightarrow> LocationComp \<Rightarrow> EmotionComp \<Rightarrow> string \<Rightarrow> AgentStatusUpdate" where
  "status_update i l m a = \<lparr>su_agent_id = npc_id i, su_location = location_name l, su_x = lc_x l,
     su_y = lc_y l, su_z = lc_z l, su_emotion = current_emotion m, su_activity = a\<rparr>"

text \<open>The body of the view: an entity to report, with its update.\<close>

definition sync_entry :: "registry \<Rightarrow> entity \<Rightarrow> (entity \<times> AgentStatusUpdate) option" where
  "sync_entry r e = (case (identity r e, location r e, emotion r e, activity r e, last_synced r e) of
       (Some i, Some l, Some m, Some a, Some s) \<Rightarrow>
         if out_of_sync s l m a then Some (e, status_update i l m a) else None
     | _ \<Rightarrow> None)"

definition sync_batch :: "env \<Rightarrow> registry \<Rightarrow> (entity \<times> AgentStatusUpdate) list" where
  "sync_batch env r = List.map_filter (sync_entry r) (order env r)"

definition SystemNetworkSync :: "env \<Rightarrow> world \<Rightarrow> world" where
  "SystemNetworkSync env w =
     (let batch = sync_batch env (reg w)
      in if batch = [] then w
         else call_rpc (BatchUpdateStatus (List.map snd batch)) (KBatchStatus batch) w)"

text \<open>The answer: a successful batch is recorded in the entities that still exist.\<close>

definition record_synced :: "entity \<times> AgentStatusUpdate \<Rightarrow> world \<Rightarrow> world" where
  "record_synced = (\<lambda>(e, u) w.
     if valid (reg w) e \<and> has (last_synced (reg w)) e
     then put_last_synced e \<lparr>ls_location = su_location u, ls_emotion = su_emotion u,
            ls_activity = su_activity u\<rparr> w
     else w)"

definition on_batch_status :: "bool \<Rightarrow> (entity \<times> AgentStatusUpdate) list \<Rightarrow> world \<Rightarrow> world" where
  "on_batch_status success batch w = (if success then fold record_synced batch w else w)"

section \<open>World snapshot\<close>

text \<open>The NPC part of a snapshot; the login response leaves hit points and velocity unset.\<close>

definition plain_snapshot :: "IdentityComp \<Rightarrow> LocationComp \<Rightarrow> EmotionComp \<Rightarrow> string \<Rightarrow> NpcSnapshot" where
  "plain_snapshot i l m a = \<lparr>sn_npc_id = npc_id i, sn_display_name = display_name i,
     sn_location_name = location_name l, sn_position = (lc_x l, lc_y l, lc_z l),
     sn_emotion = current_emotion m, sn_activity = a, sn_hp = Fin 0, sn_max_hp = Fin 0, sn_velocity = None\<rparr>"

text \<open>The view with \<open>entt::exclude<PlayerTag>\<close>.\<close>

definition npc_entry :: "registry \<Rightarrow> entity \<Rightarrow> NpcSnapshot option" where
  "npc_entry r e = (case (identity r e, location r e, emotion r e, activity r e, player_tag r e) of
       (Some i, Some l, Some m, Some a, None) \<Rightarrow> Some (plain_snapshot i l m a)
     | _ \<Rightarrow> None)"

definition world_entry :: "registry \<Rightarrow> entity \<Rightarrow> NpcSnapshot option" where
  "world_entry r e = map_option (\<lambda>s.
     s\<lparr>sn_hp := (case health r e of None \<Rightarrow> flit 100 | Some h \<Rightarrow> hp h),
       sn_max_hp := (case health r e of None \<Rightarrow> flit 100 | Some h \<Rightarrow> max_hp h),
       sn_velocity := map_option (\<lambda>v. (fmul (dir_x v) (vel_speed v), Fin 0, fmul (dir_z v) (vel_speed v)))
         (velocity r e)\<rparr>) (npc_entry r e)"

definition world_snapshot :: "env \<Rightarrow> int \<Rightarrow> registry \<Rightarrow> sc_message" where
  "world_snapshot env tick r = WorldSnapshotMsg tick (List.map_filter (world_entry r) (order env r))"

definition SystemBroadcastWorldSnapshot :: "env \<Rightarrow> int \<Rightarrow> world \<Rightarrow> world option" where
  "SystemBroadcastWorldSnapshot env tick w =
     broadcast env SC_WORLD_SNAPSHOT (world_snapshot env tick (reg w)) w"

section \<open>Synchronisation settles\<close>

definition mirrored :: "registry \<Rightarrow> entity \<Rightarrow> bool" where
  "mirrored r e \<longleftrightarrow> has (identity r) e \<and> has (location r) e \<and> has (emotion r) e \<and>
     has (activity r) e \<and> has (last_synced r) e"

lemma sync_entry_iff:
  assumes "mirrored r e"
  shows "sync_entry r e = None \<longleftrightarrow> told r e = shown r e"
    and "sync_entry r e = Some (x, u) \<Longrightarrow> x = e \<and> Some (su_location u, su_emotion u, su_activity u) = shown r e \<and>
      map_option npc_id (identity r e) = Some (su_agent_id u)"
  using assms by (auto simp: mirrored_def sync_entry_def told_def shown_def out_of_sync_def
      status_update_def split: if_splits)

lemma sync_entry_fst: "sync_entry r e = Some (x, u) \<Longrightarrow> x = e"
  by (auto simp: sync_entry_def split: option.splits if_splits)

lemma record_synced_told:
  "told (reg (record_synced (x, u) w)) e =
     (if e = x \<and> valid (reg w) e \<and> has (last_synced (reg w)) e
      then Some (su_location u, su_emotion u, su_activity u) else told (reg w) e)"
  by (auto simp: record_synced_def told_def put_defs)

lemma record_synced_frame:
  "valid (reg (record_synced p w)) e = valid (reg w) e"
  "has (last_synced (reg (record_synced p w))) e = has (last_synced (reg w)) e"
  by (auto simp: record_synced_def put_defs valid_def split: prod.split)

lemma fold_record_told:
  assumes "\<forall>u. (e, u) \<in> set b \<longrightarrow> (su_location u, su_emotion u, su_activity u) = s"
    and "valid (reg w) e" "has (last_synced (reg w)) e"
  shows "told (reg (fold record_synced b w)) e = (if e \<in> fst ` set b then Some s else told (reg w) e)"
  using assms
proof (induction b arbitrary: w)
  case Nil
  then show ?case by simp
next
  case (Cons p b)
  obtain x u where p: "p = (x, u)" by fastforce
  have "told (reg (fold record_synced b (record_synced p w))) e =
      (if e \<in> fst ` set b then Some s else told (reg (record_synced p w)) e)"
    by (rule Cons.IH) (use Cons.prems in \<open>simp_all add: record_synced_frame del: has_Some\<close>)
  then show ?case using Cons.prems by (auto simp: p record_synced_told simp del: has_Some)
qed

text \<open>C34: One synchronisation and the answer to it: an entity the AI server already mirrors is left
  out; any other is reported once more with its id, and the answer, whenever it comes and
  whatever changed meanwhile, records exactly the state that was sent if the call succeeded and
  nothing if it failed, so that a lost or outdated report is repeated by the next run.\<close>

theorem sync_records_what_was_sent:
  assumes "mirrored (reg w) e" "e \<in> set (order env (reg w))"
    and "valid (reg w1) e" "has (last_synced (reg w1)) e"
  shows "\<exists>b. (if b = [] then SystemNetworkSync env w = w
      else SystemNetworkSync env w = call_rpc (BatchUpdateStatus (List.map snd b)) (KBatchStatus b) w) \<and>
    (e \<in> fst ` set b \<longleftrightarrow> told (reg w) e \<noteq> shown (reg w) e) \<and>
    (\<forall>u. (e, u) \<in> set b \<longrightarrow> map_option npc_id (identity (reg w) e) = Some (su_agent_id u)) \<and>
    told (reg (on_batch_status True b w1)) e =
      (if told (reg w) e = shown (reg w) e then told (reg w1) e else shown (reg w) e) \<and>
    on_batch_status False b w1 = w1"
proof (intro exI [of _ "sync_batch env (reg w)"] conjI)
  let ?b = "sync_batch env (reg w)"
  have mem: "p \<in> set ?b \<longleftrightarrow> (\<exists>x\<in>set (order env (reg w)). sync_entry (reg w) x = Some p)" for p
    by (auto simp: sync_batch_def List.map_filter_def image_iff)
  have own: "(e, u) \<in> set ?b \<Longrightarrow> sync_entry (reg w) e = Some (e, u)" for u
    using sync_entry_fst by (auto simp: mem)
  show in_b: "e \<in> fst ` set ?b \<longleftrightarrow> told (reg w) e \<noteq> shown (reg w) e"
  proof
    assume "e \<in> fst ` set ?b"
    then obtain u where "(e, u) \<in> set ?b" by auto
    with own sync_entry_iff(1) [OF assms(1)] show "told (reg w) e \<noteq> shown (reg w) e" by fastforce
  next
    assume "told (reg w) e \<noteq> shown (reg w) e"
    then obtain p where "sync_entry (reg w) e = Some p"
      using sync_entry_iff(1) [OF assms(1)] by auto
    with assms(2) sync_entry_fst [of "reg w" e "fst p" "snd p"] show "e \<in> fst ` set ?b"
      by (force simp: mem image_iff)
  qed
  show "\<forall>u. (e, u) \<in> set ?b \<longrightarrow> map_option npc_id (identity (reg w) e) = Some (su_agent_id u)"
    using own sync_entry_iff(2) [OF assms(1)] by blast
  obtain s where s: "shown (reg w) e = Some s" using assms(1) by (auto simp: mirrored_def shown_def)
  have "\<forall>u. (e, u) \<in> set ?b \<longrightarrow> (su_location u, su_emotion u, su_activity u) = s"
    using own sync_entry_iff(2) [OF assms(1)] s by fastforce
  from fold_record_told [OF this assms(3,4)] in_b s
  show "told (reg (on_batch_status True ?b w1)) e =
      (if told (reg w) e = shown (reg w) e then told (reg w1) e else shown (reg w) e)"
    by (simp add: on_batch_status_def)
qed (simp_all add: SystemNetworkSync_def Let_def on_batch_status_def)

text \<open>An agent whose activity has changed since the last report.\<close>

definition synced_world :: world where
  "synced_world = demo_world (demo_registry\<lparr>
     emotion := [0 \<mapsto> \<lparr>current_emotion = ''calm'', base_emotion = ''calm'', current_emotion_id = 0,
       base_emotion_id = 0, decay_ticks_remaining = 0\<rparr>],
     activity := [0 \<mapsto> ''asleep'', 1 \<mapsto> []],
     last_synced := [0 \<mapsto> \<lparr>ls_location = [], ls_emotion = ''calm'', ls_activity = ''awake''\<rparr>]\<rparr>)"

theorem sync_records_what_was_sent_witness:
  "\<exists>b. SystemNetworkSync demo_env synced_world =
      call_rpc (BatchUpdateStatus (List.map snd b)) (KBatchStatus b) synced_world \<and>
    told (reg (on_batch_status True b synced_world)) 0 = Some ([], ''calm'', ''asleep'')"
proof -
  have "mirrored (reg synced_world) 0" "0 \<in> set (order demo_env (reg synced_world))"
    "valid (reg synced_world) 0" "has (last_synced (reg synced_world)) 0"
    by (simp_all add: mirrored_def synced_world_def demo_world_def demo_registry_def demo_env_def valid_def)
  note sync_records_what_was_sent [OF this]
  moreover have "told (reg synced_world) 0 = Some ([], ''calm'', ''awake'')"
    "shown (reg synced_world) 0 = Some ([], ''calm'', ''asleep'')"
    by (simp_all add: told_def shown_def synced_world_def demo_world_def demo_registry_def LocationComp_default_def)
  ultimately show ?thesis by (force split: if_splits)
qed

section \<open>The snapshot reaches everybody\<close>

lemma broadcast_effect:
  assumes "fits env m"
  shows "\<exists>s. broadcast env pid m w = Some (w\<lparr>tcp := s\<rparr>) \<and>
    (\<forall>i. map_option sent_log (sessions s i) = map_option (\<lambda>t. sent_log t @
       (if SendProto_guard (encode env m) then [(pid, encode env m)] else [])) (sessions (tcp w) i))"
proof (cases "SendProto_guard (encode env m)")
  case False
  then show ?thesis using option.map_ident_strong
    by (auto simp: broadcast_def BroadcastProto_def intro!: exI [of _ "tcp w"] option.map_cong)
next
  case True
  obtain s where s: "BroadcastPacket pid (encode env m) (tcp w) = Some s"
    using fits_guard [OF assms True, of pid]
    by (cases "sessions (tcp w) = Map.empty") (auto simp: BroadcastPacket_def)
  have "map_option sent_log (sessions s i) =
      map_option (\<lambda>t. sent_log t @ [(pid, encode env m)]) (sessions (tcp w) i)" for i
    using s by (cases "sessions (tcp w) i") (auto simp: BroadcastPacket_def Send_def split: option.splits if_splits)
  with s True show ?thesis by (auto simp: broadcast_def BroadcastProto_def)
qed

text \<open>Who is shown to the clients, and how.\<close>

definition npc_shown :: "registry \<Rightarrow> entity \<Rightarrow> bool" where
  "npc_shown r e \<longleftrightarrow> has (identity r) e \<and> has (location r) e \<and> has (emotion r) e \<and> has (activity r) e \<and>
     \<not> has (player_tag r) e"

definition depicts :: "registry \<Rightarrow> entity \<Rightarrow> NpcSnapshot \<Rightarrow> bool" where
  "depicts r e n \<longleftrightarrow>
     identity r e = Some \<lparr>npc_id = sn_npc_id n, display_name = sn_display_name n\<rparr> \<and>
     shown r e = Some (sn_location_name n, sn_emotion n, sn_activity n) \<and>
     (\<exists>l. location r e = Some l \<and> sn_position n = (lc_x l, lc_y l, lc_z l)) \<and>
     (\<forall>h. health r e = Some h \<longrightarrow> sn_hp n = hp h) \<and> (sn_velocity n = None \<longleftrightarrow> velocity r e = None)"

lemma world_entry_depicts:
  "world_entry r e = (if npc_shown r e then Some (the (world_entry r e)) else None)"
  "npc_shown r e \<Longrightarrow> depicts r e (the (world_entry r e))"
  by (auto simp: world_entry_def npc_entry_def npc_shown_def depicts_def plain_snapshot_def shown_def
      split: option.splits)

lemma map_filter_filter:
  assumes "\<And>x. f x = (if P x then Some (the (f x)) else None)"
  shows "List.map_filter f xs = List.map (\<lambda>x. the (f x)) (filter P xs)"
proof -
  have "f x \<noteq> None \<longleftrightarrow> P x" for x by (subst assms) simp
  then show ?thesis by (simp add: List.map_filter_def comp_def)
qed



end
