(* ===== verification/Movement.thy ===== *)
theory Movement
  imports Jobs
begin

text \<open>
  Path planning and movement of agents (\<open>SystemMovement.cpp\<close>). \<open>SystemPathfinding\<close> decides
  between heading straight for the target and an A* path, with a budget of searches per tick;
  \<open>SystemMovement\<close> advances by one step of 50 ms and keeps the spatial hash up to date.
\<close>

section \<open>\<open>SystemPathfinding\<close>\<close>

definition MAX_PATHFINDS_PER_TICK :: nat where "MAX_PATHFINDS_PER_TICK = 8"

text \<open>The map with its cache, the arrays of the searching thread, and the searches of this tick.\<close>

record nav_state =
  nav_map :: grid_map
  nav_scratch :: search_scratch
  pathfinds_this_tick :: nat

definition npc_move_speed :: "registry \<Rightarrow> fl" where
  "npc_move_speed r = (case settings r of None \<Rightarrow> flit 2 | Some s \<Rightarrow> npc_speed s)"

text \<open>A named target at the origin is looked up and scattered around the centre of its zone.\<close>

definition resolve_target :: "env \<Rightarrow> grid_map \<Rightarrow> entity \<Rightarrow> JobComp \<Rightarrow> world \<Rightarrow> fl \<times> fl \<times> world" where
  "resolve_target env m e j w =
     (if target_location j \<noteq> [] \<and> feq (target_x j) (Fin 0) \<and> feq (target_z j) (Fin 0)
      then let (cx, cz) = (case GetLocationCoords m (target_location j) of
                  Some v \<Rightarrow> (gv_x v, gv_z v) | None \<Rightarrow> (target_x j, target_z j));
               ((angle, unit), w1) = draw_disc w;
               (x, z) = RandomizeWithinRadius (cos_f env) (sin_f env) angle unit cx cz LOCATION_RADIUS
           in (x, z, put_job e (j\<lparr>target_x := x, target_z := z\<rparr>) w1)
      else (target_x j, target_z j, w))"

definition drop_old_path :: "fl \<Rightarrow> fl \<Rightarrow> PathfindingComp \<Rightarrow> PathfindingComp" where
  "drop_old_path x z p =
     (let t_dx = fsub x (last_target_x p); t_dz = fsub z (last_target_z p)
      in if flt (flit 4) (fadd (fmul t_dx t_dx) (fmul t_dz t_dz)) then p\<lparr>waypoints := []\<rparr> else p)"

definition set_speed :: "entity \<Rightarrow> world \<Rightarrow> world" where
  "set_speed e w = put_velocity e
     ((get_or VelocityComp_default (velocity (reg w)) e)\<lparr>vel_speed := npc_move_speed (reg w)\<rparr>) w"

definition stop_velocity :: "entity \<Rightarrow> world \<Rightarrow> world" where
  "stop_velocity e w = (case velocity (reg w) e of
       None \<Rightarrow> w
     | Some v \<Rightarrow> put_velocity e (v\<lparr>dir_x := Fin 0, dir_z := Fin 0, vel_speed := Fin 0\<rparr>) w)"

text \<open>The line of sight is free: forget the path.\<close>

definition seek_directly :: "entity \<Rightarrow> fl \<Rightarrow> fl \<Rightarrow> PathfindingComp \<Rightarrow> world \<Rightarrow> world" where
  "seek_directly e x z p w =
     set_speed e (put_pathfinding e (p\<lparr>waypoints := [], current_waypoint_index := 0,
       last_target_x := x, last_target_z := z, path_is_partial := False, cap_retry_count := 0\<rparr>) w)"

definition give_up :: "entity \<Rightarrow> ToilComp \<Rightarrow> PathfindingComp \<Rightarrow> world \<Rightarrow> world" where
  "give_up e t p w =
     stop_velocity e (put_pathfinding e (p\<lparr>waypoints := []\<rparr>) (put_toil e (t\<lparr>toil_state := TsIdle\<rparr>) w))"

text \<open>A new path; two partial paths in a row without progress end the attempt.\<close>

definition take_path ::
  "entity \<Rightarrow> LocationComp \<Rightarrow> ToilComp \<Rightarrow> PathResult \<Rightarrow> PathfindingComp \<Rightarrow> world \<Rightarrow> world" where
  "take_path e loc t res p w =
     (let p1 = p\<lparr>waypoints := pr_waypoints res, current_waypoint_index := 0, path_is_partial := pr_is_partial res\<rparr>
      in if pr_is_partial res
         then let moved = dist2 (fsub (lc_x loc) (last_cap_pos_x p1)) (fsub (lc_z loc) (last_cap_pos_z p1));
                  p2 = p1\<lparr>cap_retry_count := (if flt moved (flit 1) then cap_retry_count p1 + 1 else 0),
                          last_cap_pos_x := lc_x loc, last_cap_pos_z := lc_z loc\<rparr>
              in if cap_retry_count p2 \<ge> 2
                 then give_up e t (p2\<lparr>cap_retry_count := 0\<rparr>) w
                 else set_speed e (put_pathfinding e p2 w)
         else set_speed e (put_pathfinding e (p1\<lparr>cap_retry_count := 0\<rparr>) w))"

text \<open>The line of sight is blocked and there is no path: search, within the budget.\<close>

definition plan_path ::
  "tie_break \<Rightarrow> entity \<Rightarrow> LocationComp \<Rightarrow> ToilComp \<Rightarrow> fl \<Rightarrow> fl \<Rightarrow> PathfindingComp \<Rightarrow> world \<times> nav_state \<Rightarrow>
     (world \<times> nav_state) option" where
  "plan_path tie e loc t x z p wn =
     (let (w, n) = wn
      in if pathfinds_this_tick n \<ge> MAX_PATHFINDS_PER_TICK then Some (put_pathfinding e p w, n)
         else do {
           (res, m1, s1) \<leftarrow> FindPath tie default_iterations (nav_map n) (nav_scratch n) (lc_x loc) (lc_z loc) x z;
           let n1 = n\<lparr>nav_map := m1, nav_scratch := s1, pathfinds_this_tick := pathfinds_this_tick n + 1\<rparr>;
           let p1 = p\<lparr>last_target_x := x, last_target_z := z\<rparr>;
           Some (if \<not> pr_is_failed res \<and> pr_waypoints res \<noteq> [] then take_path e loc t res p1 w
                 else give_up e t p1 w, n1)
         })"

definition pathfind_agent ::
  "env \<Rightarrow> tie_break \<Rightarrow> entity \<Rightarrow> world \<times> nav_state \<Rightarrow> (world \<times> nav_state) option" where
  "pathfind_agent env tie e wn = do {
     let (w, n) = wn;
     j \<leftarrow> job (reg w) e;
     t \<leftarrow> toil (reg w) e;
     loc \<leftarrow> location (reg w) e;
     if toil_state t \<noteq> TsMoving then Some wn
     else do {
       let (x, z, w1) = resolve_target env (nav_map n) e j w;
       let p = drop_old_path x z (get_or PathfindingComp_default (pathfinding (reg w1)) e);
       blocked \<leftarrow> IsPathBlocked (nav_map n) (lc_x loc) (lc_z loc) x z;
       if \<not> blocked then Some (seek_directly e x z p w1, n)
       else if waypoints p = [] then plan_path tie e loc t x z p (w1, n)
       else Some (put_pathfinding e p w1, n)
     }
   }"

definition SystemPathfinding ::
  "env \<Rightarrow> tie_break \<Rightarrow> world \<times> nav_state \<Rightarrow> (world \<times> nav_state) option" where
  "SystemPathfinding env tie wn =
     foldM (\<lambda>e wn. let r = reg (fst wn)
                   in if has (job r) e \<and> has (toil r) e \<and> has (location r) e
                      then pathfind_agent env tie e wn else Some wn)
       (order env (reg (fst wn))) (fst wn, (snd wn)\<lparr>pathfinds_this_tick := 0\<rparr>)"

section \<open>\<open>SystemMovement\<close>\<close>

text \<open>The agent has reached its target: stand there and start to work.\<close>

definition arrive ::
  "entity \<Rightarrow> LocationComp \<Rightarrow> ToilComp \<Rightarrow> PathfindingComp \<Rightarrow> VelocityComp \<Rightarrow> JobComp \<Rightarrow> world \<Rightarrow> world option" where
  "arrive e loc t p v j w = do {
     let w1 = update_position e (target_x j) (target_z j)
       (put_location e (loc\<lparr>lc_x := target_x j, lc_y := target_y j, lc_z := target_z j\<rparr>) w);
     let w2 = put_toil e (t\<lparr>toil_state := TsWorking, duration_ticks := 3, current_action := intent j\<rparr>) w1;
     act \<leftarrow> activity (reg w2) e;
     Some (put_pathfinding e (p\<lparr>waypoints := [], current_waypoint_index := 0, path_is_partial := False,
              cap_retry_count := 0\<rparr>)
            (put_velocity e (v\<lparr>dir_x := Fin 0, dir_z := Fin 0, vel_speed := Fin 0\<rparr>)
              (put_activity e (intent j) w2)))
   }"

text \<open>Steering straight for the target, pushed aside by an obstacle 1.5 m ahead.\<close>

definition steer :: "grid_map \<Rightarrow> LocationComp \<Rightarrow> fl \<Rightarrow> fl \<Rightarrow> (fl \<times> fl) option" where
  "steer m loc sx sz = do {
     ahead \<leftarrow> IsPathBlocked m (lc_x loc) (lc_z loc)
       (fadd (lc_x loc) (fmul sx (flit 1.5))) (fadd (lc_z loc) (fmul sz (flit 1.5)));
     if \<not> ahead then Some (sx, sz)
     else do {
       let perp_x = fl_neg sz;
       let perp_z = sx;
       left_blocked \<leftarrow> IsPathBlocked m (lc_x loc) (lc_z loc)
         (fadd (lc_x loc) (fmul perp_x (flit 1.2))) (fadd (lc_z loc) (fmul perp_z (flit 1.2)));
       right_blocked \<leftarrow> IsPathBlocked m (lc_x loc) (lc_z loc)
         (fsub (lc_x loc) (fmul perp_x (flit 1.2))) (fsub (lc_z loc) (fmul perp_z (flit 1.2)));
       let (avoid_x, avoid_z) = (if \<not> left_blocked then (perp_x, perp_z)
         else if \<not> right_blocked then (fl_neg perp_x, fl_neg perp_z) else (perp_x, perp_z));
       let x = fadd sx (fmul avoid_x (flit 0.7));
       let z = fadd sz (fmul avoid_z (flit 0.7));
       let steer_len = dist2 x z;
       Some (if flt (flit 0.001) steer_len then (fdiv x steer_len, fdiv z steer_len) else (x, z))
     }
   }"

definition dt :: fl where "dt = flit 0.05"

text \<open>\<open>loc.x += \<dots>; loc.z += \<dots>; grid.UpdateEntityPosition(\<dots>)\<close>.\<close>

definition move_to :: "entity \<Rightarrow> LocationComp \<Rightarrow> fl \<Rightarrow> fl \<Rightarrow> world \<Rightarrow> world" where
  "move_to e loc x z w = update_position e x z (put_location e (loc\<lparr>lc_x := x, lc_z := z\<rparr>) w)"

definition move_direct ::
  "grid_map \<Rightarrow> entity \<Rightarrow> LocationComp \<Rightarrow> ToilComp \<Rightarrow> PathfindingComp \<Rightarrow> VelocityComp \<Rightarrow> JobComp \<Rightarrow> world \<Rightarrow>
     world option" where
  "move_direct m e loc t p v j w =
     (let dx = fsub (target_x j) (lc_x loc); dz = fsub (target_z j) (lc_z loc); dist = dist2 dx dz
      in if flt dist (flit 0.8) then arrive e loc t p v j w
         else do {
           (sx, sz) \<leftarrow> steer m loc (fdiv dx dist) (fdiv dz dist);
           let move_step = fmul (vel_speed v) dt;
           Some (move_to e loc (fadd (lc_x loc) (fmul sx move_step)) (fadd (lc_z loc) (fmul sz move_step))
             (put_velocity e (v\<lparr>dir_x := sx, dir_z := sz\<rparr>) w))
         })"

definition move_on_path ::
  "entity \<Rightarrow> LocationComp \<Rightarrow> ToilComp \<Rightarrow> PathfindingComp \<Rightarrow> VelocityComp \<Rightarrow> JobComp \<Rightarrow> world \<Rightarrow> world option" where
  "move_on_path e loc t p v j w =
     (if current_waypoint_index p \<ge> length (waypoints p)
      then let dist_to_final = dist2 (fsub (target_x j) (lc_x loc)) (fsub (target_z j) (lc_z loc))
           in if flt dist_to_final (flit 1) \<or> \<not> path_is_partial p then arrive e loc t p v j w
              else Some (put_pathfinding e (p\<lparr>waypoints := [], current_waypoint_index := 0\<rparr>) w)
      else let target = waypoints p ! current_waypoint_index p;
               dx = fsub (gv_x target) (lc_x loc); dz = fsub (gv_z target) (lc_z loc); dist = dist2 dx dz;
               next = p\<lparr>current_waypoint_index := current_waypoint_index p + 1\<rparr>
           in if flt dist (flit 0.1) then Some (put_pathfinding e next w)
              else let v1 = v\<lparr>dir_x := fdiv dx dist, dir_z := fdiv dz dist\<rparr>;
                       move_step = fmul (vel_speed v) dt;
                       w1 = put_velocity e v1 w
                   in if fle dist move_step
                      then Some (move_to e loc (gv_x target) (gv_z target) (put_pathfinding e next w1))
                      else Some (move_to e loc (fadd (lc_x loc) (fmul (dir_x v1) move_step))
                                   (fadd (lc_z loc) (fmul (dir_z v1) move_step)) w1))"

definition move_agent :: "grid_map \<Rightarrow> entity \<Rightarrow> world \<Rightarrow> world option" where
  "move_agent m e w = do {
     loc \<leftarrow> location (reg w) e;
     t \<leftarrow> toil (reg w) e;
     p \<leftarrow> pathfinding (reg w) e;
     v \<leftarrow> velocity (reg w) e;
     j \<leftarrow> job (reg w) e;
     if toil_state t = TsMoving
     then if waypoints p = [] then move_direct m e loc t p v j w else move_on_path e loc t p v j w
     else Some (put_velocity e (v\<lparr>dir_x := Fin 0, dir_z := Fin 0, vel_speed := Fin 0\<rparr>) w)
   }"

definition SystemMovement :: "env \<Rightarrow> grid_map \<Rightarrow> world \<Rightarrow> world option" where
  "SystemMovement env m w =
     view_each env (\<lambda>r e. has (location r) e \<and> has (toil r) e \<and> has (pathfinding r) e \<and>
       has (velocity r) e \<and> has (job r) e \<and> has (identity r) e) (move_agent m) w"

section \<open>The spatial hash follows the positions\<close>

text \<open>Every entity with a position is filed under the cell of that position.\<close>

definition located :: "registry \<Rightarrow> location_registry \<Rightarrow> bool" where
  "located r g \<longleftrightarrow> cells_ok g \<and>
     (\<forall>e loc. location r e = Some loc \<longrightarrow> entity_to_cell g e = Some (GetCellKey (lc_x loc) (lc_z loc)))"

lemma located_cong: "location r' = location r \<Longrightarrow> located r' g = located r g"
  by (simp add: located_def)

lemma UpdateEntityPosition_location:
  "location r e = Some l \<Longrightarrow>
     \<exists>l'. location (fst (UpdateEntityPosition e x z (r, g))) = (location r)(e \<mapsto> l') \<and> lc_x l' = x \<and> lc_z l' = z"
  by (auto simp: UpdateEntityPosition_def Let_def split: prod.split)

lemma UpdateEntityPosition_reg:
  "fst (UpdateEntityPosition e x z (r, g)) = r\<lparr>location := location (fst (UpdateEntityPosition e x z (r, g)))\<rparr>"
  by (auto simp: UpdateEntityPosition_def Let_def split: prod.split option.split)

lemma update_position_effect:
  assumes "location (reg w) e = Some l"
  shows "\<exists>l' g. update_position e x z w = w\<lparr>reg := (reg w)\<lparr>location := (location (reg w))(e \<mapsto> l')\<rparr>, grid_reg := g\<rparr> \<and>
    lc_x l' = x \<and> lc_z l' = z \<and> g = snd (UpdateEntityPosition e x z (reg w, grid_reg w))"
proof -
  obtain r g where u: "UpdateEntityPosition e x z (reg w, grid_reg w) = (r, g)" by fastforce
  with UpdateEntityPosition_location [OF assms, of x z "grid_reg w"] UpdateEntityPosition_reg [of e x z "reg w" "grid_reg w"]
  show ?thesis by (auto simp: update_position_def)
qed

text \<open>Writing a position and then updating the hash.\<close>

lemma placed_ok:
  assumes w: "located (reg w) (grid_reg w)"
  shows "\<exists>l' g. update_position e x z (put_location e l w) =
      w\<lparr>reg := (reg w)\<lparr>location := (location (reg w))(e \<mapsto> l')\<rparr>, grid_reg := g\<rparr> \<and>
    located ((reg w)\<lparr>location := (location (reg w))(e \<mapsto> l')\<rparr>) g \<and> lc_x l' = x \<and> lc_z l' = z"
proof -
  have "location (reg (put_location e l w)) e = Some l" by (simp add: put_location_def)
  from update_position_effect [OF this, of x z] obtain l' g where
    u: "update_position e x z (put_location e l w) = (put_location e l w)\<lparr>reg := (reg (put_location e l w))
        \<lparr>location := (location (reg (put_location e l w)))(e \<mapsto> l')\<rparr>, grid_reg := g\<rparr>"
      "lc_x l' = x" "lc_z l' = z"
      "g = snd (UpdateEntityPosition e x z (reg (put_location e l w), grid_reg (put_location e l w)))" by blast
  have gr: "grid_reg (put_location e l w) = grid_reg w" by (simp add: put_location_def)
  have "cells_ok g"
    unfolding u(4) gr by (rule UpdateEntityPosition_ok) (use w in \<open>simp add: located_def\<close>)
  moreover have "entity_to_cell g = (entity_to_cell (grid_reg w))(e \<mapsto> GetCellKey x z)"
    unfolding u(4) gr UpdateEntityPosition_cells by (auto simp: place_entity_cell fun_eq_iff)
  ultimately have "located ((reg w)\<lparr>location := (location (reg w))(e \<mapsto> l')\<rparr>) g"
    using w u(2,3) by (auto simp: located_def)
  with u(1-3) show ?thesis by (auto simp: put_location_def)
qed

text \<open>A step of a system that moves agents: quiet, and the hash stays in step.\<close>

definition move_ok :: "world \<Rightarrow> world \<Rightarrow> bool" where
  "move_ok w w' \<longleftrightarrow> quiet (reg w) (reg w') \<and> (located (reg w) (grid_reg w) \<longrightarrow> located (reg w') (grid_reg w'))"

lemma move_ok_refl [simp]: "move_ok w w"
  by (simp add: move_ok_def)

lemma move_ok_trans: "move_ok w w' \<Longrightarrow> move_ok w' w'' \<Longrightarrow> move_ok w w''"
  unfolding move_ok_def by (blast intro: quiet_trans)

lemma move_ok_puts:
  "move_ok w (put_toil e t w)" "move_ok w (put_velocity e v w)" "move_ok w (put_pathfinding e p w)"
  "move_ok w (put_activity e a w)" "job (reg w) e \<noteq> None \<Longrightarrow> move_ok w (put_job e j w)"
  by (auto simp: move_ok_def quiet_defs located_def)

lemma move_ok_place:
  assumes "has (location (reg w)) e"
  shows "move_ok w (update_position e x z (put_location e l w))"
proof -
  have "location (reg (put_location e l w)) e = Some l" by (simp add: put_location_def)
  from update_position_effect [OF this, of x z] assms
  have "quiet (reg w) (reg (update_position e x z (put_location e l w)))"
    by (auto simp: quiet_defs)
  with placed_ok [of w e x z l] show ?thesis by (auto simp: move_ok_def)
qed

text \<open>A system whose visits are all such steps.\<close>

lemma move_view:
  assumes step: "\<And>e t. sim_inv (reg t) \<Longrightarrow> P (reg t) e \<Longrightarrow> \<exists>t'. f e t = Some t' \<and> move_ok t t'"
    and i: "sim_inv (reg w)"
  shows "\<exists>w'. view_each env P f w = Some w' \<and> move_ok w w'"
proof -
  have "\<exists>w'. view_each env P f w = Some w' \<and> sim_inv (reg w') \<and> move_ok w w'"
    unfolding view_each_def
  proof (rule foldM_total [where I = "\<lambda>t. sim_inv (reg t) \<and> move_ok w t"])
    show "sim_inv (reg w) \<and> move_ok w w" using i by simp
    fix x and t :: world
    assume t: "sim_inv (reg t) \<and> move_ok w t"
    show "\<exists>t'. (if P (reg t) x then f x t else Some t) = Some t' \<and> sim_inv (reg t') \<and> move_ok w t'"
    proof (cases "P (reg t) x")
      case True
      with step t obtain t' where "f x t = Some t'" "move_ok t t'" by blast
      with t True quiet_sim_inv [of "reg t" "reg t'"] move_ok_trans [of w t t'] show ?thesis
        by (auto simp: move_ok_def)
    next
      case False
      with t show ?thesis by simp
    qed
  qed
  then show ?thesis by blast
qed

section \<open>Movement\<close>

lemma arrive_ok:
  assumes "has (location (reg w)) e" "has (activity (reg w)) e"
  shows "\<exists>w'. arrive e loc t p v j w = Some w' \<and> move_ok w w'"
proof -
  define w1 where "w1 = update_position e (target_x j) (target_z j)
      (put_location e (loc\<lparr>lc_x := target_x j, lc_y := target_y j, lc_z := target_z j\<rparr>) w)"
  have m: "move_ok w w1" unfolding w1_def by (rule move_ok_place [OF assms(1)])
  then obtain a where a: "activity (reg w1) e = Some a"
    using assms(2) by (auto simp: move_ok_def quiet_def)
  have act: "activity (reg (put_toil e t' w1)) e = Some a" for t' by (simp add: put_toil_def a)
  show ?thesis
    unfolding arrive_def w1_def [symmetric] Let_def by (simp add: act)
      (intro move_ok_trans [OF _ move_ok_puts(3)] move_ok_trans [OF _ move_ok_puts(2)]
        move_ok_trans [OF _ move_ok_puts(4)] move_ok_trans [OF _ move_ok_puts(1)] m)
qed

lemma blocked_total: "\<exists>b. IsPathBlocked m x1 z1 x2 z2 = Some b"
  using IsPathBlocked_line by metis

lemma steer_total: "\<exists>s. steer m loc sx sz = Some s"
proof -
  define ax where "ax = fadd (lc_x loc) (fmul sx (flit 1.5))"
  define az where "az = fadd (lc_z loc) (fmul sz (flit 1.5))"
  obtain b1 b2 b3 where "IsPathBlocked m (lc_x loc) (lc_z loc) ax az = Some b1"
    "IsPathBlocked m (lc_x loc) (lc_z loc) (fadd (lc_x loc) (fmul (fl_neg sz) (flit 1.2)))
       (fadd (lc_z loc) (fmul sx (flit 1.2))) = Some b2"
    "IsPathBlocked m (lc_x loc) (lc_z loc) (fsub (lc_x loc) (fmul (fl_neg sz) (flit 1.2)))
       (fsub (lc_z loc) (fmul sx (flit 1.2))) = Some b3"
    using blocked_total by metis
  then show ?thesis by (simp add: steer_def Let_def ax_def az_def split: prod.split)
qed

lemma move_direct_ok:
  assumes "has (location (reg w)) e" "has (activity (reg w)) e"
  shows "\<exists>w'. move_direct m e loc t p v j w = Some w' \<and> move_ok w w'"
proof -
  define dx where "dx = fsub (target_x j) (lc_x loc)"
  define dz where "dz = fsub (target_z j) (lc_z loc)"
  obtain sx sz where s: "steer m loc (fdiv dx (dist2 dx dz)) (fdiv dz (dist2 dx dz)) = Some (sx, sz)"
    using steer_total [of m loc] by (metis surj_pair)
  have "move_ok w (put_velocity e v' w)" for v' by (rule move_ok_puts)
  moreover have "has (location (reg (put_velocity e v' w))) e" for v' using assms(1) by (simp add: put_velocity_def)
  ultimately have "move_ok w (move_to e loc x z (put_velocity e v' w))" for x z v'
    unfolding move_to_def by (blast intro: move_ok_trans move_ok_place)
  with arrive_ok [OF assms, of loc t p v j] s show ?thesis
    by (auto simp: move_direct_def Let_def dx_def [symmetric] dz_def [symmetric])
qed

lemma move_on_path_ok:
  assumes l: "has (location (reg w)) e" and a: "has (activity (reg w)) e"
  shows "\<exists>w'. move_on_path e loc t p v j w = Some w' \<and> move_ok w w'"
proof -
  have place: "move_ok w (move_to e loc x z w')" if "move_ok w w'" "has (location (reg w')) e" for x z w'
    unfolding move_to_def using that by (blast intro: move_ok_trans move_ok_place)
  have v: "move_ok w (put_velocity e v' w)" "has (location (reg (put_velocity e v' w))) e" for v'
    by (rule move_ok_puts) (use l in \<open>simp add: put_velocity_def\<close>)
  have pv: "move_ok w (put_pathfinding e p' (put_velocity e v' w))"
    "has (location (reg (put_pathfinding e p' (put_velocity e v' w)))) e" for p' v'
    by (rule move_ok_trans [OF v(1) move_ok_puts(3)]) (use l in \<open>simp add: put_defs\<close>)
  show ?thesis
    using arrive_ok [OF l a, of loc t p v j] place [OF v] place [OF pv] move_ok_puts(3)
    by (auto simp: move_on_path_def Let_def)
qed

lemma move_agent_ok:
  assumes i: "sim_inv (reg w)"
    and c: "has (location (reg w)) e" "has (toil (reg w)) e" "has (pathfinding (reg w)) e"
      "has (velocity (reg w)) e" "has (job (reg w)) e"
  shows "\<exists>w'. move_agent m e w = Some w' \<and> move_ok w w'"
proof -
  obtain loc t p v j where comps: "location (reg w) e = Some loc" "toil (reg w) e = Some t"
    "pathfinding (reg w) e = Some p" "velocity (reg w) e = Some v" "job (reg w) e = Some j"
    using c by auto
  have a: "has (activity (reg w)) e"
    using i c(5) by (auto simp: sim_inv_def bt_inv_def workers_ok_def)
  show ?thesis
    using move_direct_ok [OF c(1) a, of m loc t p v j] move_on_path_ok [OF c(1) a, of loc t p v j] move_ok_puts(2)
    by (auto simp: move_agent_def comps)
qed

lemma SystemMovement_total:
  assumes "sim_inv (reg w)"
  shows "\<exists>w'. SystemMovement env m w = Some w' \<and> move_ok w w'"
  unfolding SystemMovement_def by (rule move_view [OF move_agent_ok assms]) auto

section \<open>Path planning\<close>

definition nav_ok :: "nav_state \<Rightarrow> bool" where
  "nav_ok n \<longleftrightarrow> cache_ok (nav_map n) \<and> scratch_ok (nav_scratch n) \<and>
     pathfinds_this_tick n \<le> MAX_PATHFINDS_PER_TICK"

text \<open>A step of the planner: the world moves on quietly, the search state stays sound, and no
  position changes.\<close>

definition plan_ok :: "world \<times> nav_state \<Rightarrow> world \<times> nav_state \<Rightarrow> bool" where
  "plan_ok a b \<longleftrightarrow> move_ok (fst a) (fst b) \<and> nav_ok (snd b) \<and>
     grid (nav_map (snd b)) = grid (nav_map (snd a)) \<and> location (reg (fst b)) = location (reg (fst a))"

lemma plan_ok_trans: "plan_ok a b \<Longrightarrow> plan_ok b c \<Longrightarrow> plan_ok a c"
  unfolding plan_ok_def using move_ok_trans by metis

definition same_place :: "world \<Rightarrow> world \<Rightarrow> bool" where
  "same_place w w' \<longleftrightarrow> move_ok w w' \<and> location (reg w') = location (reg w)"

lemma same_place_trans: "same_place w w' \<Longrightarrow> same_place w' w'' \<Longrightarrow> same_place w w''"
  unfolding same_place_def using move_ok_trans by metis

lemma same_place_puts:
  "same_place w (put_toil e t w)" "same_place w (put_velocity e v w)" "same_place w (put_pathfinding e p w)"
  "same_place w w"
  by (simp_all add: same_place_def move_ok_puts, simp_all add: put_defs)

lemma same_place_set_speed: "same_place w (set_speed e w)"
  by (simp add: set_speed_def same_place_puts)

lemma same_place_give_up: "same_place w (give_up e t p w)"
proof -
  have "same_place x (stop_velocity e x)" for x
    by (simp add: stop_velocity_def same_place_puts split: option.split)
  then show ?thesis
    unfolding give_up_def by (blast intro: same_place_trans same_place_puts)
qed

lemma same_place_take_path: "same_place w (take_path e loc t res p w)"
proof -
  have "same_place w (set_speed e (put_pathfinding e p' w))" for p'
    by (rule same_place_trans [OF same_place_puts(3) same_place_set_speed])
  then show ?thesis by (simp add: take_path_def Let_def same_place_give_up)
qed

lemma same_place_resolve:
  "has (job (reg w)) e \<Longrightarrow> resolve_target env m e j w = (x, z, w') \<Longrightarrow> same_place w w'"
proof -
  assume h: "has (job (reg w)) e" and r: "resolve_target env m e j w = (x, z, w')"
  then have "w' = w \<or> (\<exists>d w1. draw_disc w = (d, w1) \<and> (\<exists>j'. w' = put_job e j' w1))"
    by (auto simp: resolve_target_def Let_def split: if_splits prod.splits)
  moreover have "same_place w (put_job e j' w1)" if "draw_disc w = (d, w1)" for d w1 j'
  proof -
    have "job (reg w1) e \<noteq> None" "same_place w w1"
      using that h by (auto simp: draw_disc_def same_place_def move_ok_def located_def)
    moreover from this(1) have "same_place w1 (put_job e j' w1)"
      unfolding same_place_def by (simp add: move_ok_puts) (simp add: put_job_def)
    ultimately show ?thesis using same_place_trans by blast
  qed
  ultimately show ?thesis by (auto simp: same_place_puts)
qed

lemma plan_path_ok:
  assumes n: "nav_ok n"
  shows "\<exists>wn'. plan_path tie e loc t x z p (w, n) = Some wn' \<and> plan_ok (w, n) wn'"
proof (cases "pathfinds_this_tick n \<ge> MAX_PATHFINDS_PER_TICK")
  case True
  with n same_place_puts(3) [of w e p] show ?thesis
    by (auto simp: plan_path_def plan_ok_def same_place_def)
next
  case False
  obtain res m1 s1 where f: "FindPath tie default_iterations (nav_map n) (nav_scratch n) (lc_x loc) (lc_z loc) x z =
      Some (res, m1, s1)" "cache_ok m1" "grid m1 = grid (nav_map n)" "scratch_ok s1"
    using FindPath_ok [of "nav_map n" "nav_scratch n" default_iterations tie "lc_x loc" "lc_z loc" x z] n
    by (auto simp: nav_ok_def)
  define w' where "w' = (if \<not> pr_is_failed res \<and> pr_waypoints res \<noteq> []
    then take_path e loc t res (p\<lparr>last_target_x := x, last_target_z := z\<rparr>) w
    else give_up e t (p\<lparr>last_target_x := x, last_target_z := z\<rparr>) w)"
  have "same_place w w'" by (simp add: w'_def same_place_take_path same_place_give_up)
  with f n False show ?thesis
    by (simp add: plan_path_def w'_def [symmetric] Let_def plan_ok_def same_place_def nav_ok_def)
qed

lemma pathfind_agent_ok:
  assumes n: "nav_ok n" and c: "has (job (reg w)) e" "has (toil (reg w)) e" "has (location (reg w)) e"
  shows "\<exists>wn'. pathfind_agent env tie e (w, n) = Some wn' \<and> plan_ok (w, n) wn'"
proof -
  obtain j t loc where comps: "job (reg w) e = Some j" "toil (reg w) e = Some t" "location (reg w) e = Some loc"
    using c by auto
  obtain x z w1 where r: "resolve_target env (nav_map n) e j w = (x, z, w1)" by (metis prod_cases3)
  have s1: "same_place w w1" by (rule same_place_resolve [OF c(1) r])
  obtain b where b: "IsPathBlocked (nav_map n) (lc_x loc) (lc_z loc) x z = Some b" using blocked_total by metis
  define p where "p = drop_old_path x z (get_or PathfindingComp_default (pathfinding (reg w1)) e)"
  have stay: "plan_ok (w, n) (w', n)" if "same_place w1 w'" for w'
    using same_place_trans [OF s1 that] n by (simp add: plan_ok_def same_place_def)
  obtain wn' where pp: "plan_path tie e loc t x z p (w1, n) = Some wn'" "plan_ok (w1, n) wn'"
    using plan_path_ok [OF n] by blast
  have "plan_ok (w, n) (w1, n)" by (rule stay) (rule same_place_puts)
  from plan_ok_trans [OF this pp(2)] have plan: "plan_ok (w, n) wn'" .
  have direct: "same_place w1 (seek_directly e x z p w1)"
    unfolding seek_directly_def by (rule same_place_trans [OF same_place_puts(3) same_place_set_speed])
  have idle: "plan_ok (w, n) (w, n)" using n by (simp add: plan_ok_def)
  show ?thesis
    using idle stay [OF direct] stay [OF same_place_puts(3) [of w1 e p]] plan
    by (cases wn') (simp add: pathfind_agent_def comps r b p_def [symmetric] pp(1) Let_def)
qed

lemma SystemPathfinding_total:
  assumes "cache_ok (nav_map n)" "scratch_ok (nav_scratch n)"
  shows "\<exists>wn'. SystemPathfinding env tie (w, n) = Some wn' \<and> plan_ok (w, n\<lparr>pathfinds_this_tick := 0\<rparr>) wn'"
proof -
  have start: "plan_ok (w, n\<lparr>pathfinds_this_tick := 0\<rparr>) (w, n\<lparr>pathfinds_this_tick := 0\<rparr>)"
    using assms by (simp add: plan_ok_def nav_ok_def)
  have "\<exists>wn'. foldM (\<lambda>e wn. let r = reg (fst wn)
         in if has (job r) e \<and> has (toil r) e \<and> has (location r) e then pathfind_agent env tie e wn else Some wn)
       (order env (reg w)) (w, n\<lparr>pathfinds_this_tick := 0\<rparr>) = Some wn' \<and> plan_ok (w, n\<lparr>pathfinds_this_tick := 0\<rparr>) wn'"
  proof (rule foldM_total [where I = "plan_ok (w, n\<lparr>pathfinds_this_tick := 0\<rparr>)", OF start])
    fix e and wn :: "world \<times> nav_state"
    assume k: "plan_ok (w, n\<lparr>pathfinds_this_tick := 0\<rparr>) wn"
    obtain w1 n1 where wn: "wn = (w1, n1)" by fastforce
    have "nav_ok n1" using k by (simp add: plan_ok_def wn)
    from pathfind_agent_ok [OF this, of w1 e env tie] k plan_ok_trans
    show "\<exists>wn'. (let r = reg (fst wn) in if has (job r) e \<and> has (toil r) e \<and> has (location r) e
        then pathfind_agent env tie e wn else Some wn) = Some wn' \<and> plan_ok (w, n\<lparr>pathfinds_this_tick := 0\<rparr>) wn'"
      unfolding wn Let_def fst_conv by (metis (no_types, lifting))
  qed
  then show ?thesis by (simp add: SystemPathfinding_def)
qed

section \<open>Properties of movement\<close>


definition fresh_nav :: nav_state where
  "fresh_nav = \<lparr>nav_map = ClearCache GridMap_init, nav_scratch = fresh_scratch, pathfinds_this_tick = 0\<rparr>"


end
