(* ===== verification/Player.thy ===== *)
theory Player
  imports Network Queues Movement
begin

text \<open>
  \<open>SystemPlayer.cpp\<close>: the commands of the players and the clean-up after lost connections, with
  the callbacks of the calls they start. A callback first gives the back-pressure count of its
  session back (on the gRPC thread) and then queues the task that is modelled here.
\<close>

section \<open>Clean-up after lost connections\<close>

text \<open>The talk of a player ends with the connection: the AI server is told, the NPC is freed.\<close>

definition abort_dialogue :: "entity \<Rightarrow> world \<Rightarrow> world" where
  "abort_dialogue e w = (case player_dialogue (reg w) e of
       None \<Rightarrow> w
     | Some pdc \<Rightarrow>
         let w1 = call_rpc (EndPlayerDialogue (pd_session_id pdc)) KLog w
         in case npc_entity pdc of
              None \<Rightarrow> w1
            | Some npc \<Rightarrow>
                if valid (reg w1) npc
                then erase_busy npc (if has (activity (reg w1)) npc then put_activity npc lit_waiting w1 else w1)
                else w1)"

definition forget_indices :: "u32 \<Rightarrow> IdentityComp option \<Rightarrow> EntityIndex \<Rightarrow> EntityIndex" where
  "forget_indices session ident idx =
     (let idx1 = idx\<lparr>by_session_index := (by_session_index idx)(session := None)\<rparr>
      in case ident of None \<Rightarrow> idx1
         | Some i \<Rightarrow> idx1\<lparr>by_npc_id := (by_npc_id idx1)(npc_id i := None)\<rparr>)"

definition put_index :: "EntityIndex \<Rightarrow> world \<Rightarrow> world" where
  "put_index idx w = w\<lparr>reg := (reg w)\<lparr>entity_index := Some idx\<rparr>\<rparr>"

definition remove_player :: "entity \<Rightarrow> world \<Rightarrow> world option" where
  "remove_player e w = do {
     tag \<leftarrow> player_tag (reg w) e;
     let w1 = abort_dialogue e w;
     let w2 = (if has (location (reg w1)) e then w1\<lparr>grid_reg := RemoveEntity e (grid_reg w1)\<rparr> else w1);
     idx \<leftarrow> entity_index (reg w2);
     Some (destroy_entity e (put_index (forget_indices tag (identity (reg w2) e) idx) w2))
   }"

definition disconnected_players :: "env \<Rightarrow> world \<Rightarrow> entity list" where
  "disconnected_players env w = filter (\<lambda>e. case player_tag (reg w) e of
       None \<Rightarrow> False | Some session \<Rightarrow> GetSession session (tcp w) = None) (order env (reg w))"

definition SystemCleanupDisconnectedPlayerDialogues :: "env \<Rightarrow> world \<Rightarrow> world option" where
  "SystemCleanupDisconnectedPlayerDialogues env w = foldM remove_player (disconnected_players env w) w"

section \<open>Login\<close>

definition new_player :: "u32 \<Rightarrow> u32 \<Rightarrow> string \<Rightarrow> EntityIndex \<Rightarrow> world \<Rightarrow> entity \<times> world" where
  "new_player session i name idx w =
     (let (e, r) = create (reg w);
          w1 = put_last_synced e LastSyncedComp_default
                 (put_location e (LocationComp_default\<lparr>location_name := lit_plaza\<rparr>)
                 (put_identity e \<lparr>npc_id = i, display_name = name\<rparr> (put_player_tag e session (w\<lparr>reg := r\<rparr>))))
      in (e, put_index \<lparr>by_npc_id = (by_npc_id idx)(i \<mapsto> e),
                        by_session_index = (by_session_index idx)(session \<mapsto> e)\<rparr> w1))"

definition reconnect :: "u32 \<Rightarrow> entity \<Rightarrow> EntityIndex \<Rightarrow> world \<Rightarrow> world option" where
  "reconnect session e idx w = do {
     old_session \<leftarrow> player_tag (reg w) e;
     let sessions = (by_session_index idx)(old_session := None);
     Some (put_index (idx\<lparr>by_session_index := sessions(session \<mapsto> e)\<rparr>) (put_player_tag e session w))
   }"

definition login_response :: "env \<Rightarrow> registry \<Rightarrow> LoginResponse" where
  "login_response env r = \<lparr>lr_success = True, lr_message = lit_login_ok,
     lr_locations = (case bootstrap_locations r of None \<Rightarrow> []
       | Some ls \<Rightarrow> List.map (\<lambda>l. (ld_name l, ld_x l, ld_y l, ld_z l)) ls),
     lr_npcs = List.map_filter (npc_entry r) (order env r)\<rparr>"

definition login_entity :: "u32 \<Rightarrow> string \<Rightarrow> string \<Rightarrow> world \<Rightarrow> (entity \<times> world) option" where
  "login_entity session player_id player_name w = do {
     idx \<leftarrow> entity_index (reg w);
     let i = GetAgentNumericId (reg w) player_id;
     case by_npc_id idx i of
       None \<Rightarrow> Some (new_player session i player_name idx w)
     | Some e \<Rightarrow> map_option (Pair e) (reconnect session e idx w)
   }"

definition handle_login :: "env \<Rightarrow> u32 \<Rightarrow> string \<Rightarrow> string \<Rightarrow> world \<Rightarrow> world option" where
  "handle_login env session player_id player_name w = do {
     (e, w1) \<leftarrow> login_entity session player_id player_name w;
     loc \<leftarrow> location (reg w1) e;
     let w2 = update_position e (lc_x loc) (lc_z loc) w1;
     send_to_client env session SC_LOGIN_ACK (LoginResponseMsg (login_response env (reg w2))) w2
   }"

section \<open>Movement and talk\<close>

definition session_entity :: "u32 \<Rightarrow> world \<Rightarrow> entity option option" where
  "session_entity session w = map_option (\<lambda>idx. by_session_index idx session) (entity_index (reg w))"

definition handle_move :: "u32 \<Rightarrow> fl \<Rightarrow> fl \<Rightarrow> fl \<Rightarrow> world \<Rightarrow> world option" where
  "handle_move session x y z w = do {
     player \<leftarrow> session_entity session w;
     case player of
       None \<Rightarrow> Some w
     | Some e \<Rightarrow> do {
         loc \<leftarrow> location (reg w) e;
         ident \<leftarrow> identity (reg w) e;
         Some (update_position e x z (put_location e (loc\<lparr>lc_x := x, lc_y := y, lc_z := z\<rparr>) w))
       }
   }"

text \<open>\<open>session->IncrementPendingGrpc()\<close> on the session that was found; the callback keeps it.\<close>

definition open_session :: "u32 \<Rightarrow> world \<Rightarrow> u32 option" where
  "open_session session w = (if GetSession session (tcp w) = None then None else Some session)"

definition increment_pending :: "u32 option \<Rightarrow> world \<Rightarrow> world" where
  "increment_pending s w = (case s of None \<Rightarrow> w
     | Some i \<Rightarrow> w\<lparr>backpressure := (backpressure w)(i := fst (IncrementPendingGrpc (backpressure w i)))\<rparr>)"

definition decrement_pending :: "u32 option \<Rightarrow> world \<Rightarrow> world" where
  "decrement_pending s w = (case s of None \<Rightarrow> w
     | Some i \<Rightarrow> w\<lparr>backpressure := (backpressure w)(i := fst (DecrementPendingGrpc (backpressure w i)))\<rparr>)"

definition counted_call :: "u32 \<Rightarrow> rpc_call \<Rightarrow> (u32 option \<Rightarrow> continuation) \<Rightarrow> world \<Rightarrow> world" where
  "counted_call session c k w =
     (let s = open_session session w in call_rpc c (k s) (increment_pending s w))"

definition too_far :: "LocationComp \<Rightarrow> LocationComp \<Rightarrow> bool" where
  "too_far p n \<longleftrightarrow> location_name p \<noteq> location_name n \<or>
     flt (flit 8) (dist2 (fsub (lc_x p) (lc_x n)) (fsub (lc_z p) (lc_z n)))"

definition begin_talk :: "u32 \<Rightarrow> u32 \<Rightarrow> entity \<Rightarrow> entity \<Rightarrow> IdentityComp \<Rightarrow> IdentityComp \<Rightarrow> world \<Rightarrow> world option" where
  "begin_talk session i player npc player_identity npc_identity w = do {
     act \<leftarrow> activity (reg w) npc;
     let w1 = put_busy player BusyTag_default (put_busy npc BusyTag_default
                (put_activity npc lit_awaiting_player w));
     Some (counted_call session (StartPlayerDialogue (GetAgentStringId (reg w1) (npc_id player_identity)) i)
       (KPlayerDialogueStarted session (display_name npc_identity) npc player) w1)
   }"

definition handle_talk :: "u32 \<Rightarrow> u32 \<Rightarrow> world \<Rightarrow> world option" where
  "handle_talk session i w = do {
     idx \<leftarrow> entity_index (reg w);
     case by_session_index idx session of
       None \<Rightarrow> Some w
     | Some player \<Rightarrow> do {
         player_loc \<leftarrow> location (reg w) player;
         player_identity \<leftarrow> identity (reg w) player;
         case by_npc_id idx i of
           None \<Rightarrow> Some w
         | Some npc \<Rightarrow>
             if player = npc \<or> has (player_tag (reg w)) npc then Some w
             else do {
               npc_loc \<leftarrow> location (reg w) npc;
               npc_identity \<leftarrow> identity (reg w) npc;
               if too_far player_loc npc_loc \<or> has (busy (reg w)) npc then Some w
               else begin_talk session i player npc player_identity npc_identity w
             }
       }
   }"

definition player_talk :: "registry \<Rightarrow> entity option \<Rightarrow> entity option" where
  "player_talk r player = (case player of None \<Rightarrow> None | Some e \<Rightarrow>
     (case player_dialogue r e of None \<Rightarrow> None | Some pdc \<Rightarrow> npc_entity pdc))"

definition talk_name :: "registry \<Rightarrow> entity option \<Rightarrow> string" where
  "talk_name r player = (case player_talk r player of
       None \<Rightarrow> ''NPC''
     | Some npc \<Rightarrow> if valid r npc then (case identity r npc of None \<Rightarrow> ''NPC'' | Some i \<Rightarrow> display_name i)
                   else ''NPC'')"

definition handle_message :: "u32 \<Rightarrow> u64 \<Rightarrow> string \<Rightarrow> world \<Rightarrow> world option" where
  "handle_message session sid msg w = do {
     player \<leftarrow> session_entity session w;
     Some (counted_call session (SendPlayerMessage sid msg) (KPlayerMessage session (talk_name (reg w) player) sid) w)
   }"

definition handle_end :: "u32 \<Rightarrow> u64 \<Rightarrow> world \<Rightarrow> world option" where
  "handle_end session sid w = do {
     player \<leftarrow> session_entity session w;
     Some (counted_call session (EndPlayerDialogue sid) (KPlayerDialogueEnded (player_talk (reg w) player) player) w)
   }"

definition handle_status :: "u32 \<Rightarrow> u32 \<Rightarrow> world \<Rightarrow> world" where
  "handle_status session agent_id w =
     counted_call session (rpc_call.GetAgentStatus agent_id) (KAgentStatus session agent_id) w"

text \<open>A payload that does not parse is skipped.\<close>

definition parsed :: "'a option \<Rightarrow> ('a \<Rightarrow> world option) \<Rightarrow> world \<Rightarrow> world option" where
  "parsed req f w = (case req of None \<Rightarrow> Some w | Some x \<Rightarrow> f x)"

definition player_command :: "env \<Rightarrow> PlayerCommand \<Rightarrow> world \<Rightarrow> world option" where
  "player_command env cmd w =
     (let session = cmd_session_index cmd; bytes = cmd_payload cmd
      in case cmd_type cmd of
           Login \<Rightarrow> parsed (parse_login env bytes) (\<lambda>(i, name). handle_login env session i name w) w
         | Move \<Rightarrow> parsed (parse_move env bytes) (\<lambda>(name, x, y, z). handle_move session x y z w) w
         | TalkToNpc \<Rightarrow> parsed (parse_talk env bytes) (\<lambda>i. handle_talk session i w) w
         | PlayerMessage \<Rightarrow> parsed (parse_message env bytes) (\<lambda>(sid, msg). handle_message session sid msg w) w
         | EndDialogue \<Rightarrow> parsed (parse_end env bytes) (\<lambda>sid. handle_end session sid w) w
         | PlayerCommandType.GetAgentStatus \<Rightarrow>
             parsed (parse_status env bytes) (\<lambda>i. Some (handle_status session i w)) w)"

definition SystemPlayerCommands :: "env \<Rightarrow> world \<Rightarrow> world option" where
  "SystemPlayerCommands env w =
     (let (commands, rest) = DrainPlayerCommands [] (pending_commands (tcp w));
          w1 = w\<lparr>tcp := (tcp w)\<lparr>pending_commands := rest\<rparr>\<rparr>
      in if entity_index (reg w1) = None then ub else foldM (player_command env) commands w1)"

section \<open>The answers of the AI server\<close>

definition free_npc :: "entity option \<Rightarrow> world \<Rightarrow> world option" where
  "free_npc npc w = (case npc of
       None \<Rightarrow> Some w
     | Some e \<Rightarrow> if \<not> valid (reg w) e then Some w
                 else case activity (reg w) e of None \<Rightarrow> ub
                      | Some _ \<Rightarrow> Some (erase_busy e (put_activity e lit_waiting w)))"

definition on_player_dialogue_started ::
  "env \<Rightarrow> bool \<Rightarrow> u64 \<Rightarrow> string \<Rightarrow> u32 \<Rightarrow> string \<Rightarrow> entity \<Rightarrow> entity \<Rightarrow> world \<Rightarrow> world option" where
  "on_player_dialogue_started env success sid greeting session npc_name npc player w =
     (if success
      then do {
        w1 \<leftarrow> (if \<not> valid (reg w) npc then Some w
               else case activity (reg w) npc of None \<Rightarrow> ub | Some _ \<Rightarrow> Some (put_activity npc lit_with_player w));
        let w2 = (if valid (reg w1) player
                  then put_player_dialogue player \<lparr>pd_session_id = sid, npc_entity = Some npc\<rparr> w1 else w1);
        send_to_client env session SC_NPC_REPLY
          (NpcReplyMsg \<lparr>nr_session_id = sid, nr_npc_name = npc_name, nr_reply_text = greeting\<rparr>) w2
      }
      else do {
        w1 \<leftarrow> free_npc (Some npc) w;
        Some (if valid (reg w1) player then erase_busy player w1 else w1)
      })"

definition on_player_message :: "env \<Rightarrow> bool \<Rightarrow> string \<Rightarrow> u32 \<Rightarrow> string \<Rightarrow> u64 \<Rightarrow> world \<Rightarrow> world option" where
  "on_player_message env success reply session npc_name sid w =
     (if success then send_to_client env session SC_NPC_REPLY
        (NpcReplyMsg \<lparr>nr_session_id = sid, nr_npc_name = npc_name, nr_reply_text = reply\<rparr>) w
      else Some w)"

definition erase_player_dialogue :: "entity \<Rightarrow> world \<Rightarrow> world" where
  "erase_player_dialogue e w =
     w\<lparr>reg := (reg w)\<lparr>player_dialogue := (player_dialogue (reg w))(e := None)\<rparr>\<rparr>"

definition on_player_dialogue_ended :: "entity option \<Rightarrow> entity option \<Rightarrow> world \<Rightarrow> world option" where
  "on_player_dialogue_ended npc player w = do {
     w1 \<leftarrow> free_npc npc w;
     Some (case player of None \<Rightarrow> w1
       | Some e \<Rightarrow> if valid (reg w1) e then erase_player_dialogue e (erase_busy e w1) else w1)
   }"

text \<open>\<open>std::to_string\<close> of an \<open>int\<close>.\<close>

fun digits :: "nat \<Rightarrow> string" where
  "digits n = (if n < 10 then [] else digits (n div 10)) @ [char_of (48 + n mod 10)]"

definition to_string :: "int \<Rightarrow> string" where
  "to_string i = (if i < 0 then ''-'' @ digits (nat (- i)) else digits (nat i))"

record AgentStatus =
  as_name :: string
  as_location :: string
  as_x :: fl
  as_y :: fl
  as_z :: fl
  as_emotion :: string
  as_activity :: string
  as_memories :: "string list"

definition target_name :: "registry \<Rightarrow> EntityIndex \<Rightarrow> u32 \<Rightarrow> string" where
  "target_name r idx i = (case by_npc_id idx i of
       None \<Rightarrow> lit_unknown
     | Some e \<Rightarrow> if valid r e then (case identity r e of None \<Rightarrow> lit_unknown | Some x \<Rightarrow> display_name x)
                 else lit_unknown)"

definition relation_line :: "registry \<Rightarrow> EntityIndex \<Rightarrow> u32 \<times> RelationshipEntry \<Rightarrow> string" where
  "relation_line r idx = (\<lambda>(i, rel). lit_relation @ target_name r idx i @ lit_liking_label @
     to_string (liking rel) @ lit_trust_label @ to_string (trust rel))"

text \<open>The memories of the AI server, and the relationships this server keeps.\<close>

definition relation_lines :: "registry \<Rightarrow> u32 \<Rightarrow> string list" where
  "relation_lines r agent_id = (case entity_index r of
       None \<Rightarrow> []
     | Some idx \<Rightarrow> (case by_npc_id idx agent_id of
         None \<Rightarrow> []
       | Some e \<Rightarrow> if \<not> valid r e then []
                   else case relationships r e of None \<Rightarrow> []
                        | Some rels \<Rightarrow> List.map (relation_line r idx) rels))"

definition agent_status_response :: "bool \<Rightarrow> AgentStatus \<Rightarrow> u32 \<Rightarrow> registry \<Rightarrow> AgentStatusResponse" where
  "agent_status_response success s agent_id r =
     (if success
      then \<lparr>ar_name = as_name s, ar_location = Some (as_location s, as_x s, as_y s, as_z s),
            ar_emotion = as_emotion s, ar_activity = as_activity s,
            ar_memories = as_memories s @ relation_lines r agent_id\<rparr>
      else \<lparr>ar_name = lit_lookup_failed, ar_location = None, ar_emotion = [], ar_activity = [],
            ar_memories = []\<rparr>)"

text \<open>This answer goes to \<open>SendTo\<close> without the size check of \<open>SendProto\<close>.\<close>

definition on_agent_status :: "env \<Rightarrow> bool \<Rightarrow> AgentStatus \<Rightarrow> u32 \<Rightarrow> u32 \<Rightarrow> world \<Rightarrow> world option" where
  "on_agent_status env success s session agent_id w =
     map_option (\<lambda>t. w\<lparr>tcp := t\<rparr>) (SendTo session SC_GET_AGENT_STATUS_ACK
       (encode env (AgentStatusMsg (agent_status_response success s agent_id (reg w)))) (tcp w))"

section \<open>The index of players and agents\<close>

text \<open>A session leads to the player who uses it, an id to the live entity that bears it, and players
  have what the commands read of them.\<close>

definition player_ok :: "registry \<Rightarrow> entity \<Rightarrow> bool" where
  "player_ok r e \<longleftrightarrow> valid r e \<and> has (location r) e \<and> has (identity r) e \<and> \<not> has (needs r) e \<and>
     \<not> has (affordance r) e"

definition bearer_ok :: "registry \<Rightarrow> u32 \<Rightarrow> entity \<Rightarrow> bool" where
  "bearer_ok r i e \<longleftrightarrow> valid r e \<and> has (location r) e \<and> map_option npc_id (identity r e) = Some i \<and>
     (has (player_tag r) e \<or> has (activity r) e)"

definition indexed :: "registry \<Rightarrow> EntityIndex \<Rightarrow> bool" where
  "indexed r idx \<longleftrightarrow> (\<forall>s e. by_session_index idx s = Some e \<longrightarrow> player_tag r e = Some s) \<and>
     (\<forall>i e. by_npc_id idx i = Some e \<longrightarrow> bearer_ok r i e) \<and>
     (\<forall>e. has (player_tag r) e \<longrightarrow> player_ok r e)"

definition index_ok :: "registry \<Rightarrow> bool" where
  "index_ok r \<longleftrightarrow> (\<exists>idx. entity_index r = Some idx \<and> indexed r idx)"

text \<open>Steps that keep entities, identities, players and what they have.\<close>

definition index_step :: "registry \<Rightarrow> registry \<Rightarrow> bool" where
  "index_step r r' \<longleftrightarrow> live r' = live r \<and> identity r' = identity r \<and> player_tag r' = player_tag r \<and>
     entity_index r' = entity_index r \<and> dom (location r) \<subseteq> dom (location r') \<and>
     dom (activity r) \<subseteq> dom (activity r') \<and> dom (needs r') = dom (needs r) \<and>
     dom (affordance r') = dom (affordance r)"

lemma index_step_ok:
  assumes s: "index_step r r'" and i: "index_ok r"
  shows "index_ok r'"
proof -
  have e: "live r' = live r" "identity r' = identity r" "player_tag r' = player_tag r"
    "entity_index r' = entity_index r" and d: "dom (location r) \<subseteq> dom (location r')"
    "dom (activity r) \<subseteq> dom (activity r')" "dom (needs r') = dom (needs r)" "dom (affordance r') = dom (affordance r)"
    using s by (simp_all only: index_step_def)
  have "player_ok r x \<Longrightarrow> player_ok r' x" for x
    unfolding player_ok_def valid_def has_dom e using d by blast
  moreover have "bearer_ok r n x \<Longrightarrow> bearer_ok r' n x" for n x
    unfolding bearer_ok_def valid_def has_dom e using d by blast
  ultimately show ?thesis using i unfolding index_ok_def indexed_def e by blast
qed

lemma index_step_trans: "index_step a b \<Longrightarrow> index_step b c \<Longrightarrow> index_step a c"
  unfolding index_step_def by (metis subset_trans)

definition npc_free :: "registry \<Rightarrow> string \<Rightarrow> bool" where
  "npc_free r player_id \<longleftrightarrow> (\<forall>idx e. entity_index r = Some idx \<longrightarrow>
     by_npc_id idx (GetAgentNumericId r player_id) = Some e \<longrightarrow> has (player_tag r) e)"

text \<open>A player without furniture and needs can be created and removed.\<close>

lemma destroy_plain:
  assumes i: "sim_inv r" and n: "\<not> has (needs r) e" "\<not> has (affordance r) e"
  shows "sim_inv (destroy e r)"
proof -
  define r1 where "r1 = destroy e r"
  have f: "live r1 = erase_value e (live r)" "next_entity r1 = next_entity r"
    "identity r1 = (identity r)(e := None)" "location r1 = (location r)(e := None)"
    "behavior_tree r1 = (behavior_tree r)(e := None)" "combat r1 = (combat r)(e := None)"
    "aggro r1 = (aggro r)(e := None)" "bt_context_tick r1 = bt_context_tick r"
    "activity r1 = (activity r)(e := None)" "job r1 = (job r)(e := None)"
    "toil r1 = (toil r)(e := None)" "health r1 = (health r)(e := None)"
    "affordance r1 = affordance r" "needs r1 = needs r"
    using n by (auto simp: r1_def destroy_def)
  have ag: "agent r x \<Longrightarrow> agent r1 x" for x using n by (auto simp: agent_def f)
  have ro: "ref_ok r t \<Longrightarrow> ref_ok r1 t" for t
    by (auto simp: ref_ok_def valid_def fighter_def f split: option.splits)
  have oc: "occupied r1 = occupied r" "occupant r1 = occupant r"
    by (auto simp: fun_eq_iff occupied_def occupant_def f)
  have b: "bt_inv r" "needs_live r" using i by (simp_all add: sim_inv_def)
  have "occupancy_ok r1" "furniture_ok r1" "fresh_ok r1" "workers_ok r1"
    using b by (auto simp: bt_inv_def occupancy_ok_def oc furniture_ok_def fresh_ok_def workers_ok_def f)
  moreover have "behavior_tree r1 x = Some (Some t) \<Longrightarrow> t = CreateSurvivalTree \<and> agent r1 x" for x t
    using b ag by (auto simp: bt_inv_def f split: if_splits)
  ultimately have "bt_inv r1" using b ro by (auto simp: bt_inv_def f)
  moreover have "needs_live r1" using b(2) n by (auto simp: needs_live_def valid_def f)
  ultimately show ?thesis by (simp add: sim_inv_def r1_def)
qed

lemma create_plain:
  assumes i: "sim_inv r" and e: "e = next_entity r"
    and r1: "live r1 = live r @ [e]" "next_entity r1 = next_entity r + 1"
      "identity r1 = (identity r)(e \<mapsto> ident)" "location r1 = (location r)(e \<mapsto> loc)"
      "behavior_tree r1 = behavior_tree r" "combat r1 = combat r" "aggro r1 = aggro r"
      "bt_context_tick r1 = bt_context_tick r" "activity r1 = activity r" "job r1 = job r" "toil r1 = toil r"
      "health r1 = health r" "affordance r1 = affordance r" "needs r1 = needs r"
  shows "sim_inv r1"
proof -
  note f = r1
  have ag: "agent r x \<Longrightarrow> agent r1 x" for x by (auto simp: agent_def f)
  have ro: "ref_ok r t \<Longrightarrow> ref_ok r1 t" for t
    by (auto simp: ref_ok_def valid_def fighter_def f e split: option.splits)
  have oc: "occupied r1 = occupied r" "occupant r1 = occupant r"
    by (auto simp: fun_eq_iff occupied_def occupant_def f)
  have b: "bt_inv r" "needs_live r" using i by (simp_all add: sim_inv_def)
  have "occupancy_ok r1" "furniture_ok r1" "fresh_ok r1" "workers_ok r1"
    using b by (auto simp: bt_inv_def occupancy_ok_def oc furniture_ok_def fresh_ok_def workers_ok_def f e)
  moreover have "behavior_tree r1 x = Some (Some t) \<Longrightarrow> t = CreateSurvivalTree \<and> agent r1 x" for x t
    using b ag by (auto simp: bt_inv_def f)
  ultimately have "bt_inv r1" using b ro by (auto simp: bt_inv_def f)
  moreover have "needs_live r1" using b(2) by (auto simp: needs_live_def valid_def f)
  ultimately show ?thesis by (simp add: sim_inv_def)
qed

text \<open>What every command keeps.\<close>

definition player_inv :: "world \<Rightarrow> bool" where
  "player_inv w \<longleftrightarrow> sim_inv (reg w) \<and> index_ok (reg w) \<and> cells_ok (grid_reg w)"

text \<open>No command turns an NPC into the bearer of another id.\<close>

definition npcs_known :: "registry \<Rightarrow> registry \<Rightarrow> bool" where
  "npcs_known r r' \<longleftrightarrow> id_mapper r' = id_mapper r \<and> (\<forall>s. npc_free r s \<longrightarrow> npc_free r' s)"

lemma npcs_known_refl [simp]: "npcs_known r r"
  by (simp add: npcs_known_def)

lemma npcs_known_trans: "npcs_known a b \<Longrightarrow> npcs_known b c \<Longrightarrow> npcs_known a c"
  by (simp add: npcs_known_def)

lemma same_npcs_known:
  "id_mapper r' = id_mapper r \<Longrightarrow> entity_index r' = entity_index r \<Longrightarrow> player_tag r' = player_tag r \<Longrightarrow> npcs_known r r'"
  by (simp add: npcs_known_def npc_free_def GetAgentNumericId_def)

definition command_ok :: "world \<Rightarrow> world option \<Rightarrow> bool" where
  "command_ok w res \<longleftrightarrow> (\<exists>w'. res = Some w' \<and> player_inv w' \<and> npcs_known (reg w) (reg w') \<and>
     pending_commands (tcp w') = pending_commands (tcp w))"

lemma command_ok_same: "player_inv w \<Longrightarrow> command_ok w (Some w)"
  by (simp add: command_ok_def)

lemma command_ok_step:
  assumes "player_inv w" "quiet (reg w) (reg w')" "index_step (reg w) (reg w')"
    "id_mapper (reg w') = id_mapper (reg w)" "cells_ok (grid_reg w')" "pending_commands (tcp w') = pending_commands (tcp w)"
  shows "command_ok w (Some w')"
  using assms quiet_sim_inv index_step_ok same_npcs_known [of "reg w'" "reg w"]
  by (auto simp: command_ok_def player_inv_def index_step_def)

lemma counted_call_same [simp]:
  "reg (counted_call session c k w) = reg w" "tcp (counted_call session c k w) = tcp w"
  "grid_reg (counted_call session c k w) = grid_reg w"
  by (simp_all add: counted_call_def call_rpc_def increment_pending_def Let_def split: option.split)

lemma indexed_player:
  assumes "player_inv w" "entity_index (reg w) = Some idx" "by_session_index idx s = Some e"
  shows "player_ok (reg w) e"
  using assms by (auto simp: player_inv_def index_ok_def indexed_def)

lemma indexed_bearer:
  assumes "player_inv w" "entity_index (reg w) = Some idx" "by_npc_id idx i = Some e"
  shows "bearer_ok (reg w) i e"
  using assms by (auto simp: player_inv_def index_ok_def indexed_def)

lemma player_index: "player_inv w \<Longrightarrow> \<exists>idx. entity_index (reg w) = Some idx"
  by (auto simp: player_inv_def index_ok_def)

lemma begin_talk_ok:
  assumes i: "player_inv w" and a: "has (activity (reg w)) npc"
  shows "command_ok w (begin_talk session n player npc pid ni w)"
proof -
  define w1 where "w1 = put_busy player BusyTag_default (put_busy npc BusyTag_default (put_activity npc lit_awaiting_player w))"
  have f: "reg w1 = (reg w)\<lparr>busy := (busy (reg w))(npc \<mapsto> BusyTag_default, player \<mapsto> BusyTag_default),
      activity := (activity (reg w))(npc \<mapsto> lit_awaiting_player)\<rparr>" "tcp w1 = tcp w" "grid_reg w1 = grid_reg w"
    by (simp_all add: w1_def put_defs)
  have "quiet (reg w) (reg w1)" by (auto simp: quiet_def occupied_def f)
  moreover have "index_step (reg w) (reg w1)" by (auto simp: index_step_def f)
  ultimately have "command_ok w (Some (counted_call session c k w1))" for c k
    by (rule command_ok_step [OF i, of "counted_call session c k w1", simplified])
      (use i in \<open>simp_all add: f player_inv_def\<close>)
  with a show ?thesis by (auto simp: begin_talk_def w1_def Let_def)
qed

lemma handle_talk_ok:
  assumes i: "player_inv w"
  shows "command_ok w (handle_talk session n w)"
proof -
  obtain idx where idx: "entity_index (reg w) = Some idx" using player_index [OF i] by blast
  show ?thesis
  proof (cases "by_session_index idx session")
    case None
    then show ?thesis using command_ok_same [OF i] by (simp add: handle_talk_def idx)
  next
    case (Some p)
    obtain pl pid where p: "location (reg w) p = Some pl" "identity (reg w) p = Some pid"
      using indexed_player [OF i idx Some] by (auto simp: player_ok_def)
    show ?thesis
    proof (cases "by_npc_id idx n")
      case None
      then show ?thesis using command_ok_same [OF i] p Some by (simp add: handle_talk_def idx)
    next
      case (Some npc)
      note b = indexed_bearer [OF i idx Some]
      then obtain nl ni where n: "location (reg w) npc = Some nl" "identity (reg w) npc = Some ni"
        by (auto simp: bearer_ok_def)
      have "\<not> has (player_tag (reg w)) npc \<Longrightarrow> has (activity (reg w)) npc"
        using b by (auto simp: bearer_ok_def)
      with begin_talk_ok [OF i] command_ok_same [OF i] p n \<open>by_session_index idx session = Some p\<close> Some
      show ?thesis by (simp add: handle_talk_def idx)
    qed
  qed
qed

lemma handle_move_ok:
  assumes i: "player_inv w"
  shows "command_ok w (handle_move session x y z w)"
proof -
  obtain idx where idx: "entity_index (reg w) = Some idx" using player_index [OF i] by blast
  show ?thesis
  proof (cases "by_session_index idx session")
    case None
    then show ?thesis using command_ok_same [OF i] by (simp add: handle_move_def session_entity_def idx)
  next
    case (Some p)
    obtain pl pid where p: "location (reg w) p = Some pl" "identity (reg w) p = Some pid"
      using indexed_player [OF i idx Some] by (auto simp: player_ok_def)
    define w1 where "w1 = put_location p (pl\<lparr>lc_x := x, lc_y := y, lc_z := z\<rparr>) w"
    have f: "reg w1 = (reg w)\<lparr>location := (location (reg w))(p \<mapsto> pl\<lparr>lc_x := x, lc_y := y, lc_z := z\<rparr>)\<rparr>"
      "tcp w1 = tcp w" "grid_reg w1 = grid_reg w" by (simp_all add: w1_def put_defs)
    obtain l g where u: "update_position p x z w1 = w1\<lparr>reg := (reg w1)\<lparr>location := (location (reg w1))(p \<mapsto> l)\<rparr>, grid_reg := g\<rparr>"
      and g: "g = snd (UpdateEntityPosition p x z (reg w1, grid_reg w1))"
      using update_position_effect [of w1 p _ x z] by (auto simp: f)
    have "cells_ok g" unfolding g by (rule UpdateEntityPosition_ok) (use i in \<open>simp add: f player_inv_def\<close>)
    then have "command_ok w (Some (update_position p x z w1))" unfolding u
      by (intro command_ok_step [OF i]) (auto simp: f quiet_def occupied_def index_step_def p)
    with p Some show ?thesis by (simp add: handle_move_def session_entity_def idx w1_def)
  qed
qed

lemma counted_call_ok: "player_inv w \<Longrightarrow> command_ok w (Some (counted_call session c k w))"
  by (rule command_ok_step) (auto simp: index_step_def player_inv_def)

lemma handle_calls_ok:
  assumes "player_inv w"
  shows "command_ok w (handle_message session sid msg w)" "command_ok w (handle_end session sid w)"
    "command_ok w (Some (handle_status session n w))"
  using player_index [OF assms] counted_call_ok [OF assms]
  by (auto simp: handle_message_def handle_end_def handle_status_def session_entity_def)

lemma command_ok_bind: "command_ok w (Some w1) \<Longrightarrow> command_ok w1 res \<Longrightarrow> command_ok w res"
  using npcs_known_trans by (fastforce simp: command_ok_def)

lemma send_to_client_same:
  "send_to_client env i pid m w = Some w' \<Longrightarrow>
     w' = w\<lparr>tcp := tcp w'\<rparr> \<and> pending_commands (tcp w') = pending_commands (tcp w)"
  by (auto simp: send_to_client_def SendProto_def SendTo_def split: option.splits if_splits)

lemma send_ok:
  assumes "player_inv w" "fits env m"
  shows "command_ok w (send_to_client env i pid m w)"
proof -
  obtain s where s: "send_to_client env i pid m w = Some (w\<lparr>tcp := s\<rparr>)"
    using send_to_client_total [OF assms(2)] by blast
  with send_to_client_same [OF s] assms(1) show ?thesis
    by (simp add: command_ok_def player_inv_def)
qed

lemma place_player_ok:
  assumes i: "player_inv w" and l: "location (reg w) e = Some loc"
  shows "command_ok w (Some (update_position e x z w))"
proof -
  obtain l g where u: "update_position e x z w = w\<lparr>reg := (reg w)\<lparr>location := (location (reg w))(e \<mapsto> l)\<rparr>, grid_reg := g\<rparr>"
    and g: "g = snd (UpdateEntityPosition e x z (reg w, grid_reg w))"
    using update_position_effect [OF l] by blast
  have "cells_ok g" unfolding g by (rule UpdateEntityPosition_ok) (use i in \<open>simp add: player_inv_def\<close>)
  then show ?thesis unfolding u
    by (intro command_ok_step [OF i]) (auto simp: quiet_def occupied_def index_step_def l)
qed

lemma new_player_reg:
  assumes "new_player session i name idx w = (e, w1)"
  shows "e = next_entity (reg w)" and "w1 = w\<lparr>reg := (reg w)\<lparr>live := live (reg w) @ [e],
    next_entity := next_entity (reg w) + 1, player_tag := (player_tag (reg w))(e \<mapsto> session),
    identity := (identity (reg w))(e \<mapsto> \<lparr>npc_id = i, display_name = name\<rparr>),
    location := (location (reg w))(e \<mapsto> LocationComp_default\<lparr>location_name := lit_plaza\<rparr>),
    last_synced := (last_synced (reg w))(e \<mapsto> LastSyncedComp_default),
    entity_index := Some \<lparr>by_npc_id = (by_npc_id idx)(i \<mapsto> e),
      by_session_index = (by_session_index idx)(session \<mapsto> e)\<rparr>\<rparr>\<rparr>"
  using assms by (auto simp: new_player_def create_def put_defs put_index_def Let_def)

lemma new_player_ok:
  assumes i: "player_inv w" and idx: "entity_index (reg w) = Some idx"
    and n: "by_npc_id idx n = None" and w1: "new_player session n name idx w = (e, w1)"
  shows "command_ok w (Some w1) \<and> has (location (reg w1)) e"
proof -
  note e = new_player_reg(1) [OF w1] and r1 = new_player_reg(2) [OF w1]
  have s: "sim_inv (reg w)" and ix: "indexed (reg w) idx" and c: "cells_ok (grid_reg w)"
    using i idx by (auto simp: player_inv_def index_ok_def)
  have new: "\<not> valid (reg w) e"
    using s by (auto simp: sim_inv_def bt_inv_def fresh_ok_def valid_def e)
  then have np: "\<not> has (player_tag (reg w)) e" using ix by (auto simp: indexed_def player_ok_def)
  have "sim_inv (reg w1)"
    by (rule create_plain [OF s e]) (simp_all add: r1)
  moreover have "index_ok (reg w1)"
  proof -
    have fresh: "\<not> has (needs (reg w)) e" "\<not> has (affordance (reg w)) e"
      using s by (auto simp: sim_inv_def bt_inv_def fresh_ok_def e)
    have "player_ok (reg w) x \<Longrightarrow> player_ok (reg w1) x" for x by (auto simp: player_ok_def valid_def r1)
    moreover have "player_ok (reg w1) e" using fresh by (auto simp: player_ok_def valid_def r1)
    moreover have "bearer_ok (reg w) j x \<Longrightarrow> bearer_ok (reg w1) j x" for j x
      using new by (auto simp: bearer_ok_def valid_def r1)
    moreover have "bearer_ok (reg w1) n e" by (auto simp: bearer_ok_def valid_def r1)
    moreover have "by_session_index idx q = Some x \<Longrightarrow> x \<noteq> e \<and> player_tag (reg w) x = Some q" for q x
      using ix np by (auto simp: indexed_def)
    ultimately show ?thesis using ix unfolding index_ok_def indexed_def by (simp add: r1 del: has_Some) (auto simp: has_def)
  qed
  moreover have "npcs_known (reg w) (reg w1)"
    by (auto simp: npcs_known_def npc_free_def GetAgentNumericId_def r1 idx)
  ultimately have "command_ok w (Some w1)" using c by (simp add: command_ok_def player_inv_def) (simp add: r1)
  then show ?thesis by (simp add: r1)
qed

lemma reconnect_ok:
  assumes i: "player_inv w" and idx: "entity_index (reg w) = Some idx"
    and n: "by_npc_id idx n = Some e" and t: "has (player_tag (reg w)) e"
  shows "\<exists>w1. reconnect session e idx w = Some w1 \<and> command_ok w (Some w1) \<and> has (location (reg w1)) e"
proof -
  obtain old where old: "player_tag (reg w) e = Some old" using t by auto
  have ix: "indexed (reg w) idx" using i idx by (auto simp: player_inv_def index_ok_def)
  define idx1 where "idx1 = idx\<lparr>by_session_index := ((by_session_index idx)(old := None))(session \<mapsto> e)\<rparr>"
  define w1 where "w1 = put_index idx1 (put_player_tag e session w)"
  have f: "reg w1 = (reg w)\<lparr>player_tag := (player_tag (reg w))(e \<mapsto> session), entity_index := Some idx1\<rparr>"
    "grid_reg w1 = grid_reg w" "tcp w1 = tcp w" by (simp_all add: w1_def put_index_def put_defs)
  have p: "player_ok (reg w1) x = player_ok (reg w) x" for x by (simp add: player_ok_def valid_def f)
  have b: "bearer_ok (reg w) j x \<Longrightarrow> bearer_ok (reg w1) j x" for j x by (auto simp: bearer_ok_def valid_def f)
  have "indexed (reg w1) idx1"
    unfolding indexed_def p
  proof (intro conjI allI impI)
    fix s x
    assume "by_session_index idx1 s = Some x"
    then show "player_tag (reg w1) x = Some s"
      using ix old by (auto simp: idx1_def f indexed_def split: if_splits)
  next
    fix j x
    assume "by_npc_id idx1 j = Some x"
    then show "bearer_ok (reg w1) j x" using ix by (intro b) (auto simp: idx1_def indexed_def)
  next
    fix x
    assume "has (player_tag (reg w1)) x"
    then show "player_ok (reg w) x" using ix old by (auto simp: f indexed_def split: if_splits)
  qed
  moreover have "quiet (reg w) (reg w1)" by (auto simp: quiet_def occupied_def f)
  moreover have "npcs_known (reg w) (reg w1)"
    by (auto simp: npcs_known_def npc_free_def GetAgentNumericId_def f idx idx1_def)
  ultimately have "command_ok w (Some w1)" using i quiet_sim_inv
    by (auto simp: command_ok_def player_inv_def index_ok_def f)
  moreover have "has (location (reg w1)) e"
    using indexed_bearer [OF i idx n] by (auto simp: bearer_ok_def f)
  ultimately show ?thesis by (simp add: reconnect_def old w1_def idx1_def)
qed

lemma handle_login_ok:
  assumes i: "player_inv w" and n: "npc_free (reg w) player_id" and f: "\<And>m. fits env m"
  shows "command_ok w (handle_login env session player_id name w)"
proof -
  obtain idx where idx: "entity_index (reg w) = Some idx" using player_index [OF i] by blast
  have "\<exists>e w1. login_entity session player_id name w = Some (e, w1) \<and> command_ok w (Some w1) \<and> has (location (reg w1)) e"
  proof (cases "by_npc_id idx (GetAgentNumericId (reg w) player_id)")
    case None
    obtain e w1 where w1: "new_player session (GetAgentNumericId (reg w) player_id) name idx w = (e, w1)" by fastforce
    from new_player_ok [OF i idx None w1] show ?thesis by (simp add: login_entity_def idx None w1 Let_def)
  next
    case (Some e)
    then have "has (player_tag (reg w)) e" using n idx by (auto simp: npc_free_def)
    from reconnect_ok [OF i idx Some this, of session] show ?thesis by (auto simp: login_entity_def idx Some Let_def)
  qed
  then obtain e w1 loc where w1: "login_entity session player_id name w = Some (e, w1)" "command_ok w (Some w1)"
    "location (reg w1) e = Some loc" by auto
  define w2 where "w2 = update_position e (lc_x loc) (lc_z loc) w1"
  have i1: "player_inv w1" using w1(2) by (simp add: command_ok_def)
  have c2: "command_ok w1 (Some w2)" unfolding w2_def by (rule place_player_ok [OF i1 w1(3)])
  have "player_inv w2" using c2 by (simp add: command_ok_def)
  then have "command_ok w2 (send_to_client env session SC_LOGIN_ACK (LoginResponseMsg (login_response env (reg w2))) w2)"
    by (rule send_ok) (rule f)
  with command_ok_bind [OF w1(2) command_ok_bind [OF c2]] w1 show ?thesis
    by (simp add: handle_login_def w2_def [symmetric])
qed

lemma player_command_ok:
  assumes i: "player_inv w" and f: "\<And>m. fits env m"
    and n: "cmd_type cmd = Login \<Longrightarrow> \<forall>s name. parse_login env (cmd_payload cmd) = Some (s, name) \<longrightarrow> npc_free (reg w) s"
  shows "command_ok w (player_command env cmd w)"
  using handle_login_ok [OF i _ f] handle_move_ok [OF i] handle_talk_ok [OF i] handle_calls_ok [OF i]
    command_ok_same [OF i] n
  by (cases "cmd_type cmd") (auto simp: player_command_def parsed_def Let_def split: option.split)


section \<open>Lost connections\<close>

lemma abort_dialogue_ok:
  "index_step (reg w) (reg (abort_dialogue e w)) \<and> quiet (reg w) (reg (abort_dialogue e w)) \<and>
   grid_reg (abort_dialogue e w) = grid_reg w \<and> tcp (abort_dialogue e w) = tcp w \<and>
   player_dialogue (reg (abort_dialogue e w)) = player_dialogue (reg w) \<and>
   (\<forall>x. busy (reg w) x = None \<longrightarrow> busy (reg (abort_dialogue e w)) x = None) \<and>
   (\<forall>pdc n. player_dialogue (reg w) e = Some pdc \<longrightarrow> npc_entity pdc = Some n \<longrightarrow> valid (reg w) n \<longrightarrow>
      busy (reg (abort_dialogue e w)) n = None)"
  by (auto simp: abort_dialogue_def Let_def quiet_defs index_step_def valid_def split: option.split)

definition cleaned :: "entity list \<Rightarrow> world \<Rightarrow> world \<Rightarrow> bool" where
  "cleaned es w w' \<longleftrightarrow> player_inv w' \<and> tcp w' = tcp w \<and>
     (\<forall>x. valid (reg w') x \<longleftrightarrow> valid (reg w) x \<and> x \<notin> set es) \<and>
     (\<forall>x. player_tag (reg w') x = (if x \<in> set es then None else player_tag (reg w) x)) \<and>
     (\<forall>x. player_dialogue (reg w') x = (if x \<in> set es then None else player_dialogue (reg w) x)) \<and>
     (\<forall>x. busy (reg w) x = None \<or> x \<in> set es \<longrightarrow> busy (reg w') x = None) \<and>
     (\<forall>x. entity_to_cell (grid_reg w) x = None \<or> x \<in> set es \<longrightarrow> entity_to_cell (grid_reg w') x = None) \<and>
     (\<forall>e\<in>set es. \<forall>pdc n. player_dialogue (reg w) e = Some pdc \<longrightarrow> npc_entity pdc = Some n \<longrightarrow>
        valid (reg w) n \<longrightarrow> busy (reg w') n = None)"

lemma forgotten_index:
  assumes ix: "indexed r idx" and t: "player_tag r e = Some tag" and x: "identity r e = Some ident"
  shows "indexed (destroy e r) (forget_indices tag (Some ident) idx)"
proof -
  let ?idx = "forget_indices tag (Some ident) idx" and ?r = "destroy e r"
  have keep: "player_tag ?r = (player_tag r)(e := None)" "identity ?r = (identity r)(e := None)"
    "location ?r = (location r)(e := None)" "activity ?r = (activity r)(e := None)"
    "needs ?r = (needs r)(e := None)" "affordance ?r = (affordance r)(e := None)" "live ?r = erase_value e (live r)"
    by (simp_all add: destroy_def)
  show ?thesis unfolding indexed_def
  proof (intro conjI allI impI)
    fix s y
    assume "by_session_index ?idx s = Some y"
    then have "s \<noteq> tag" "by_session_index idx s = Some y" by (auto simp: forget_indices_def split: if_splits)
    with ix t show "player_tag ?r y = Some s" by (auto simp: indexed_def keep)
  next
    fix j y
    assume "by_npc_id ?idx j = Some y"
    then have "j \<noteq> npc_id ident" and b: "bearer_ok r j y"
      using ix by (auto simp: forget_indices_def indexed_def split: if_splits)
    with x have "y \<noteq> e" by (auto simp: bearer_ok_def)
    with b show "bearer_ok ?r j y" by (auto simp: bearer_ok_def keep valid_def)
  next
    fix y
    assume "has (player_tag ?r) y"
    then have "y \<noteq> e" "player_ok r y" using ix by (auto simp: keep indexed_def split: if_splits)
    then show "player_ok ?r y" by (auto simp: player_ok_def keep valid_def)
  qed
qed

lemma remove_player_ok:
  assumes i: "player_inv w" and t: "has (player_tag (reg w)) e"
  shows "\<exists>w'. remove_player e w = Some w' \<and> cleaned [e] w w'"
proof -
  obtain tag where tag: "player_tag (reg w) e = Some tag" using t by auto
  define w1 where "w1 = abort_dialogue e w"
  note a = abort_dialogue_ok [of w e, folded w1_def]
  then have s: "player_tag (reg w1) = player_tag (reg w)" "entity_index (reg w1) = entity_index (reg w)"
    "identity (reg w1) = identity (reg w)" "live (reg w1) = live (reg w)" by (simp_all add: index_step_def)
  have i1: "sim_inv (reg w1)" "index_ok (reg w1)"
    using i a quiet_sim_inv index_step_ok by (auto simp: player_inv_def)
  obtain idx where idx: "entity_index (reg w1) = Some idx" "indexed (reg w1) idx" using i1(2) by (auto simp: index_ok_def)
  have p: "player_ok (reg w1) e" using idx(2) tag by (auto simp: indexed_def s)
  then obtain ident where ident: "identity (reg w1) e = Some ident" and l: "has (location (reg w1)) e"
    and n: "\<not> has (needs (reg w1)) e" "\<not> has (affordance (reg w1)) e" by (auto simp: player_ok_def)
  define r1 where "r1 = (reg w1)\<lparr>entity_index := Some (forget_indices tag (Some ident) idx)\<rparr>"
  define w' where "w' = w1\<lparr>grid_reg := RemoveEntity e (grid_reg w1), reg := destroy e r1\<rparr>"
  have run: "remove_player e w = Some w'"
    using l by (simp add: remove_player_def tag w1_def [symmetric] idx ident destroy_entity_def put_index_def w'_def r1_def)
  have "quiet (reg w1) r1" by (simp add: quiet_def r1_def occupied_def)
  then have "sim_inv (destroy e r1)" using quiet_sim_inv [OF _ i1(1)] n by (intro destroy_plain) (simp_all add: r1_def)
  moreover have "indexed r1 idx" using idx(2) by (simp add: indexed_def player_ok_def bearer_ok_def valid_def r1_def)
  then have "indexed (destroy e r1) (forget_indices tag (Some ident) idx)"
    using tag ident by (intro forgotten_index) (simp_all add: r1_def s)
  then have "index_ok (destroy e r1)" by (simp add: index_ok_def destroy_def r1_def)
  moreover have "cells_ok (RemoveEntity e (grid_reg w1))"
    using i a by (intro RemoveEntity_ok) (simp add: player_inv_def)
  ultimately have "player_inv w'" by (simp add: player_inv_def w'_def)
  moreover have "tcp w' = tcp w" using a by (simp add: w'_def)
  ultimately show ?thesis using run a s
    by (auto simp: cleaned_def w'_def r1_def destroy_def valid_def RemoveEntity_cell)
qed

lemma cleaned_refl: "player_inv w \<Longrightarrow> cleaned [] w w"
  by (simp add: cleaned_def)

lemma cleaned_trans:
  assumes "cleaned [e] w t" "cleaned es t w'" "e \<notin> set es"
  shows "cleaned (e # es) w w'"
proof -
  have b: "busy (reg t) n = None \<Longrightarrow> busy (reg w') n = None" for n using assms(2) by (simp add: cleaned_def)
  have "busy (reg w') n = None"
    if "x \<in> set (e # es)" "player_dialogue (reg w) x = Some pdc" "npc_entity pdc = Some n" "valid (reg w) n" for x pdc n
  proof -
    have "x = e \<or> x \<in> set es" using that(1) by auto
    with assms(3) consider "x = e" | "x \<in> set es" "n = e" | "x \<in> set es" "x \<noteq> e" "n \<noteq> e" by blast
    then show ?thesis
    proof cases
      case 1
      with assms(1) that have "busy (reg t) n = None" by (simp add: cleaned_def)
      then show ?thesis by (rule b)
    next
      case 2
      have "busy (reg t) e = None" using assms(1) by (simp add: cleaned_def)
      with 2 b show ?thesis by simp
    next
      case 3
      have "player_dialogue (reg t) x = Some pdc" "valid (reg t) n" using assms(1) 3 that by (simp_all add: cleaned_def)
      with assms(2) 3(1) that(3) show ?thesis unfolding cleaned_def by blast
    qed
  qed
  with assms show ?thesis unfolding cleaned_def by auto
qed

lemma cleanup_all:
  assumes "player_inv w" "distinct es" "\<forall>e\<in>set es. has (player_tag (reg w)) e"
  shows "\<exists>w'. foldM remove_player es w = Some w' \<and> cleaned es w w'"
  using assms
proof (induction es arbitrary: w)
  case Nil
  then show ?case by (simp add: cleaned_refl)
next
  case (Cons e es)
  obtain t where t: "remove_player e w = Some t" "cleaned [e] w t"
    using remove_player_ok [of w e] Cons.prems by auto
  have "\<exists>w'. foldM remove_player es t = Some w' \<and> cleaned es t w'"
    by (rule Cons.IH) (use Cons.prems t(2) in \<open>auto simp: cleaned_def\<close>)
  with t cleaned_trans [OF t(2)] Cons.prems(2) show ?case by auto
qed


section \<open>A player in the demonstration world\<close>

text \<open>A player of session 1 who talks to the sleeper of the demonstration world.\<close>

definition player_registry :: registry where
  "player_registry = demo_registry\<lparr>live := [0, 1, 2, 3], next_entity := 4,
     identity := (identity demo_registry)(3 \<mapsto> \<lparr>npc_id = 9, display_name = ''Ann''\<rparr>),
     location := (location demo_registry)(3 \<mapsto> LocationComp_default),
     player_tag := [3 \<mapsto> 1], player_dialogue := [3 \<mapsto> \<lparr>pd_session_id = 7, npc_entity = Some 0\<rparr>],
     busy := [0 \<mapsto> BusyTag_default],
     entity_index := Some \<lparr>by_npc_id = [1 \<mapsto> 0, 2 \<mapsto> 1, 9 \<mapsto> 3], by_session_index = [1 \<mapsto> 3]\<rparr>\<rparr>"

definition player_world :: world where
  "player_world = (demo_world player_registry)\<lparr>tcp := two_sessions\<lparr>pending_commands :=
     [\<lparr>cmd_type = Login, cmd_payload = [1], cmd_session_index = 2\<rparr>,
      \<lparr>cmd_type = TalkToNpc, cmd_payload = [], cmd_session_index = 1\<rparr>]\<rparr>\<rparr>"

definition player_env :: env where
  "player_env = demo_env\<lparr>parse_login := (\<lambda>b. if b = [] then None else Some (''bob'', ''Bob'')),
     parse_talk := (\<lambda>_. Some 2)\<rparr>"

lemma player_registry_inv: "sim_inv player_registry" "index_ok player_registry"
proof -
  have d: "sim_inv demo_registry" using demo_sim_inv by (simp add: demo_world_def)
  show "sim_inv player_registry"
    by (rule create_plain [OF d]) (auto simp: player_registry_def demo_registry_def registry_init_def)
  show "index_ok player_registry"
    by (auto simp: index_ok_def indexed_def player_registry_def demo_registry_def registry_init_def
        player_ok_def bearer_ok_def valid_def split: if_splits)
qed

lemma player_world_inv: "player_inv player_world" "player_inv (player_world\<lparr>tcp := s\<rparr>)"
  using player_registry_inv by (simp_all add: player_inv_def player_world_def demo_world_def
      cells_ok_def LocationRegistry_init_def)

lemma player_env_fits: "fits player_env m"
  by (simp add: player_env_def demo_env_def fits_def)



section \<open>Talking to an NPC\<close>

text \<open>When a talk begins: the player is logged in, the id belongs to an NPC other than the player,
  both stand in the same place at most 8 m apart, and the NPC is free.\<close>

definition may_talk :: "registry \<Rightarrow> EntityIndex \<Rightarrow> u32 \<Rightarrow> u32 \<Rightarrow> entity \<Rightarrow> entity \<Rightarrow> bool" where
  "may_talk r idx session i player npc \<longleftrightarrow>
     by_session_index idx session = Some player \<and> by_npc_id idx i = Some npc \<and> npc \<noteq> player \<and>
     \<not> has (player_tag r) npc \<and> \<not> has (busy r) npc \<and>
     (\<exists>p n. location r player = Some p \<and> location r npc = Some n \<and> location_name p = location_name n \<and>
        \<not> flt (flit 8) (dist2 (fsub (lc_x p) (lc_x n)) (fsub (lc_z p) (lc_z n))))"

text \<open>C31: A request to talk has an effect exactly when the talk may begin. Then both are busy
  afterwards, the NPC shows that it waits for the player, and one call with the player's name and
  the id goes to the AI server, counted once for the session while it is open; in every other
  case the world is unchanged.\<close>

theorem handle_talk_outcome:
  assumes "player_inv w" "entity_index (reg w) = Some idx"
  shows "(\<exists>player npc ni pid w'. may_talk (reg w) idx session i player npc \<and>
      identity (reg w) npc = Some ni \<and> identity (reg w) player = Some pid \<and>
      handle_talk session i w = Some w' \<and>
      busy (reg w') = (busy (reg w))(npc \<mapsto> BusyTag_default, player \<mapsto> BusyTag_default) \<and>
      activity (reg w') npc = Some lit_awaiting_player \<and>
      outbox w' = outbox w @ [(StartPlayerDialogue (GetAgentStringId (reg w) (npc_id pid)) i,
        KPlayerDialogueStarted session (display_name ni) npc player
          (if GetSession session (tcp w) = None then None else Some session))] \<and>
      pending_grpc_requests (backpressure w' session) = pending_grpc_requests (backpressure w session) +
        (if GetSession session (tcp w) = None then 0 else 1)) \<or>
    ((\<nexists>player npc. may_talk (reg w) idx session i player npc) \<and> handle_talk session i w = Some w)"
proof (cases "\<exists>player npc. may_talk (reg w) idx session i player npc")
  case True
  then obtain player npc where m: "may_talk (reg w) idx session i player npc" by blast
  have p: "player_ok (reg w) player" using indexed_player [OF assms, of session player] m by (simp add: may_talk_def)
  have b: "bearer_ok (reg w) i npc" using indexed_bearer [OF assms, of i npc] m by (simp add: may_talk_def)
  obtain pid where pid: "identity (reg w) player = Some pid" using p by (auto simp: player_ok_def)
  obtain ni a where ni: "identity (reg w) npc = Some ni" "activity (reg w) npc = Some a"
    using b m by (auto simp: bearer_ok_def may_talk_def)
  let ?w1 = "put_busy player BusyTag_default (put_busy npc BusyTag_default (put_activity npc lit_awaiting_player w))"
  let ?w' = "counted_call session (StartPlayerDialogue (GetAgentStringId (reg w) (npc_id pid)) i)
      (KPlayerDialogueStarted session (display_name ni) npc player) ?w1"
  have "GetAgentStringId (reg ?w1) = GetAgentStringId (reg w)" by (simp add: fun_eq_iff GetAgentStringId_def put_defs)
  then have "begin_talk session i player npc pid ni w = Some ?w'"
    by (simp add: begin_talk_def Let_def ni(2))
  then have h: "handle_talk session i w = Some ?w'"
    using m pid ni by (auto simp: handle_talk_def assms(2) may_talk_def too_far_def)
  show ?thesis
    by (rule disjI1, rule exI [of _ player], rule exI [of _ npc], rule exI [of _ ni], rule exI [of _ pid],
        rule exI [of _ ?w'])
      (use m pid ni h in \<open>auto simp: counted_call_def call_rpc_def increment_pending_def open_session_def
        put_defs Let_def bp_defs\<close>)
next
  case False
  have "handle_talk session i w = Some w"
  proof (cases "by_session_index idx session")
    case (Some player)
    note p = indexed_player [OF assms Some]
    show ?thesis
    proof (cases "by_npc_id idx i")
      case None
      with p Some show ?thesis by (auto simp: handle_talk_def assms(2) player_ok_def)
    next
      case (Some npc)
      have "\<not> may_talk (reg w) idx session i player npc" using False by blast
      with p indexed_bearer [OF assms Some] \<open>by_session_index idx session = Some player\<close> Some
      show ?thesis by (auto simp: handle_talk_def assms(2) may_talk_def too_far_def player_ok_def bearer_ok_def)
    qed
  qed (simp add: handle_talk_def assms(2))
  with False show ?thesis by blast
qed

theorem handle_talk_outcome_witness:
  "\<exists>w'. handle_talk 1 2 player_world = Some w' \<and> busy (reg w') 1 = Some BusyTag_default \<and>
     pending_grpc_requests (backpressure w' 1) = 1"
proof -
  let ?idx = "\<lparr>by_npc_id = [1 \<mapsto> 0, 2 \<mapsto> 1, 9 \<mapsto> 3], by_session_index = [1 \<mapsto> 3]\<rparr>"
  have idx: "entity_index (reg player_world) = Some ?idx"
    by (simp add: player_world_def demo_world_def player_registry_def)
  have near: "\<not> flt (flit 8) (dist2 (fsub (Fin 0) (Fin 0)) (fsub (Fin 0) (Fin 0)))" by code_simp
  have m: "may_talk (reg player_world) ?idx 1 2 p n \<longleftrightarrow> p = 3 \<and> n = 1" for p n
    using near by (auto simp: may_talk_def player_world_def demo_world_def player_registry_def
        demo_registry_def registry_init_def LocationComp_default_def split: if_splits)
  have g: "GetSession 1 (tcp player_world) \<noteq> None" "backpressure player_world 1 = bp_init"
    by (simp_all add: GetSession_def player_world_def demo_world_def two_sessions_def tcp_defs TcpServer_init_def Let_def)
  from handle_talk_outcome [OF player_world_inv(1) idx, of 1 2] show ?thesis
    unfolding m using g by (auto simp: bp_init_def)
qed

section \<open>The callbacks\<close>

lemma erase_busy_inv: "player_inv w \<Longrightarrow> command_ok w (Some (erase_busy e w))"
  by (rule command_ok_step) (auto simp: quiet_defs index_step_def player_inv_def)

lemma free_npc_ok:
  assumes i: "player_inv w" and a: "\<And>e. npc = Some e \<Longrightarrow> valid (reg w) e \<Longrightarrow> has (activity (reg w)) e"
  shows "command_ok w (free_npc npc w)"
proof (cases "\<exists>e. npc = Some e \<and> valid (reg w) e")
  case True
  then obtain e where e: "npc = Some e" "valid (reg w) e" by blast
  obtain act where "activity (reg w) e = Some act" using a [OF e] by auto
  moreover have "command_ok w (Some (erase_busy e (put_activity e lit_waiting w)))"
    by (rule command_ok_step [OF i]) (use i in \<open>auto simp: quiet_defs index_step_def player_inv_def\<close>)
  ultimately show ?thesis using e by (simp add: free_npc_def)
next
  case False
  then show ?thesis using command_ok_same [OF i] by (auto simp: free_npc_def split: option.split)
qed

lemma on_player_dialogue_started_ok:
  assumes i: "player_inv w" and f: "\<And>m. fits env m"
    and a: "valid (reg w) npc \<Longrightarrow> has (activity (reg w)) npc"
  shows "command_ok w (on_player_dialogue_started env success sid greeting session nm npc p w)"
proof (cases success)
  case False
  have "command_ok w (free_npc (Some npc) w)" using free_npc_ok [OF i] a by blast
  then obtain w1 where w1: "free_npc (Some npc) w = Some w1" "command_ok w (Some w1)" by (auto simp: command_ok_def)
  then have "player_inv w1" by (simp add: command_ok_def)
  with w1 command_ok_bind [OF w1(2) erase_busy_inv] False show ?thesis
    by (simp add: on_player_dialogue_started_def)
next
  case True
  define w1 where "w1 = (if valid (reg w) npc then put_activity npc lit_with_player w else w)"
  have n: "(if \<not> valid (reg w) npc then Some w
      else case activity (reg w) npc of None \<Rightarrow> ub | Some x \<Rightarrow> Some (put_activity npc lit_with_player w)) = Some w1"
    using a by (auto simp: w1_def)
  have c1: "command_ok w (Some w1)"
    by (rule command_ok_step [OF i]) (use i in \<open>auto simp: w1_def quiet_defs index_step_def player_inv_def\<close>)
  define w2 where "w2 = (if valid (reg w1) p
    then put_player_dialogue p \<lparr>pd_session_id = sid, npc_entity = Some npc\<rparr> w1 else w1)"
  have i1: "player_inv w1" using c1 by (simp add: command_ok_def)
  have c2: "command_ok w1 (Some w2)"
    by (rule command_ok_step [OF i1]) (use i1 in \<open>auto simp: w2_def quiet_defs index_step_def player_inv_def\<close>)
  have "player_inv w2" using c2 by (simp add: command_ok_def)
  from command_ok_bind [OF c1 command_ok_bind [OF c2 send_ok [OF this f]]] True n
  show ?thesis by (simp add: on_player_dialogue_started_def w2_def Let_def)
qed

lemma on_player_message_ok:
  "player_inv w \<Longrightarrow> (\<And>m. fits env m) \<Longrightarrow> command_ok w (on_player_message env success reply session nm sid w)"
  using send_ok command_ok_same by (simp add: on_player_message_def)

lemma on_player_dialogue_ended_ok:
  assumes i: "player_inv w" and a: "\<And>e. npc = Some e \<Longrightarrow> valid (reg w) e \<Longrightarrow> has (activity (reg w)) e"
  shows "command_ok w (on_player_dialogue_ended npc player w)"
proof -
  obtain w1 where w1: "free_npc npc w = Some w1" "command_ok w (Some w1)"
    using free_npc_ok [OF i a] by (auto simp: command_ok_def)
  then have i1: "player_inv w1" by (simp add: command_ok_def)
  have "command_ok w1 (Some (erase_player_dialogue e (erase_busy e w1)))" for e
    by (rule command_ok_step [OF i1])
      (use i1 in \<open>auto simp: erase_player_dialogue_def quiet_defs index_step_def player_inv_def\<close>)
  with command_ok_bind [OF w1(2)] w1 show ?thesis
    by (auto simp: on_player_dialogue_ended_def split: option.split)
qed

section \<open>Defects of the dialogue and login protocol\<close>

lemma started_effect:
  assumes "on_player_dialogue_started env True sid greeting session nm b p w1 = Some w2"
    and v: "valid (reg w1) p" "valid (reg w1) b"
  shows "reg w2 = (reg w1)\<lparr>activity := (activity (reg w1))(b \<mapsto> lit_with_player),
      player_dialogue := (player_dialogue (reg w1))(p \<mapsto> \<lparr>pd_session_id = sid, npc_entity = Some b\<rparr>)\<rparr>"
proof -
  obtain act where act: "activity (reg w1) b = Some act"
    using assms(1) v(2) by (cases "activity (reg w1) b") (simp_all add: on_player_dialogue_started_def)
  define w1' where "w1' = put_player_dialogue p \<lparr>pd_session_id = sid, npc_entity = Some b\<rparr> (put_activity b lit_with_player w1)"
  have "valid (reg (put_activity b lit_with_player w1)) p" using v(1) by (simp add: valid_def put_defs)
  then obtain m where "send_to_client env session SC_NPC_REPLY m w1' = Some w2"
    using assms(1) v(2) act by (simp add: on_player_dialogue_started_def w1'_def)
  then have "reg w2 = reg w1'" using send_to_client_same by (metis world.select_convs(1) world.surjective world.update_convs(3))
  then show ?thesis by (simp add: w1'_def put_defs)
qed

text \<open>C32: A player who starts a second talk while in one leaves the first NPC behind: nothing checks
  that the player is busy, the reference to the first NPC is overwritten, and ending the dialogue
  frees only the second; the first stays busy although no player refers to it any more.\<close>

theorem switching_partner_strands_npc:
  assumes "player_dialogue (reg w) p = Some \<lparr>pd_session_id = old, npc_entity = Some a\<rparr>" "busy (reg w) a = Some tag"
    and "entity_index (reg w) = Some idx" "may_talk (reg w) idx session i p b" "a \<noteq> b" "a \<noteq> p"
    and "valid (reg w) p" "valid (reg w) b"
    and "handle_talk session i w = Some w1"
    and "on_player_dialogue_started env True sid greeting session nm b p w1 = Some w2"
    and "handle_end session sid w2 = Some w3"
    and "on_player_dialogue_ended (player_talk (reg w2) (Some p)) (Some p) w3 = Some w4"
  shows "busy (reg w4) a = Some tag \<and> busy (reg w4) b = None \<and> player_dialogue (reg w4) p = None"
proof -
  have s: "by_session_index idx session = Some p" "by_npc_id idx i = Some b" "b \<noteq> p"
    using assms(4) by (simp_all add: may_talk_def)
  have w1: "live (reg w1) = live (reg w)" "player_dialogue (reg w1) = player_dialogue (reg w)"
    "busy (reg w1) a = Some tag"
    using assms(2,4,5,6,9) s
    by (auto simp: handle_talk_def assms(3) may_talk_def too_far_def begin_talk_def Let_def put_defs
        split: if_splits bind_splits)
  have v1: "valid (reg w1) p" "valid (reg w1) b" using assms(7,8) by (simp_all add: valid_def w1)
  note w2 = started_effect [OF assms(10) v1]
  have "reg w3 = reg w2" using assms(11) by (auto simp: handle_end_def split: bind_splits)
  with assms(12) w2 v1 w1 show ?thesis using assms(5,6) s(3)
    by (auto simp: on_player_dialogue_ended_def free_npc_def player_talk_def put_defs
        erase_player_dialogue_def valid_def split: bind_splits option.splits if_splits)
qed

theorem switching_partner_strands_npc_witness:
  "\<exists>w1 w2 w3 w4. handle_talk 1 2 player_world = Some w1 \<and>
     on_player_dialogue_started player_env True 8 ''Hi'' 1 ''Wolf'' 1 3 w1 = Some w2 \<and>
     handle_end 1 8 w2 = Some w3 \<and>
     on_player_dialogue_ended (player_talk (reg w2) (Some 3)) (Some 3) w3 = Some w4 \<and>
     busy (reg w4) 0 = Some BusyTag_default"
proof -
  let ?w = player_world and ?idx = "\<lparr>by_npc_id = [1 \<mapsto> 0, 2 \<mapsto> 1, 9 \<mapsto> 3], by_session_index = [1 \<mapsto> 3]\<rparr>"
  have idx: "entity_index (reg ?w) = Some ?idx"
    by (simp add: player_world_def demo_world_def player_registry_def)
  have near: "\<not> flt (flit 8) (dist2 (fsub (Fin 0) (Fin 0)) (fsub (Fin 0) (Fin 0)))" by code_simp
  have m: "may_talk (reg ?w) ?idx 1 2 3 1"
    using near by (auto simp: may_talk_def player_world_def demo_world_def player_registry_def
        demo_registry_def registry_init_def LocationComp_default_def)
  have s: "player_dialogue (reg ?w) 3 = Some \<lparr>pd_session_id = 7, npc_entity = Some 0\<rparr>"
    "busy (reg ?w) 0 = Some BusyTag_default" "valid (reg ?w) 3" "valid (reg ?w) 1"
    by (simp_all add: player_world_def demo_world_def player_registry_def valid_def)
  obtain w1 where w1: "handle_talk 1 2 ?w = Some w1" "player_inv w1"
    using handle_talk_ok [OF player_world_inv(1), of 1 2] by (auto simp: command_ok_def)
  have r1: "live (reg w1) = live (reg ?w)" "has (activity (reg w1)) 1"
    using w1(1) m idx by (auto simp: handle_talk_def may_talk_def too_far_def begin_talk_def Let_def put_defs
        split: if_splits bind_splits)
  obtain w2 where w2: "on_player_dialogue_started player_env True 8 ''Hi'' 1 ''Wolf'' 1 3 w1 = Some w2" "player_inv w2"
    using on_player_dialogue_started_ok [OF w1(2) player_env_fits r1(2)] by (fastforce simp: command_ok_def)
  obtain w3 where w3: "handle_end 1 8 w2 = Some w3" "player_inv w3" "reg w3 = reg w2"
    using handle_calls_ok(2) [OF w2(2), of 1 8] by (auto simp: command_ok_def handle_end_def split: bind_splits)
  have a: "has (activity (reg w3)) e" if "player_talk (reg w2) (Some 3) = Some e" for e
  proof -
    have "valid (reg w1) 3" "valid (reg w1) 1" using s(3,4) r1(1) by (simp_all add: valid_def)
    from started_effect [OF w2(1) this] that show ?thesis by (simp add: w3(3) player_talk_def)
  qed
  obtain w4 where w4: "on_player_dialogue_ended (player_talk (reg w2) (Some 3)) (Some 3) w3 = Some w4"
    using on_player_dialogue_ended_ok [OF w3(2), of "player_talk (reg w2) (Some 3)" "Some 3"] a by (auto simp: command_ok_def simp del: has_Some)
  from switching_partner_strands_npc [OF s(1,2) idx m _ _ s(3,4) w1(1) w2(1) w3(1) w4] w1(1) w2(1) w3(1) w4
  show ?thesis by auto
qed

text \<open>A login whose id names an NPC is undefined behaviour: the entity found has no
  \<open>PlayerTag\<close>. As the bootstrap registers the string ids and names of all NPCs, any client can
  bring the server down with one packet.\<close>

theorem login_as_npc_undefined:
  assumes "entity_index (reg w) = Some idx"
    and "by_npc_id idx (GetAgentNumericId (reg w) player_id) = Some e" "player_tag (reg w) e = None"
  shows "handle_login env session player_id name w = None"
  using assms by (simp add: handle_login_def login_entity_def reconnect_def Let_def)

theorem login_as_npc_undefined_witness:
  "handle_login player_env 2 ''wolf'' ''Bob'' (player_world\<lparr>reg := player_registry\<lparr>id_mapper :=
     Some \<lparr>string_to_numeric = [''wolf'' \<mapsto> 2], numeric_to_string = [2 \<mapsto> ''wolf'']\<rparr>\<rparr>\<rparr>) = None"
  by (rule login_as_npc_undefined [of _ "\<lparr>by_npc_id = [1 \<mapsto> 0, 2 \<mapsto> 1, 9 \<mapsto> 3], by_session_index = [1 \<mapsto> 3]\<rparr>" _ 1])
    (simp_all add: player_registry_def demo_registry_def registry_init_def GetAgentNumericId_def)

text \<open>C33: Ids the server does not know all become the number 0: the second player with such an id
  takes over the first one's entity, whose session is then no longer served.\<close>

theorem unknown_login_takes_over:
  assumes "player_inv w" "GetAgentNumericId (reg w) x = 0" "GetAgentNumericId (reg w) y = 0"
    and "entity_index (reg w) = Some idx" "by_npc_id idx 0 = None" "s1 \<noteq> s2"
    and "login_entity s1 x n1 w = Some (e1, w1)" "login_entity s2 y n2 w1 = Some (e2, w2)"
  shows "e2 = e1 \<and> player_tag (reg w2) e1 = Some s2 \<and> session_entity s1 w2 = Some None \<and>
    identity (reg w2) e1 = Some \<lparr>npc_id = 0, display_name = n1\<rparr>"
proof -
  have np: "new_player s1 0 n1 idx w = (e1, w1)"
    using assms(2,4,5,7) by (simp add: login_entity_def)
  note w1 = new_player_reg [OF np]
  have n0: "GetAgentNumericId (reg w1) y = 0" using assms(3) by (simp add: w1(2) GetAgentNumericId_def)
  have idx1: "entity_index (reg w1) = Some \<lparr>by_npc_id = (by_npc_id idx)(0 \<mapsto> e1),
      by_session_index = (by_session_index idx)(s1 \<mapsto> e1)\<rparr>" (is "_ = Some ?idx")
    by (subst w1(2)) simp
  have "reconnect s2 e1 ?idx w1 = Some w2 \<and> e1 = e2"
    using assms(8) by (cases "reconnect s2 e1 ?idx w1") (auto simp: login_entity_def n0 idx1 Let_def)
  then have "reconnect s2 e1 ?idx w1 = Some w2" "e2 = e1" by blast+
  moreover have "player_tag (reg w1) e1 = Some s1" "identity (reg w1) e1 = Some \<lparr>npc_id = 0, display_name = n1\<rparr>"
    by (subst w1(2), simp)+
  ultimately show ?thesis using assms(6)
    by (auto simp: reconnect_def put_index_def put_defs session_entity_def Let_def)
qed

theorem unknown_login_takes_over_witness:
  "\<exists>w1 w2. login_entity 1 ''x'' ''X'' player_world = Some (4, w1) \<and>
     login_entity 2 ''y'' ''Y'' w1 = Some (4, w2) \<and> session_entity 1 w2 = Some None"
proof -
  let ?idx = "\<lparr>by_npc_id = [1 \<mapsto> 0, 2 \<mapsto> 1, 9 \<mapsto> 3], by_session_index = [1 \<mapsto> 3]\<rparr>"
  have idx: "entity_index (reg player_world) = Some ?idx" "by_npc_id ?idx 0 = None"
    by (simp_all add: player_world_def demo_world_def player_registry_def)
  have n: "GetAgentNumericId (reg player_world) s = 0" for s
    by (simp add: GetAgentNumericId_def player_world_def demo_world_def player_registry_def demo_registry_def
        registry_init_def)
  obtain e1 w1 where np: "new_player 1 0 ''X'' ?idx player_world = (e1, w1)" by fastforce
  then have l1: "login_entity 1 ''x'' ''X'' player_world = Some (e1, w1)"
    using idx by (simp add: login_entity_def n)
  have e1: "e1 = 4" using new_player_reg(1) [OF np]
    by (simp add: player_world_def demo_world_def player_registry_def)
  have r1: "id_mapper (reg w1) = None" "entity_index (reg w1) = Some \<lparr>by_npc_id = (by_npc_id ?idx)(0 \<mapsto> e1),
      by_session_index = (by_session_index ?idx)(1 \<mapsto> e1)\<rparr>" "player_tag (reg w1) e1 = Some 1"
    by (subst new_player_reg(2) [OF np], simp add: player_world_def demo_world_def player_registry_def
        demo_registry_def registry_init_def)+
  then obtain w2 where l2: "login_entity 2 ''y'' ''Y'' w1 = Some (e1, w2)"
    by (simp add: login_entity_def GetAgentNumericId_def reconnect_def Let_def)
  from unknown_login_takes_over [OF player_world_inv(1) n n idx _ l1 l2] l1 l2 e1
  show ?thesis by auto
qed

text \<open>The answer to a status query is sent without the length check of \<open>SendProto\<close>: when the
  session is open, every serialised status longer than 65531 bytes makes \<open>Send\<close> write past its
  buffer; a shorter one, or a closed session, is safe.\<close>

theorem agent_status_overflow:
  "on_agent_status env success s session agent_id w = None \<longleftrightarrow>
     GetSession session (tcp w) \<noteq> None \<and>
     65531 < length (encode env (AgentStatusMsg (agent_status_response success s agent_id (reg w))))"
  using Send_buffer_fits_iff [of SC_GET_AGENT_STATUS_ACK
      "encode env (AgentStatusMsg (agent_status_response success s agent_id (reg w)))"]
  by (auto simp: on_agent_status_def SendTo_def Send_def GetSession_def size_defs split: option.splits)

end
