(* ===== verification/Dialogue.thy ===== *)
theory Dialogue
  imports Social Emotion Movement
begin

text \<open>
  The end of a dialogue: what the callback of \<open>TriggerDialogueAsync\<close> in
  \<open>SystemSocial.cpp\<close> does with the answer of the AI server. It announces the lines, applies
  emotions and follow-up jobs, lets bystanders overhear the talk, and frees the speakers;
  a failed request only frees them.
\<close>

section \<open>The answer\<close>

record AgentEmotionUpdate =
  eu_agent_id :: u32
  eu_new_emotion :: string
  eu_intensity :: int
  eu_category :: nat

record DialogueResult =
  dr_task_id :: u64
  dr_summary :: string
  dr_lines :: "DialogueLine list"
  dr_emotions :: "AgentEmotionUpdate list"
  dr_next_jobs :: "JobPayload list"
  dr_keywords :: "string list"
  dr_success :: bool

definition end_event :: "registry \<Rightarrow> entity list \<Rightarrow> string \<Rightarrow> DialogueResult \<Rightarrow> DialogueEventPayload" where
  "end_event r grp zone_name res =
     (let name = (\<lambda>i. if i < length grp
            then case identity r (grp ! i) of None \<Rightarrow> '''' | Some x \<Rightarrow> display_name x else '''')
      in \<lparr>de_task_id = dr_task_id res, de_npc_a_name = name 0, de_npc_b_name = name 1,
          de_is_started = False, de_summary = dr_summary res, de_location_name = zone_name,
          de_position = (case grp of [] \<Rightarrow> None
            | e # _ \<Rightarrow> map_option (\<lambda>l. (lc_x l, lc_y l, lc_z l)) (location r e)),
          de_lines = dr_lines res\<rparr>)"

section \<open>Emotions and jobs\<close>

text \<open>\<open>entity_index.by_npc_id.find\<close> and \<open>reg.valid\<close>.\<close>

definition npc_entity_of :: "registry \<Rightarrow> EntityIndex \<Rightarrow> u32 \<Rightarrow> entity option" where
  "npc_entity_of r idx i = (case by_npc_id idx i of
       None \<Rightarrow> None | Some e \<Rightarrow> if valid r e then Some e else None)"

definition intensity_ticks :: "int \<Rightarrow> int" where
  "intensity_ticks i = (if i = 1 then 3 else if i = 3 then 10 else 6)"

text \<open>\<open>static_cast<EmotionCategory>(category - 1)\<close>; a value past the last enumerator is none of them.\<close>

definition update_category :: "nat \<Rightarrow> EmotionCategory" where
  "update_category c = (if 0 < c \<and> c \<le> 4 then [EcNeutral, EcAnger, EcHostility, EcFear] ! (c - 1)
     else EcNeutral)"

definition apply_emotion :: "EntityIndex \<Rightarrow> AgentEmotionUpdate \<Rightarrow> world \<Rightarrow> world" where
  "apply_emotion idx u w =
     (case npc_entity_of (reg w) idx (eu_agent_id u) of
        None \<Rightarrow> w
      | Some e \<Rightarrow>
          (case (emotion (reg w) e, identity (reg w) e) of
             (Some emo, Some _) \<Rightarrow>
               let ticks = intensity_ticks (eu_intensity u);
                   emo1 = emo\<lparr>current_emotion := eu_new_emotion u, decay_ticks_remaining := ticks\<rparr>
               in (case emotion_registry (reg w) of
                     None \<Rightarrow> put_emotion e emo1 w
                   | Some er \<Rightarrow>
                       let (i, er1) = register_emotion (eu_new_emotion u) ticks (update_category (eu_category u)) er
                       in put_emotion e (emo1\<lparr>current_emotion_id := i\<rparr>)
                            (w\<lparr>reg := (reg w)\<lparr>emotion_registry := Some er1\<rparr>\<rparr>))
           | _ \<Rightarrow> w))"

text \<open>A job replaces the running one; its target is scattered around the place. The log line reads
  the name of the agent.\<close>

definition apply_job :: "env \<Rightarrow> EntityIndex \<Rightarrow> JobPayload \<Rightarrow> world \<Rightarrow> world option" where
  "apply_job env idx p w =
     (case npc_entity_of (reg w) idx (jp_npc_id p) of
        None \<Rightarrow> Some w
      | Some e \<Rightarrow> do {
          let ((angle, unit), w1) = draw_disc w;
          let (x, z) = RandomizeWithinRadius (cos_f env) (sin_f env) angle unit
                (jp_target_x p) (jp_target_z p) LOCATION_RADIUS;
          let w2 = put_job e \<lparr>job_id = jp_job_id p, target_location = jp_target_location p,
                target_x = x, target_y = jp_target_y p, target_z = z, intent = jp_intent p,
                target_agent_id = jp_target_agent_id p, priority = jp_priority p, is_active = True,
                category = JobCategory_of (jp_category p)\<rparr> w1;
          let w3 = put_toil e ((get_or ToilComp_default (toil (reg w2)) e)
                \<lparr>toil_state := TsIdle, duration_ticks := 0\<rparr>) w2;
          ident \<leftarrow> identity (reg w3) e;
          Some w3
        })"

section \<open>Bystanders\<close>

text \<open>The middle of the speakers: the sums of their coordinates, and the division.\<close>

definition talk_centre :: "registry \<Rightarrow> entity list \<Rightarrow> fl \<times> fl \<times> fl" where
  "talk_centre r grp =
     (let locs = List.map_filter (\<lambda>e. if valid r e then location r e else None) grp;
          (x, y, z) = fold (\<lambda>l (x, y, z). (fadd x (lc_x l), fadd y (lc_y l), fadd z (lc_z l))) locs
            (Fin 0, Fin 0, Fin 0);
          n = of_i32 (int (length locs))
      in if locs = [] then (x, y, z) else (fdiv x n, fdiv y n, fdiv z n))"

definition dist3 :: "fl \<Rightarrow> fl \<Rightarrow> fl \<Rightarrow> fl" where
  "dist3 dx dy dz = fsqrt (fadd (fadd (fmul dx dx) (fmul dy dy)) (fmul dz dz))"

fun join_keywords :: "string list \<Rightarrow> string" where
  "join_keywords [] = ''''"
| "join_keywords [k] = k"
| "join_keywords (k # ks) = k @ '', '' @ join_keywords ks"

text \<open>What a bystander at a distance hears.\<close>

definition overheard :: "DialogueResult \<Rightarrow> fl \<Rightarrow> string option" where
  "overheard res d =
     (if fle d (flit 3) then Some (lit_overheard @ dr_summary res)
      else if fle d (flit 8)
      then if dr_keywords res = [] then None else Some (lit_overheard_keywords @ join_keywords (dr_keywords res))
      else None)"

definition eavesdrop :: "entity list \<Rightarrow> u32 \<Rightarrow> fl \<times> fl \<times> fl \<Rightarrow> DialogueResult \<Rightarrow> entity \<Rightarrow> world \<Rightarrow> world" where
  "eavesdrop grp source c res e w =
     (let r = reg w; (x, y, z) = c
      in if e \<in> set grp \<or> \<not> valid r e \<or> \<not> has (activity r) e then w
         else case (identity r e, location r e) of
             (Some ident, Some loc) \<Rightarrow>
               (case overheard res (dist3 (fsub (lc_x loc) x) (fsub (lc_y loc) y) (fsub (lc_z loc) z)) of
                  None \<Rightarrow> w
                | Some content \<Rightarrow>
                    call_rpc (InjectBelief (npc_id ident) source content BELIEF_TYPE_OVERHEARD source) KNone w)
           | _ \<Rightarrow> w)"

definition eavesdropping :: "entity list \<Rightarrow> DialogueResult \<Rightarrow> world \<Rightarrow> world option" where
  "eavesdropping grp res w =
     (if grp = [] \<or> \<not> valid (reg w) (hd grp) then Some w
      else do {
        let (x, y, z) = talk_centre (reg w) grp;
        ident \<leftarrow> identity (reg w) (hd grp);
        Some (fold (eavesdrop grp (npc_id ident) (x, y, z) res)
                (GetNearbyEntities (grid_reg w) x z (flit 8) (reg w)) w)
      })"

section \<open>The speakers\<close>

fun others_cooldown ::
  "registry \<Rightarrow> int \<Rightarrow> entity \<Rightarrow> entity list \<Rightarrow> (u32 \<rightharpoonup> int) \<Rightarrow> (u32 \<rightharpoonup> int) option" where
  "others_cooldown r tick e [] m = Some m"
| "others_cooldown r tick e (x # xs) m =
     (if x = e then others_cooldown r tick e xs m
      else case identity r x of None \<Rightarrow> None
        | Some ident \<Rightarrow> others_cooldown r tick e xs (m(npc_id ident \<mapsto> tick + 2)))"

definition finish_speaker :: "int \<Rightarrow> entity list \<Rightarrow> entity \<Rightarrow> world \<Rightarrow> world option" where
  "finish_speaker tick grp e w =
     (if \<not> valid (reg w) e then Some w
      else do {
        let cd = get_or CooldownComp_default (cooldown (reg w)) e;
        act \<leftarrow> activity (reg w) e;
        m \<leftarrow> others_cooldown (reg w) tick e grp (cooldown_per_target cd);
        Some (erase_busy e (put_activity e lit_collecting_thoughts (put_cooldown e
          (cd\<lparr>social_energy := max 0 (social_energy cd - 10), cognitive_refractory_until := tick + 1,
              cooldown_per_target := m\<rparr>) w)))
      })"

definition release_speaker :: "entity \<Rightarrow> world \<Rightarrow> world option" where
  "release_speaker e w =
     (if \<not> valid (reg w) e then Some w
      else case activity (reg w) e of
             None \<Rightarrow> None
           | Some _ \<Rightarrow> Some (erase_busy e (put_activity e lit_waiting w)))"

section \<open>The callback\<close>

definition apply_result :: "env \<Rightarrow> DialogueResult \<Rightarrow> world \<Rightarrow> world option" where
  "apply_result env res w =
     (case entity_index (reg w) of
        None \<Rightarrow> Some w
      | Some idx \<Rightarrow> foldM (apply_job env idx) (dr_next_jobs res)
                      (fold (apply_emotion idx) (dr_emotions res) w))"

definition on_dialogue ::
  "env \<Rightarrow> entity list \<Rightarrow> int \<Rightarrow> string \<Rightarrow> bool \<Rightarrow> DialogueResult \<Rightarrow> world \<Rightarrow> world option" where
  "on_dialogue env grp tick zone_name success res w =
     (if success \<and> dr_success res \<and> (\<forall>e\<in>set grp. valid (reg w) e)
      then if \<exists>e\<in>set grp. \<not> has (identity (reg w)) e then ub
      else do {
        w1 \<leftarrow> (if dr_lines res = [] then Some w
               else broadcast env SC_DIALOGUE_EVENT (DialogueEventMsg (end_event (reg w) grp zone_name res)) w);
        w2 \<leftarrow> apply_result env res w1;
        w3 \<leftarrow> eavesdropping grp res w2;
        foldM (finish_speaker tick grp) grp w3
      }
      else foldM release_speaker grp w)"

section \<open>Nobody stays busy\<close>

text \<open>A step that keeps the entities, who they are, where they are and who has an activity, and
  makes nobody busy.\<close>

definition talk_step :: "world \<Rightarrow> world \<Rightarrow> bool" where
  "talk_step w w' \<longleftrightarrow> quiet (reg w) (reg w') \<and> identity (reg w') = identity (reg w) \<and>
     location (reg w') = location (reg w) \<and> dom (activity (reg w')) = dom (activity (reg w)) \<and>
     entity_index (reg w') = entity_index (reg w) \<and> dom (busy (reg w')) \<subseteq> dom (busy (reg w)) \<and>
     grid_reg w' = grid_reg w"

lemma talk_step_refl [simp]: "talk_step w w"
  by (simp add: talk_step_def)

lemma talk_step_trans: "talk_step w w' \<Longrightarrow> talk_step w' w'' \<Longrightarrow> talk_step w w''"
  unfolding talk_step_def by (metis quiet_trans subset_trans)

lemma talk_step_regs:
  assumes "talk_step w w'"
  shows "identity (reg w') = identity (reg w)" "valid (reg w') e = valid (reg w) e"
    "has (activity (reg w')) e = has (activity (reg w)) e" "npc_entity_of (reg w') = npc_entity_of (reg w)"
    "entity_index (reg w') = entity_index (reg w)"
proof -
  have l: "live (reg w') = live (reg w)" and d: "dom (activity (reg w')) = dom (activity (reg w))"
    and i: "identity (reg w') = identity (reg w)" and x: "entity_index (reg w') = entity_index (reg w)"
    using assms by (simp_all only: talk_step_def quiet_def)
  have v: "valid (reg w') = valid (reg w)" by (simp add: fun_eq_iff valid_def l)
  show "identity (reg w') = identity (reg w)" "entity_index (reg w') = entity_index (reg w)" by (fact i x)+
  show "valid (reg w') e = valid (reg w) e" unfolding v ..
  show "npc_entity_of (reg w') = npc_entity_of (reg w)" by (intro ext) (simp only: npc_entity_of_def v)
  show "has (activity (reg w')) e = has (activity (reg w)) e" unfolding has_dom d ..
qed

lemma talk_step_busy: "talk_step w w' \<Longrightarrow> \<not> has (busy (reg w)) e \<Longrightarrow> \<not> has (busy (reg w')) e"
  by (auto simp: talk_step_def has_dom simp del: has_Some)

lemma talk_step_fold:
  "(\<And>x t. talk_step t (f x t)) \<Longrightarrow> talk_step w (fold f xs w)"
  by (induction xs arbitrary: w) (auto intro: talk_step_trans)

lemma apply_emotion_step: "talk_step w (apply_emotion idx u w)"
proof -
  have p: "talk_step w (put_emotion e emo w)" for e emo
    by (simp add: talk_step_def quiet_defs)
  have r: "talk_step w (put_emotion e emo (w\<lparr>reg := (reg w)\<lparr>emotion_registry := Some er1\<rparr>\<rparr>))" for e emo er1
    by (simp add: talk_step_def quiet_defs)
  show ?thesis
    using p r by (simp add: apply_emotion_def Let_def split: option.split prod.split)
qed

lemma apply_job_step:
  assumes "\<And>e. npc_entity_of (reg w) idx (jp_npc_id p) = Some e \<Longrightarrow> has (activity (reg w)) e \<and> has (identity (reg w)) e"
  shows "\<exists>w'. apply_job env idx p w = Some w' \<and> talk_step w w'"
proof (cases "npc_entity_of (reg w) idx (jp_npc_id p)")
  case None
  then show ?thesis by (simp add: apply_job_def)
next
  case (Some e)
  obtain ident act where c: "identity (reg w) e = Some ident" "activity (reg w) e = Some act"
    using assms [OF Some] by auto
  obtain a u w1 where d: "draw_disc w = ((a, u), w1)" by (metis surj_pair)
  have w1: "reg w1 = reg w" "grid_reg w1 = grid_reg w" using d by (auto simp: draw_disc_def)
  obtain x z where xz: "RandomizeWithinRadius (cos_f env) (sin_f env) a u (jp_target_x p) (jp_target_z p)
      LOCATION_RADIUS = (x, z)" by fastforce
  have "talk_step w (put_toil e t (put_job e j w1))" for t j
    using c by (auto simp: talk_step_def quiet_defs w1)
  with c show ?thesis
    by (simp add: apply_job_def Some d xz Let_def) (simp add: put_defs w1)
qed

definition jobs_known :: "registry \<Rightarrow> DialogueResult \<Rightarrow> bool" where
  "jobs_known r res \<longleftrightarrow> (\<forall>idx. entity_index r = Some idx \<longrightarrow> (\<forall>p\<in>set (dr_next_jobs res). \<forall>e.
     npc_entity_of r idx (jp_npc_id p) = Some e \<longrightarrow> has (activity r) e \<and> has (identity r) e))"

lemma apply_result_step:
  assumes k: "jobs_known (reg w) res"
  shows "\<exists>w'. apply_result env res w = Some w' \<and> talk_step w w'"
proof (cases "entity_index (reg w)")
  case None
  then show ?thesis by (simp add: apply_result_def)
next
  case (Some idx)
  define w1 where "w1 = fold (apply_emotion idx) (dr_emotions res) w"
  have s: "talk_step w w1" unfolding w1_def by (rule talk_step_fold [OF apply_emotion_step])
  have "\<exists>w'. foldM (apply_job env idx) (dr_next_jobs res) w1 = Some w' \<and> talk_step w w'"
  proof (rule foldM_total [where I = "talk_step w", OF s])
    fix p and t :: world
    assume p: "p \<in> set (dr_next_jobs res)" and t: "talk_step w t"
    have "\<exists>t'. apply_job env idx p t = Some t' \<and> talk_step t t'"
      by (rule apply_job_step)
        (use k Some p in \<open>auto simp: jobs_known_def talk_step_regs [OF t] simp del: has_Some\<close>)
    with talk_step_trans [OF t] show "\<exists>t'. apply_job env idx p t = Some t' \<and> talk_step w t'" by blast
  qed
  then show ?thesis by (simp add: apply_result_def Some w1_def)
qed

lemma eavesdrop_step: "talk_step w (eavesdrop grp source c res e w)"
proof -
  have "talk_step w (call_rpc q k w)" for q k by (simp add: talk_step_def quiet_defs)
  then show ?thesis by (simp add: eavesdrop_def Let_def split: prod.split option.split)
qed

lemma eavesdropping_step:
  assumes "\<forall>e\<in>set grp. valid (reg w) e \<longrightarrow> has (identity (reg w)) e"
  shows "\<exists>w'. eavesdropping grp res w = Some w' \<and> talk_step w w'"
proof (cases "grp = [] \<or> \<not> valid (reg w) (hd grp)")
  case True
  then show ?thesis by (simp add: eavesdropping_def)
next
  case False
  then obtain ident where i: "identity (reg w) (hd grp) = Some ident"
    using assms by (metis has_Some list.set_sel(1))
  obtain x y z where c: "talk_centre (reg w) grp = (x, y, z)" by (metis prod_cases3)
  have "talk_step w (fold (eavesdrop grp (npc_id ident) (x, y, z) res) ns w)" for ns
    by (rule talk_step_fold [OF eavesdrop_step])
  with False i c show ?thesis by (simp add: eavesdropping_def)
qed

lemma others_cooldown_total:
  "\<forall>x\<in>set xs. has (identity r) x \<Longrightarrow> \<exists>m'. others_cooldown r tick e xs m = Some m'"
  by (induction xs arbitrary: m) auto

lemma erase_busy_step: "has (activity (reg w)) e \<Longrightarrow>
    talk_step w (erase_busy e (put_activity e a w)) \<and> \<not> has (busy (reg (erase_busy e (put_activity e a w)))) e"
  by (auto simp: talk_step_def quiet_defs)

lemma finish_speaker_step:
  assumes "valid (reg w) e \<longrightarrow> has (activity (reg w)) e" "\<forall>x\<in>set grp. has (identity (reg w)) x"
  shows "\<exists>w'. finish_speaker tick grp e w = Some w' \<and> talk_step w w' \<and>
    (valid (reg w) e \<longrightarrow> \<not> has (busy (reg w')) e)"
proof (cases "valid (reg w) e")
  case True
  then obtain a where a: "activity (reg w) e = Some a" using assms(1) by auto
  obtain m where m: "others_cooldown (reg w) tick e grp
      (cooldown_per_target (get_or CooldownComp_default (cooldown (reg w)) e)) = Some m"
    using others_cooldown_total [OF assms(2)] by blast
  define w1 where "w1 = put_cooldown e ((get_or CooldownComp_default (cooldown (reg w)) e)
      \<lparr>social_energy := max 0 (social_energy (get_or CooldownComp_default (cooldown (reg w)) e) - 10),
       cognitive_refractory_until := tick + 1, cooldown_per_target := m\<rparr>) w"
  have "talk_step w w1" by (simp add: w1_def talk_step_def quiet_defs)
  moreover have "has (activity (reg w1)) e" by (simp add: w1_def put_defs a)
  ultimately show ?thesis
    using erase_busy_step [of w1 e lit_collecting_thoughts] talk_step_trans [of w w1] True a m
    by (simp add: finish_speaker_def Let_def w1_def [symmetric] del: has_Some)
next
  case False
  then show ?thesis by (simp add: finish_speaker_def)
qed

lemma release_speaker_step:
  assumes "valid (reg w) e \<longrightarrow> has (activity (reg w)) e"
  shows "\<exists>w'. release_speaker e w = Some w' \<and> talk_step w w' \<and> (valid (reg w) e \<longrightarrow> \<not> has (busy (reg w')) e)"
proof (cases "valid (reg w) e")
  case True
  then obtain a where "activity (reg w) e = Some a" using assms by auto
  then show ?thesis using erase_busy_step [of w e lit_waiting]
    by (simp add: release_speaker_def True del: has_Some) simp
next
  case False
  then show ?thesis by (simp add: release_speaker_def)
qed

text \<open>Freeing the speakers one after the other.\<close>

lemma free_all:
  assumes step: "\<And>e t. e \<in> set es \<Longrightarrow> talk_step w t \<Longrightarrow>
      \<exists>t'. f e t = Some t' \<and> talk_step t t' \<and> (valid (reg t) e \<longrightarrow> \<not> has (busy (reg t')) e)"
    and w: "talk_step w w1"
  shows "\<exists>w'. foldM f es w1 = Some w' \<and> talk_step w w' \<and>
    (\<forall>e. valid (reg w) e \<and> (e \<in> set es \<or> \<not> has (busy (reg w1)) e) \<longrightarrow> \<not> has (busy (reg w')) e)"
  using assms
proof (induction es arbitrary: w1)
  case Nil
  then show ?case by (simp del: has_Some)
next
  case (Cons e es)
  obtain t where t: "f e w1 = Some t" "talk_step w1 t" "valid (reg w1) e \<longrightarrow> \<not> has (busy (reg t)) e"
    using Cons.prems(1) [OF _ Cons.prems(2), of e] by auto
  have "\<exists>w'. foldM f es t = Some w' \<and> talk_step w w' \<and>
      (\<forall>e. valid (reg w) e \<and> (e \<in> set es \<or> \<not> has (busy (reg t)) e) \<longrightarrow> \<not> has (busy (reg w')) e)"
    by (rule Cons.IH) (use Cons.prems talk_step_trans [OF Cons.prems(2) t(2)] in auto)
  with t talk_step_busy [OF t(2)] talk_step_regs(2) [OF Cons.prems(2)] show ?case
    by (simp del: has_Some) blast
qed

lemma release_all:
  assumes "\<forall>e\<in>set grp. valid (reg w) e \<longrightarrow> has (activity (reg w)) e"
  shows "\<exists>w'. foldM release_speaker grp w = Some w' \<and> talk_step w w' \<and>
    (\<forall>e. valid (reg w) e \<and> (e \<in> set grp \<or> \<not> has (busy (reg w)) e) \<longrightarrow> \<not> has (busy (reg w')) e)"
proof (rule free_all [where w = w])
  fix e and t :: world
  assume e: "e \<in> set grp" and t: "talk_step w t"
  show "\<exists>t'. release_speaker e t = Some t' \<and> talk_step t t' \<and> (valid (reg t) e \<longrightarrow> \<not> has (busy (reg t')) e)"
    by (rule release_speaker_step) (use assms e in \<open>simp only: talk_step_regs [OF t]; blast\<close>)
qed simp

lemma finish_all:
  assumes "\<forall>e\<in>set grp. valid (reg w) e \<and> has (activity (reg w)) e \<and> has (identity (reg w)) e"
    and "talk_step w w1"
  shows "\<exists>w'. foldM (finish_speaker tick grp) grp w1 = Some w' \<and> talk_step w w' \<and>
    (\<forall>e. valid (reg w) e \<and> (e \<in> set grp \<or> \<not> has (busy (reg w1)) e) \<longrightarrow> \<not> has (busy (reg w')) e)"
proof (rule free_all [OF _ assms(2)])
  fix e and t :: world
  assume e: "e \<in> set grp" and t: "talk_step w t"
  show "\<exists>t'. finish_speaker tick grp e t = Some t' \<and> talk_step t t' \<and> (valid (reg t) e \<longrightarrow> \<not> has (busy (reg t')) e)"
    by (rule finish_speaker_step) (use assms(1) e in \<open>simp only: talk_step_regs [OF t]; blast\<close>)+
qed

lemma tcp_talk_step: "talk_step w (w\<lparr>tcp := s\<rparr>)"
  by (simp add: talk_step_def)

lemma announce_step:
  assumes "\<And>p. fits env (DialogueEventMsg p)"
  shows "\<exists>w'. (if ls = [] then Some w else broadcast env pid (DialogueEventMsg p) w) = Some w' \<and> talk_step w w'"
proof (cases "ls = []")
  case False
  with broadcast_total [OF assms, of pid p w] tcp_talk_step show ?thesis by auto
qed simp

text \<open>Who can speak: an agent with a name and an activity, once it is alive.\<close>

definition speakers_ok :: "registry \<Rightarrow> entity list \<Rightarrow> bool" where
  "speakers_ok r grp \<longleftrightarrow> (\<forall>e\<in>set grp. valid r e \<longrightarrow> has (activity r) e \<and> has (identity r) e)"

lemma on_dialogue_step:
  assumes f: "\<And>p. fits env (DialogueEventMsg p)" and g: "speakers_ok (reg w) grp"
    and k: "jobs_known (reg w) res"
  shows "\<exists>w'. on_dialogue env grp tick zone success res w = Some w' \<and> talk_step w w' \<and>
    (\<forall>e. valid (reg w) e \<and> (e \<in> set grp \<or> \<not> has (busy (reg w)) e) \<longrightarrow> \<not> has (busy (reg w')) e)"
proof (cases "success \<and> dr_success res \<and> (\<forall>e\<in>set grp. valid (reg w) e)")
  case False
  with release_all [of grp w] g show ?thesis by (simp add: on_dialogue_def speakers_ok_def del: has_Some) blast
next
  case True
  with g have s: "\<forall>e\<in>set grp. valid (reg w) e \<and> has (activity (reg w)) e \<and> has (identity (reg w)) e"
    by (simp add: speakers_ok_def)
  obtain w1 where w1: "(if dr_lines res = [] then Some w
      else broadcast env SC_DIALOGUE_EVENT (DialogueEventMsg (end_event (reg w) grp zone res)) w) = Some w1"
    and s1: "talk_step w w1" using announce_step [OF f] by blast
  have "jobs_known (reg w1) res"
    using k by (simp only: jobs_known_def talk_step_regs [OF s1])
  then obtain w2 where w2: "apply_result env res w1 = Some w2" and s2: "talk_step w w2"
    using apply_result_step talk_step_trans [OF s1] by blast
  obtain w3 where w3: "eavesdropping grp res w2 = Some w3" and s3: "talk_step w w3"
    using eavesdropping_step [of grp w2 res] s talk_step_trans [OF s2] by (auto simp: talk_step_regs [OF s2] simp del: has_Some)
  from finish_all [OF s s3] obtain w' where w': "foldM (finish_speaker tick grp) grp w3 = Some w'" "talk_step w w'"
    "\<forall>e. valid (reg w) e \<and> (e \<in> set grp \<or> \<not> has (busy (reg w3)) e) \<longrightarrow> \<not> has (busy (reg w')) e" by blast
  have "on_dialogue env grp tick zone success res w = Some w'"
    using s w1 w2 w3 w' by (simp only: on_dialogue_def if_P [OF True]) auto
  with w' talk_step_busy [OF s3] show ?thesis by blast
qed


text \<open>The answer to a talk of the sleeper and the wolf.\<close>

definition demo_result :: DialogueResult where
  "demo_result = \<lparr>dr_task_id = 7, dr_summary = ''howling'',
     dr_lines = [\<lparr>dl_speaker_id = 1, dl_speaker_name = ''Eva'', dl_text = ''Go''\<rparr>],
     dr_emotions = [\<lparr>eu_agent_id = 1, eu_new_emotion = ''calm'', eu_intensity = 1, eu_category = 1\<rparr>],
     dr_next_jobs = [], dr_keywords = [''wolf''], dr_success = True\<rparr>"


end
