(* ===== verification/GrpcClient.thy ===== *)
theory GrpcClient
  imports Player Dialogue
begin

text \<open>
  \<open>AsyncGrpcClient\<close>: for each call the request it sends, what its coroutine makes of the
  response, of an error status and of an exception, and what the completion callback does on the
  gRPC thread: give the back-pressure count of its session back and queue a task for the main
  thread. The gRPC library is the outcome of a call, a parameter.
\<close>

section \<open>Protocol messages\<close>

text \<open>An unset submessage reads as its default. Enumerations of proto3 are open.\<close>

record ProtoLocation =
  pl_name :: string
  pl_position :: "(fl \<times> fl \<times> fl) option"

definition proto_name :: "ProtoLocation option \<Rightarrow> string" where
  "proto_name l = (case l of None \<Rightarrow> [] | Some p \<Rightarrow> pl_name p)"

definition proto_position :: "ProtoLocation option \<Rightarrow> fl \<times> fl \<times> fl" where
  "proto_position l = (case l of None \<Rightarrow> (Fin 0, Fin 0, Fin 0)
     | Some p \<Rightarrow> (case pl_position p of None \<Rightarrow> (Fin 0, Fin 0, Fin 0) | Some v \<Rightarrow> v))"

definition as_uint8 :: "int \<Rightarrow> nat" where
  "as_uint8 i = nat (i mod 256)"

record ProtoJob =
  pj_npc_id :: u32
  pj_job_id :: u64
  pj_target_location :: "ProtoLocation option"
  pj_intent :: string
  pj_target_agent_id :: u32
  pj_priority :: int
  pj_category :: int

record ProtoEmotionUpdate =
  pe_agent_id :: u32
  pe_new_emotion :: string
  pe_intensity :: int
  pe_category :: int

record RelationshipDelta =
  rd_from_agent_id :: u32
  rd_to_agent_id :: u32
  rd_liking :: int
  rd_trust :: int

record ProcessWorldTickResponse =
  tr_success :: bool
  tr_message :: string
  tr_busy_agent_ids :: "u32 list"
  tr_relationship_deltas :: "RelationshipDelta list"

record TriggerDialogueResponse =
  gr_task_id :: u64
  gr_dialogue_summary :: string
  gr_structured_lines :: "DialogueLine list"
  gr_emotion_updates :: "ProtoEmotionUpdate list"
  gr_next_jobs :: "ProtoJob list"
  gr_keywords :: "string list"
  gr_success :: bool

record StartPlayerDialogueResponse =
  pr_session_id :: u64
  pr_greeting :: string
  pr_success :: bool
  pr_message :: string

record ReportJobStatusResponse =
  rr_success :: bool
  rr_message :: string
  rr_new_job :: "ProtoJob option"

record ProtoAgentStatus =
  ps_name :: string
  ps_location :: "ProtoLocation option"
  ps_emotion :: string
  ps_activity :: string
  ps_memories :: "string list"

section \<open>Requests\<close>

datatype rpc_request =
    ProcessWorldTickRequest int
  | TriggerDialogueRequest u32 u32 "u32 list"
  | BatchUpdateAgentStatusRequest "(u32 \<times> ProtoLocation \<times> string \<times> string) list"
  | StartPlayerDialogueRequest string u32
  | SendPlayerMessageRequest u64 string
  | EndPlayerDialogueRequest u64
  | InjectBeliefRequest u32 u32 string ProtoBeliefType u32
  | GetPendingJobsRequest int
  | ReportJobStatusRequest u32 u64 int InterruptReason string int
  | ThreatDetectedRequest u32 u32 int
  | ReportCombatEventRequest u32 u32 fl string
  | GetAgentStatusRequest u32

definition update_request :: "AgentStatusUpdate \<Rightarrow> u32 \<times> ProtoLocation \<times> string \<times> string" where
  "update_request u = (su_agent_id u,
     \<lparr>pl_name = su_location u, pl_position = Some (su_x u, su_y u, su_z u)\<rparr>, su_emotion u, su_activity u)"

definition dialogue_request :: "u32 list \<Rightarrow> rpc_request" where
  "dialogue_request ids =
     (if 2 \<le> length ids then TriggerDialogueRequest (ids ! 0) (ids ! 1) ids
      else TriggerDialogueRequest 0 0 ids)"

section \<open>Outcomes and answers\<close>

text \<open>
  The outcome of a call: a response with status OK, an error status with its message, or an exception with \<open>what()\<close>. A stub gives it for a request and its deadline (seconds from
  now), at one point of time.
\<close>

datatype 'r rpc_outcome = RpcOk 'r | RpcStatus string | RpcThrow string

type_synonym 'r stub = "rpc_request \<Rightarrow> nat \<Rightarrow> 'r rpc_outcome"

record rpc_stubs =
  PrepareAsyncProcessWorldTick :: "ProcessWorldTickResponse stub"
  PrepareAsyncTriggerDialogue :: "TriggerDialogueResponse stub"
  PrepareAsyncBatchUpdateAgentStatus :: "int stub"
  PrepareAsyncStartPlayerDialogue :: "StartPlayerDialogueResponse stub"
  PrepareAsyncSendPlayerMessage :: "string stub"
  PrepareAsyncEndPlayerDialogue :: "(bool \<times> string) stub"
  PrepareAsyncInjectBelief :: "(bool \<times> string) stub"
  PrepareAsyncGetPendingJobs :: "ProtoJob list stub"
  PrepareAsyncReportJobStatus :: "ReportJobStatusResponse stub"
  PrepareAsyncThreatDetected :: "int stub"
  PrepareAsyncReportCombatEvent :: "bool stub"
  PrepareAsyncGetAgentStatus :: "ProtoAgentStatus stub"

text \<open>The arguments of the completion callbacks.\<close>

datatype rpc_answer =
    TickAnswer bool string "u32 list" "RelationshipDelta list"
  | DialogueAnswer bool DialogueResult
  | StatusAnswer bool int string
  | StartAnswer bool u64 string string
  | MessageAnswer bool string
  | EndAnswer bool string
  | BeliefAnswer bool string
  | JobsAnswer bool "JobPayload list"
  | ReportAnswer bool bool JobPayload string
  | ThreatAnswer bool int
  | CombatAnswer bool
  | AgentAnswer bool AgentStatus

definition grpc_error :: "string \<Rightarrow> string" where
  "grpc_error m = ''gRPC error: '' @ m"

definition job_of_proto :: "ProtoJob \<Rightarrow> JobPayload" where
  "job_of_proto p = (let (x, y, z) = proto_position (pj_target_location p)
     in \<lparr>jp_npc_id = pj_npc_id p, jp_job_id = pj_job_id p,
         jp_target_location = proto_name (pj_target_location p), jp_target_x = x, jp_target_y = y,
         jp_target_z = z, jp_intent = pj_intent p, jp_target_agent_id = pj_target_agent_id p,
         jp_priority = pj_priority p, jp_category = as_uint8 (pj_category p)\<rparr>)"

definition JobPayload_default :: JobPayload where
  "JobPayload_default = \<lparr>jp_npc_id = 0, jp_job_id = 0, jp_target_location = [], jp_target_x = Fin 0,
     jp_target_y = Fin 0, jp_target_z = Fin 0, jp_intent = [], jp_target_agent_id = 0, jp_priority = 0,
     jp_category = 0\<rparr>"

definition AgentStatus_default :: AgentStatus where
  "AgentStatus_default = \<lparr>as_name = [], as_location = [], as_x = Fin 0, as_y = Fin 0, as_z = Fin 0,
     as_emotion = [], as_activity = [], as_memories = []\<rparr>"

text \<open>\<open>task_id\<close> has no initialiser; nothing reads it when the call failed.\<close>

definition DialogueResult_failed :: DialogueResult where
  "DialogueResult_failed = \<lparr>dr_task_id = 0, dr_summary = [], dr_lines = [], dr_emotions = [],
     dr_next_jobs = [], dr_keywords = [], dr_success = False\<rparr>"

section \<open>The coroutines\<close>

text \<open>Send the request, wait, and call \<open>on_complete\<close>; \<open>None\<close>: the coroutine ends without calling it.\<close>

definition DoProcessWorldTick :: "rpc_stubs \<Rightarrow> int \<Rightarrow> rpc_answer option" where
  "DoProcessWorldTick net tick =
     (case PrepareAsyncProcessWorldTick net (ProcessWorldTickRequest tick) 5 of
       RpcOk r \<Rightarrow> Some (TickAnswer (tr_success r) (tr_message r) (tr_busy_agent_ids r) (tr_relationship_deltas r))
     | RpcStatus m \<Rightarrow> Some (TickAnswer False (grpc_error m) [] [])
     | RpcThrow _ \<Rightarrow> None)"

definition dialogue_result :: "TriggerDialogueResponse \<Rightarrow> DialogueResult" where
  "dialogue_result r = \<lparr>dr_task_id = gr_task_id r, dr_summary = gr_dialogue_summary r,
     dr_lines = gr_structured_lines r,
     dr_emotions = List.map (\<lambda>u. \<lparr>eu_agent_id = pe_agent_id u, eu_new_emotion = pe_new_emotion u,
       eu_intensity = pe_intensity u, eu_category = as_uint8 (pe_category u)\<rparr>) (gr_emotion_updates r),
     dr_next_jobs = List.map job_of_proto (gr_next_jobs r), dr_keywords = gr_keywords r,
     dr_success = gr_success r\<rparr>"

definition DoTriggerDialogue :: "rpc_stubs \<Rightarrow> u32 list \<Rightarrow> rpc_answer option" where
  "DoTriggerDialogue net ids =
     (case PrepareAsyncTriggerDialogue net (dialogue_request ids) 15 of
       RpcOk r \<Rightarrow> Some (DialogueAnswer True (dialogue_result r))
     | RpcStatus m \<Rightarrow> Some (DialogueAnswer False DialogueResult_failed)
     | RpcThrow _ \<Rightarrow> None)"

definition DoBatchUpdateStatus :: "rpc_stubs \<Rightarrow> AgentStatusUpdate list \<Rightarrow> rpc_answer option" where
  "DoBatchUpdateStatus net updates =
     (case PrepareAsyncBatchUpdateAgentStatus net (BatchUpdateAgentStatusRequest (List.map update_request updates)) 5 of
       RpcOk n \<Rightarrow> Some (StatusAnswer True n lit_batch_done)
     | RpcStatus m \<Rightarrow> Some (StatusAnswer False 0 (grpc_error m))
     | RpcThrow _ \<Rightarrow> None)"

definition DoStartPlayerDialogue :: "rpc_stubs \<Rightarrow> string \<Rightarrow> u32 \<Rightarrow> rpc_answer option" where
  "DoStartPlayerDialogue net player_id i =
     (case PrepareAsyncStartPlayerDialogue net (StartPlayerDialogueRequest player_id i) 5 of
       RpcOk r \<Rightarrow> Some (StartAnswer (pr_success r) (pr_session_id r) (pr_greeting r) (pr_message r))
     | RpcStatus m \<Rightarrow> Some (StartAnswer False 0 [] (grpc_error m))
     | RpcThrow _ \<Rightarrow> None)"

definition DoSendPlayerMessage :: "rpc_stubs \<Rightarrow> u64 \<Rightarrow> string \<Rightarrow> rpc_answer option" where
  "DoSendPlayerMessage net sid msg =
     (case PrepareAsyncSendPlayerMessage net (SendPlayerMessageRequest sid msg) 5 of
       RpcOk reply \<Rightarrow> Some (MessageAnswer True reply)
     | RpcStatus m \<Rightarrow> Some (MessageAnswer False (grpc_error m))
     | RpcThrow _ \<Rightarrow> None)"

definition DoEndPlayerDialogue :: "rpc_stubs \<Rightarrow> u64 \<Rightarrow> rpc_answer option" where
  "DoEndPlayerDialogue net sid =
     (case PrepareAsyncEndPlayerDialogue net (EndPlayerDialogueRequest sid) 5 of
       RpcOk (success, summary) \<Rightarrow> Some (EndAnswer success summary)
     | RpcStatus m \<Rightarrow> Some (EndAnswer False (grpc_error m))
     | RpcThrow _ \<Rightarrow> None)"

definition DoInjectBelief :: "rpc_stubs \<Rightarrow> u32 \<Rightarrow> u32 \<Rightarrow> string \<Rightarrow> ProtoBeliefType \<Rightarrow> u32 \<Rightarrow> rpc_answer option" where
  "DoInjectBelief net target subject content belief source =
     (case PrepareAsyncInjectBelief net (InjectBeliefRequest target subject content belief source) 5 of
       RpcOk (success, message) \<Rightarrow> Some (BeliefAnswer success message)
     | RpcStatus m \<Rightarrow> Some (BeliefAnswer False (grpc_error m))
     | RpcThrow _ \<Rightarrow> None)"

definition DoGetPendingJobs :: "rpc_stubs \<Rightarrow> int \<Rightarrow> rpc_answer option" where
  "DoGetPendingJobs net tick =
     (case PrepareAsyncGetPendingJobs net (GetPendingJobsRequest tick) 5 of
       RpcOk jobs \<Rightarrow> Some (JobsAnswer True (List.map job_of_proto jobs))
     | RpcStatus _ \<Rightarrow> Some (JobsAnswer False [])
     | RpcThrow _ \<Rightarrow> Some (JobsAnswer False []))"

definition DoReportJobStatus :: "rpc_stubs \<Rightarrow> u32 \<Rightarrow> u64 \<Rightarrow> int \<Rightarrow> InterruptReason \<Rightarrow> string \<Rightarrow> int \<Rightarrow> rpc_answer option" where
  "DoReportJobStatus net i j status reason details tick =
     (case PrepareAsyncReportJobStatus net (ReportJobStatusRequest i j status reason details tick) 5 of
       RpcOk r \<Rightarrow> Some (ReportAnswer (rr_success r) (rr_new_job r \<noteq> None)
         (case rr_new_job r of None \<Rightarrow> JobPayload_default | Some j \<Rightarrow> job_of_proto j) (rr_message r))
     | RpcStatus m \<Rightarrow> Some (ReportAnswer False False JobPayload_default (grpc_error m))
     | RpcThrow m \<Rightarrow> Some (ReportAnswer False False JobPayload_default m))"

definition DoThreatDetected :: "rpc_stubs \<Rightarrow> u32 \<Rightarrow> u32 \<Rightarrow> int \<Rightarrow> rpc_answer option" where
  "DoThreatDetected net i target score =
     (case PrepareAsyncThreatDetected net (ThreatDetectedRequest i target score) 5 of
       RpcOk action \<Rightarrow> Some (ThreatAnswer True action)
     | RpcStatus _ \<Rightarrow> Some (ThreatAnswer False 1)
     | RpcThrow _ \<Rightarrow> Some (ThreatAnswer False 1))"

definition DoReportCombatEvent :: "rpc_stubs \<Rightarrow> u32 \<Rightarrow> u32 \<Rightarrow> fl \<Rightarrow> string \<Rightarrow> rpc_answer option" where
  "DoReportCombatEvent net attacker victim damage weapon =
     (case PrepareAsyncReportCombatEvent net (ReportCombatEventRequest attacker victim damage weapon) 5 of
       RpcOk success \<Rightarrow> Some (CombatAnswer success)
     | RpcStatus _ \<Rightarrow> Some (CombatAnswer False)
     | RpcThrow _ \<Rightarrow> Some (CombatAnswer False))"

definition agent_status :: "ProtoAgentStatus \<Rightarrow> AgentStatus" where
  "agent_status r = (let (x, y, z) = proto_position (ps_location r)
     in \<lparr>as_name = ps_name r, as_location = proto_name (ps_location r), as_x = x, as_y = y, as_z = z,
         as_emotion = ps_emotion r, as_activity = ps_activity r, as_memories = ps_memories r\<rparr>)"

definition DoGetAgentStatus :: "rpc_stubs \<Rightarrow> u32 \<Rightarrow> rpc_answer option" where
  "DoGetAgentStatus net i =
     (case PrepareAsyncGetAgentStatus net (GetAgentStatusRequest i) 5 of
       RpcOk r \<Rightarrow> Some (AgentAnswer True (agent_status r))
     | RpcStatus _ \<Rightarrow> Some (AgentAnswer False AgentStatus_default)
     | RpcThrow _ \<Rightarrow> Some (AgentAnswer False AgentStatus_default))"

lemmas Do_defs = DoProcessWorldTick_def DoTriggerDialogue_def DoBatchUpdateStatus_def
  DoStartPlayerDialogue_def DoSendPlayerMessage_def DoEndPlayerDialogue_def DoInjectBelief_def
  DoGetPendingJobs_def DoReportJobStatus_def DoThreatDetected_def DoReportCombatEvent_def
  DoGetAgentStatus_def

text \<open>The public interface: each operation spawns its coroutine.\<close>

primrec perform :: "rpc_stubs \<Rightarrow> rpc_call \<Rightarrow> rpc_answer option" where
  "perform net (ProcessWorldTick t) = DoProcessWorldTick net t"
| "perform net (TriggerDialogue ids) = DoTriggerDialogue net ids"
| "perform net (BatchUpdateStatus us) = DoBatchUpdateStatus net us"
| "perform net (StartPlayerDialogue p n) = DoStartPlayerDialogue net p n"
| "perform net (SendPlayerMessage s m) = DoSendPlayerMessage net s m"
| "perform net (EndPlayerDialogue s) = DoEndPlayerDialogue net s"
| "perform net (InjectBelief t s c b src) = DoInjectBelief net t s c b src"
| "perform net (GetPendingJobs t) = DoGetPendingJobs net t"
| "perform net (ReportJobStatus n j s r d t) = DoReportJobStatus net n j s r d t"
| "perform net (ThreatDetected a t s) = DoThreatDetected net a t s"
| "perform net (ReportCombatEvent a v d w) = DoReportCombatEvent net a v d w"
| "perform net (rpc_call.GetAgentStatus a) = DoGetAgentStatus net a"

section \<open>Completion\<close>

type_synonym grpc_task = "continuation \<times> rpc_answer"

text \<open>The session whose pending call a callback counts.\<close>

fun k_session :: "continuation \<Rightarrow> u32 option" where
  "k_session (KPlayerDialogueStarted _ _ _ _ s) = s"
| "k_session (KPlayerMessage _ _ _ s) = s"
| "k_session (KPlayerDialogueEnded _ _ s) = s"
| "k_session (KAgentStatus _ _ s) = s"
| "k_session _ = None"

text \<open>The end of the j-th outstanding call, on the gRPC thread.\<close>

definition complete_call :: "rpc_stubs \<Rightarrow> nat \<Rightarrow> world \<times> grpc_task grpc_queue \<Rightarrow> world \<times> grpc_task grpc_queue" where
  "complete_call net j = (\<lambda>(w, q).
     let (c, k) = outbox w ! j; w1 = w\<lparr>outbox := take j (outbox w) @ drop (Suc j) (outbox w)\<rparr>
     in case perform net c of
          None \<Rightarrow> (w1, q)
        | Some a \<Rightarrow> (decrement_pending (k_session k) w1, if k = KNone then q else Push (k, a) q))"

section \<open>Every call is answered once, or its exception is swallowed\<close>

text \<open>How a call ends.\<close>

primrec outcome :: "rpc_stubs \<Rightarrow> rpc_call \<Rightarrow> unit rpc_outcome" where
  "outcome net (ProcessWorldTick t) = map_rpc_outcome (\<lambda>_. ()) (PrepareAsyncProcessWorldTick net (ProcessWorldTickRequest t) 5)"
| "outcome net (TriggerDialogue ids) = map_rpc_outcome (\<lambda>_. ()) (PrepareAsyncTriggerDialogue net (dialogue_request ids) 15)"
| "outcome net (BatchUpdateStatus us) = map_rpc_outcome (\<lambda>_. ()) (PrepareAsyncBatchUpdateAgentStatus net (BatchUpdateAgentStatusRequest (List.map update_request us)) 5)"
| "outcome net (StartPlayerDialogue p n) = map_rpc_outcome (\<lambda>_. ()) (PrepareAsyncStartPlayerDialogue net (StartPlayerDialogueRequest p n) 5)"
| "outcome net (SendPlayerMessage s m) = map_rpc_outcome (\<lambda>_. ()) (PrepareAsyncSendPlayerMessage net (SendPlayerMessageRequest s m) 5)"
| "outcome net (EndPlayerDialogue s) = map_rpc_outcome (\<lambda>_. ()) (PrepareAsyncEndPlayerDialogue net (EndPlayerDialogueRequest s) 5)"
| "outcome net (InjectBelief t s c b src) = map_rpc_outcome (\<lambda>_. ()) (PrepareAsyncInjectBelief net (InjectBeliefRequest t s c b src) 5)"
| "outcome net (GetPendingJobs t) = map_rpc_outcome (\<lambda>_. ()) (PrepareAsyncGetPendingJobs net (GetPendingJobsRequest t) 5)"
| "outcome net (ReportJobStatus n j s r d t) = map_rpc_outcome (\<lambda>_. ()) (PrepareAsyncReportJobStatus net (ReportJobStatusRequest n j s r d t) 5)"
| "outcome net (ThreatDetected a t s) = map_rpc_outcome (\<lambda>_. ()) (PrepareAsyncThreatDetected net (ThreatDetectedRequest a t s) 5)"
| "outcome net (ReportCombatEvent a v d w) = map_rpc_outcome (\<lambda>_. ()) (PrepareAsyncReportCombatEvent net (ReportCombatEventRequest a v d w) 5)"
| "outcome net (rpc_call.GetAgentStatus a) = map_rpc_outcome (\<lambda>_. ()) (PrepareAsyncGetAgentStatus net (GetAgentStatusRequest a) 5)"

text \<open>The calls whose \<open>catch\<close> block still calls the callback.\<close>

definition robust_call :: "rpc_call \<Rightarrow> bool" where
  "robust_call c = (case c of GetPendingJobs _ \<Rightarrow> True | ReportJobStatus _ _ _ _ _ _ \<Rightarrow> True
     | ThreatDetected _ _ _ \<Rightarrow> True | ReportCombatEvent _ _ _ _ \<Rightarrow> True | rpc_call.GetAgentStatus _ \<Rightarrow> True
     | _ \<Rightarrow> False)"

primrec answer_success :: "rpc_answer \<Rightarrow> bool" where
  "answer_success (TickAnswer b _ _ _) = b"
| "answer_success (DialogueAnswer b _) = b"
| "answer_success (StatusAnswer b _ _) = b"
| "answer_success (StartAnswer b _ _ _) = b"
| "answer_success (MessageAnswer b _) = b"
| "answer_success (EndAnswer b _) = b"
| "answer_success (BeliefAnswer b _) = b"
| "answer_success (JobsAnswer b _) = b"
| "answer_success (ReportAnswer b _ _ _) = b"
| "answer_success (ThreatAnswer b _) = b"
| "answer_success (CombatAnswer b) = b"
| "answer_success (AgentAnswer b _) = b"

text \<open>The answer of the callback type of a call.\<close>

primrec answer_fits :: "rpc_call \<Rightarrow> rpc_answer \<Rightarrow> bool" where
  "answer_fits (ProcessWorldTick x1) r = (case r of TickAnswer _ _ _ _ \<Rightarrow> True | _ \<Rightarrow> False)"
| "answer_fits (TriggerDialogue x1) r = (case r of DialogueAnswer _ _ \<Rightarrow> True | _ \<Rightarrow> False)"
| "answer_fits (BatchUpdateStatus x1) r = (case r of StatusAnswer _ _ _ \<Rightarrow> True | _ \<Rightarrow> False)"
| "answer_fits (StartPlayerDialogue x1 x2) r = (case r of StartAnswer _ _ _ _ \<Rightarrow> True | _ \<Rightarrow> False)"
| "answer_fits (SendPlayerMessage x1 x2) r = (case r of MessageAnswer _ _ \<Rightarrow> True | _ \<Rightarrow> False)"
| "answer_fits (EndPlayerDialogue x1) r = (case r of EndAnswer _ _ \<Rightarrow> True | _ \<Rightarrow> False)"
| "answer_fits (InjectBelief x1 x2 x3 x4 x5) r = (case r of BeliefAnswer _ _ \<Rightarrow> True | _ \<Rightarrow> False)"
| "answer_fits (GetPendingJobs x1) r = (case r of JobsAnswer _ _ \<Rightarrow> True | _ \<Rightarrow> False)"
| "answer_fits (ReportJobStatus x1 x2 x3 x4 x5 x6) r = (case r of ReportAnswer _ _ _ _ \<Rightarrow> True | _ \<Rightarrow> False)"
| "answer_fits (ThreatDetected x1 x2 x3) r = (case r of ThreatAnswer _ _ \<Rightarrow> True | _ \<Rightarrow> False)"
| "answer_fits (ReportCombatEvent x1 x2 x3 x4) r = (case r of CombatAnswer _ \<Rightarrow> True | _ \<Rightarrow> False)"
| "answer_fits (rpc_call.GetAgentStatus x1) r = (case r of AgentAnswer _ _ \<Rightarrow> True | _ \<Rightarrow> False)"



section \<open>The pending counters are balanced\<close>

definition outstanding :: "world \<Rightarrow> u32 \<Rightarrow> nat" where
  "outstanding w i = length (filter (\<lambda>(c, k). k_session k = Some i) (outbox w))"

text \<open>Any history of counted and other calls, of completions in any order, and of steps that leave
  both alone; \<open>lost\<close> counts the unanswered calls of each session.\<close>

inductive grpc_run :: "world \<Rightarrow> grpc_task grpc_queue \<Rightarrow> (u32 \<Rightarrow> nat) \<Rightarrow> bool" where
  start: "backpressure w = (\<lambda>_. bp_init) \<Longrightarrow> outbox w = [] \<Longrightarrow> grpc_run w q (\<lambda>_. 0)"
| counted: "grpc_run w q lost \<Longrightarrow> (\<And>s. k_session (k s) = s) \<Longrightarrow> grpc_run (counted_call i c k w) q lost"
| uncounted: "grpc_run w q lost \<Longrightarrow> k_session k = None \<Longrightarrow> grpc_run (call_rpc c k w) q lost"
| other: "grpc_run w q lost \<Longrightarrow> backpressure w' = backpressure w \<Longrightarrow> outbox w' = outbox w \<Longrightarrow>
    grpc_run w' q' lost"
| completed: "grpc_run w q lost \<Longrightarrow> j < length (outbox w) \<Longrightarrow> outbox w ! j = (c, k) \<Longrightarrow> complete_call net j (w, q) = (w', q') \<Longrightarrow>
    lost' = (\<lambda>i. lost i + (if perform net c = None \<and> k_session k = Some i then 1 else 0)) \<Longrightarrow>
    grpc_run w' q' lost'"

lemma outstanding_remove:
  assumes "j < length (outbox w)" "outbox w ! j = (c, k)"
  shows "outstanding w i =
    outstanding (w\<lparr>outbox := take j (outbox w) @ drop (Suc j) (outbox w)\<rparr>) i + (if k_session k = Some i then 1 else 0)"
proof -
  have "outbox w = take j (outbox w) @ (c, k) # drop (Suc j) (outbox w)"
    using id_take_nth_drop [OF assms(1)] assms(2) by simp
  then have "length (filter P (outbox w)) = length (filter P (take j (outbox w) @ (c, k) # drop (Suc j) (outbox w)))" for P
    by simp
  then show ?thesis by (simp add: outstanding_def)
qed

lemma outstanding_update [simp]:
  "outstanding (increment_pending s w) i = outstanding w i"
  "outstanding (decrement_pending s w) i = outstanding w i"
  by (auto simp: outstanding_def increment_pending_def decrement_pending_def split: option.split)

lemma outstanding_call:
  "outstanding (call_rpc c k w) i = outstanding w i + (if k_session k = Some i then 1 else 0)"
  by (simp add: outstanding_def call_rpc_def)

lemma pending_change:
  "pending_grpc_requests (fst (IncrementPendingGrpc s)) = pending_grpc_requests s + 1"
  "pending_grpc_requests (fst (DecrementPendingGrpc s)) = pending_grpc_requests s - 1"
  by (simp_all add: bp_defs Let_def)

lemma bp_ok_init: "bp_ok bp_init"
  by (simp add: bp_ok_def bp_init_def)

lemma bp_ok_change: "bp_ok (fst (IncrementPendingGrpc s))" "bp_ok (fst (DecrementPendingGrpc s))"
  using bp_apply_ok [of Inc s] bp_apply_ok [of Dec s] by simp_all

lemma call_rpc_backpressure [simp]: "backpressure (call_rpc c k w) = backpressure w"
  by (simp add: call_rpc_def)

lemma grpc_run_balance:
  "grpc_run w q lost \<Longrightarrow>
     pending_grpc_requests (backpressure w i) = outstanding w i + lost i \<and> bp_ok (backpressure w i)"
proof (induction arbitrary: i rule: grpc_run.induct)
  case (start w q)
  then show ?case by (simp add: outstanding_def bp_ok_init) (simp add: bp_init_def)
next
  case (counted w q lost k j c)
  then show ?case
    by (auto simp: counted_call_def Let_def outstanding_call open_session_def increment_pending_def
        pending_change bp_ok_change outstanding_def call_rpc_def)
next
  case (uncounted w q lost k c)
  then show ?case by (simp add: outstanding_call)
next
  case (other w q lost w' q')
  then show ?case by (simp add: outstanding_def)
next
  case (completed w q lost j c k net w' q' lost')
  define w1 where "w1 = w\<lparr>outbox := take j (outbox w) @ drop (Suc j) (outbox w)\<rparr>"
  have o: "outstanding w i = outstanding w1 i + (if k_session k = Some i then 1 else 0)"
    unfolding w1_def by (rule outstanding_remove [OF completed.hyps(2,3)])
  have b: "backpressure w1 = backpressure w" by (simp add: w1_def)
  have w': "w' = (if perform net c = None then w1 else decrement_pending (k_session k) w1)"
    using completed.hyps(3,4) by (auto simp: complete_call_def Let_def w1_def [symmetric] split: option.splits)
  have d: "backpressure (decrement_pending s w1) i =
      (if s = Some i then fst (DecrementPendingGrpc (backpressure w i)) else backpressure w i)" for s
    by (simp add: decrement_pending_def b split: option.split)
  from completed.IH [of i] show ?case
    unfolding w' completed.hyps(5) by (auto simp: d b o pending_change bp_ok_change)
qed

text \<open>C37: In every history the pending counter of a session is the number of its calls still
  outstanding plus the number of those whose exception was swallowed, and reading is suspended
  only above 8. So once all calls are answered the count is back at zero and the session is read
  again; but 32 swallowed exceptions suspend its reading for ever.\<close>

theorem pending_counters_balanced:
  assumes "grpc_run w q lost"
  shows "pending_grpc_requests (backpressure w i) = outstanding w i + lost i \<and>
    (outstanding w i = 0 \<and> lost i = 0 \<longrightarrow> \<not> is_reading_suspended (backpressure w i)) \<and>
    (32 \<le> lost i \<longrightarrow> is_reading_suspended (backpressure w i))"
  using grpc_run_balance [OF assms, of i] by (auto simp: bp_ok_def)

theorem pending_counters_balanced_witness:
  "\<exists>w :: world. outbox w = [] \<and> pending_grpc_requests (backpressure w 1) = 1"
proof -
  let ?k = "KPlayerMessage 1 ''Eva'' 7" and ?w0 = "demo_world registry_init\<lparr>tcp := two_sessions\<rparr>"
  let ?c = "SendPlayerMessage 7 ''Hi''"
  let ?w1 = "counted_call 1 ?c ?k ?w0"
  obtain net :: rpc_stubs where n: "PrepareAsyncSendPlayerMessage net = (\<lambda>_ _. RpcThrow ''bad_alloc'')"
    by (metis rpc_stubs.select_convs(5))
  then have p: "DoSendPlayerMessage net 7 ''Hi'' = None" by (simp add: DoSendPlayerMessage_def)
  have s: "GetSession 1 two_sessions \<noteq> None"
    by (simp add: GetSession_def two_sessions_def tcp_defs TcpServer_init_def Let_def)
  have "grpc_run ?w0 grpc_queue_empty (\<lambda>_. 0)" by (rule grpc_run.start) (simp_all add: demo_world_def)
  then have r1: "grpc_run ?w1 grpc_queue_empty (\<lambda>_. 0)" by (rule grpc_run.counted) simp
  have o: "outbox ?w1 = [(?c, ?k (Some 1))]"
    using s by (simp add: counted_call_def Let_def call_rpc_def open_session_def increment_pending_def demo_world_def)
  obtain w2 q2 where c: "complete_call net 0 (?w1, grpc_queue_empty) = (w2, q2)" by fastforce
  then have o2: "outbox w2 = []" by (auto simp: complete_call_def o Let_def p)
  have "grpc_run w2 q2 (\<lambda>i. 0 + (if perform net ?c = None \<and> k_session (?k (Some 1)) = Some i then 1 else 0))"
    by (rule grpc_run.completed [OF r1 _ _ c refl, where c = ?c]) (simp_all add: o)
  from pending_counters_balanced [OF this, of 1] o2 p show ?thesis
    by (intro exI [of _ w2]) (simp add: outstanding_def)
qed

end
