(* ===== verification/Boot.thy ===== *)
theory Boot
  imports GrpcClient Perception
begin

text \<open>
  The start of the program in \<open>main.cpp\<close>: the bootstrap data from \<open>MundusVivensClient\<close>, the
  settings file and the handshake on it, the emotion registry, the places, the furniture and the
  NPCs with all their components.
\<close>

section \<open>Bootstrap data\<close>

record RelationshipSnapshot =
  sp_target_agent_id :: u32
  sp_liking :: int
  sp_trust :: int

record InitialAgentState =
  ia_agent_id :: u32
  ia_string_id :: string
  ia_name :: string
  ia_location :: string
  ia_x :: fl
  ia_y :: fl
  ia_z :: fl
  ia_emotion :: string
  ia_activity :: string
  ia_extroversion :: fl
  ia_relationships :: "RelationshipSnapshot list"

record FurnitureData =
  fd_name :: string
  fd_type :: nat
  fd_parent_location :: string
  fd_x :: fl
  fd_y :: fl
  fd_z :: fl
  fd_is_temporary :: bool

record WorldBootstrapData =
  wb_locations :: "LocationData list"
  wb_agents :: "InitialAgentState list"
  wb_furniture :: "FurnitureData list"
  wb_npc_speed :: fl
  wb_ticks_per_game_hour :: u32

definition WorldBootstrapData_default :: WorldBootstrapData where
  "WorldBootstrapData_default = \<lparr>wb_locations = [], wb_agents = [], wb_furniture = [],
     wb_npc_speed = Fin 0, wb_ticks_per_game_hour = 0\<rparr>"

section \<open>The synchronous client\<close>

text \<open>The protobuf messages; a place is a \<open>LocationInfo\<close> with its type and region.\<close>

record ProtoPlace =
  pp_info :: ProtoLocation
  pp_type :: int
  pp_region_id :: u32
  pp_territory_id :: u32

record ProtoAgent =
  pa_agent_id :: u32
  pa_name :: string
  pa_location :: "ProtoLocation option"
  pa_emotion :: string
  pa_activity :: string
  pa_extroversion :: fl
  pa_relationships :: "RelationshipSnapshot list"
  pa_string_id :: string

record ProtoFurniture =
  pf_name :: string
  pf_type :: int
  pf_parent_location :: string
  pf_position :: "(fl \<times> fl \<times> fl) option"
  pf_is_temporary :: bool

record GetWorldBootstrapResponse =
  br_locations :: "ProtoPlace list"
  br_agents :: "ProtoAgent list"
  br_furniture :: "ProtoFurniture list"
  br_npc_speed :: fl
  br_ticks_per_game_hour :: u32

definition location_of_proto :: "ProtoPlace \<Rightarrow> LocationData" where
  "location_of_proto p = (let (x, y, z) = proto_position (Some (pp_info p))
     in \<lparr>ld_name = pl_name (pp_info p), ld_x = x, ld_y = y, ld_z = z, ld_type = as_uint8 (pp_type p),
         ld_region_id = pp_region_id p, ld_territory_id = pp_territory_id p\<rparr>)"

definition agent_of_proto :: "ProtoAgent \<Rightarrow> InitialAgentState" where
  "agent_of_proto p = (let (x, y, z) = proto_position (pa_location p)
     in \<lparr>ia_agent_id = pa_agent_id p, ia_string_id = pa_string_id p, ia_name = pa_name p,
         ia_location = proto_name (pa_location p), ia_x = x, ia_y = y, ia_z = z,
         ia_emotion = pa_emotion p, ia_activity = pa_activity p, ia_extroversion = pa_extroversion p,
         ia_relationships = pa_relationships p\<rparr>)"

definition furniture_of_proto :: "ProtoFurniture \<Rightarrow> FurnitureData" where
  "furniture_of_proto p = (let (x, y, z) = (case pf_position p of None \<Rightarrow> (Fin 0, Fin 0, Fin 0) | Some v \<Rightarrow> v)
     in \<lparr>fd_name = pf_name p, fd_type = as_uint8 (pf_type p), fd_parent_location = pf_parent_location p,
         fd_x = x, fd_y = y, fd_z = z, fd_is_temporary = pf_is_temporary p\<rparr>)"

text \<open>A synchronous stub returns a status and throws nothing: \<open>Inl\<close> is its error message.\<close>

definition GetWorldBootstrap :: "string + GetWorldBootstrapResponse \<Rightarrow> WorldBootstrapData" where
  "GetWorldBootstrap status = (case status of
       Inl _ \<Rightarrow> WorldBootstrapData_default
     | Inr r \<Rightarrow> \<lparr>wb_locations = List.map location_of_proto (br_locations r),
         wb_agents = List.map agent_of_proto (br_agents r),
         wb_furniture = List.map furniture_of_proto (br_furniture r),
         wb_npc_speed = br_npc_speed r, wb_ticks_per_game_hour = br_ticks_per_game_hour r\<rparr>)"

text \<open>The result with \<open>out_updated_count\<close> and \<open>out_message\<close>.\<close>

definition BatchUpdateAgentStatus ::
  "(rpc_request \<Rightarrow> string + int) \<Rightarrow> AgentStatusUpdate list \<Rightarrow> bool \<times> int \<times> string" where
  "BatchUpdateAgentStatus stub updates =
     (case stub (BatchUpdateAgentStatusRequest (List.map update_request updates)) of
        Inr n \<Rightarrow> (True, n, lit_batch_ok_pre @ to_string n @ lit_batch_ok_post)
      | Inl m \<Rightarrow> (False, 0, lit_grpc_error_ko @ m))"

definition InjectBelief_sync ::
  "(rpc_request \<Rightarrow> string + bool \<times> string) \<Rightarrow> u32 \<Rightarrow> u32 \<Rightarrow> string \<Rightarrow> ProtoBeliefType \<Rightarrow> u32 \<Rightarrow> bool \<times> string" where
  "InjectBelief_sync stub target subject content belief source =
     (case stub (InjectBeliefRequest target subject content belief source) of
        Inr (success, message) \<Rightarrow> (success, message)
      | Inl m \<Rightarrow> (False, lit_grpc_error_ko @ m))"

section \<open>Settings\<close>

definition SimulationSettings_default :: SimulationSettings where
  "SimulationSettings_default = \<lparr>npc_speed = flit 2, ticks_per_game_hour = 200\<rparr>"

text \<open>The text between the first colon of a line and the next comma.\<close>

definition value_text :: "string \<Rightarrow> string option" where
  "value_text line = (case dropWhile (\<lambda>c. c \<noteq> CHR '':'') line of
       [] \<Rightarrow> None | _ # rest \<Rightarrow> Some (takeWhile (\<lambda>c. c \<noteq> CHR '','') rest))"

text \<open>\<open>std::stoi\<close>: white space, a sign, digits; \<open>None\<close> is its exception.\<close>

definition is_space :: "char \<Rightarrow> bool" where
  "is_space c \<longleftrightarrow> c = CHR '' '' \<or> (9 \<le> (of_char c :: nat) \<and> (of_char c :: nat) \<le> 13)"

definition is_digit :: "char \<Rightarrow> bool" where
  "is_digit c \<longleftrightarrow> 48 \<le> (of_char c :: nat) \<and> (of_char c :: nat) \<le> 57"

definition number :: "string \<Rightarrow> int" where
  "number ds = fold (\<lambda>c n. 10 * n + (of_char c - 48)) ds 0"

definition stoi :: "string \<Rightarrow> int option" where
  "stoi s = (let s1 = dropWhile is_space s;
       (neg, s2) = (case s1 of [] \<Rightarrow> (False, s1)
         | c # cs \<Rightarrow> if c = CHR ''-'' then (True, cs) else if c = CHR ''+'' then (False, cs) else (False, s1));
       ds = takeWhile is_digit s2; n = (if neg then - number ds else number ds)
     in if ds = [] \<or> n < - (2 ^ 31) \<or> 2 ^ 31 \<le> n then None else Some n)"

text \<open>One line of the settings file; \<open>stof\<close> is the C library's number parser.\<close>

definition settings_line :: "(string \<Rightarrow> fl option) \<Rightarrow> string \<Rightarrow> SimulationSettings \<Rightarrow> SimulationSettings" where
  "settings_line stof line s =
     (if contains ''NPC_SPEED'' line
      then (case value_text line of None \<Rightarrow> s | Some v \<Rightarrow>
              (case stof v of None \<Rightarrow> s | Some x \<Rightarrow> s\<lparr>npc_speed := x\<rparr>))
      else if contains ''TICKS_PER_GAME_HOUR'' line
      then (case value_text line of None \<Rightarrow> s | Some v \<Rightarrow>
              (case stoi v of None \<Rightarrow> s | Some n \<Rightarrow> s\<lparr>ticks_per_game_hour := n\<rparr>))
      else s)"

definition load_settings :: "(string \<Rightarrow> fl option) \<Rightarrow> string list option \<Rightarrow> SimulationSettings" where
  "load_settings stof file = (case file of None \<Rightarrow> SimulationSettings_default
     | Some lines \<Rightarrow> fold (settings_line stof) lines SimulationSettings_default)"

fun fl_abs :: "fl \<Rightarrow> fl" where
  "fl_abs (Fin x) = Fin \<bar>x\<bar>" | "fl_abs NInf = PInf" | "fl_abs a = a"

definition settings_differ :: "SimulationSettings \<Rightarrow> WorldBootstrapData \<Rightarrow> bool" where
  "settings_differ s b \<longleftrightarrow> flt (flit 0.001) (fl_abs (fsub (npc_speed s) (wb_npc_speed b))) \<or>
     ticks_per_game_hour s \<noteq> sint (wb_ticks_per_game_hour b)"

section \<open>Emotions\<close>

definition base_rules :: "(string \<times> int) list" where
  "base_rules = [(lit_anger, 10), (lit_fear, 10), (lit_gloom, 10), (lit_sadness, 10), (lit_suspicion, 10),
     (lit_alertness, 10), (lit_cynicism, 10), (lit_hostility, 10),
     (lit_joy, 6), (lit_surprise, 6), (lit_anxiety, 6), (lit_expectation, 6), (lit_compassion, 6),
     (lit_excitement, 3), (lit_cheer, 3), (lit_fun, 3), (lit_interest, 3), (lit_calm, 0), (lit_waiting, 0)]"

text \<open>The registry with the counter \<open>next_emo_id\<close>.\<close>

type_synonym emotion_boot = "EmotionRegistry \<times> u8"

definition add_emotion :: "string \<Rightarrow> int \<Rightarrow> EmotionCategory \<Rightarrow> emotion_boot \<Rightarrow> emotion_boot" where
  "add_emotion name ticks cat = (\<lambda>(er, n).
     (er\<lparr>name_to_id := (name_to_id er)(name \<mapsto> n), decay_ticks_table := decay_ticks_table er @ [ticks],
         category_table := category_table er @ [cat]\<rparr>, n + 1))"

definition base_category :: "string \<Rightarrow> EmotionCategory" where
  "base_category keyword = (if keyword = lit_anger then EcAnger else if keyword = lit_hostility then EcHostility
     else if keyword = lit_fear then EcFear else EcNeutral)"

definition base_emotions :: emotion_boot where
  "base_emotions = fold (\<lambda>(keyword, ticks). add_emotion keyword ticks (base_category keyword)) base_rules
     (\<lparr>name_to_id = Map.empty, decay_ticks_table = [], category_table = []\<rparr>, 0)"

definition agent_category :: "string \<Rightarrow> EmotionCategory" where
  "agent_category name = (if contains lit_anger name then EcAnger
     else if contains lit_hostility name then EcHostility
     else if contains lit_fear name then EcFear else EcNeutral)"

definition agent_emotion :: "string \<Rightarrow> emotion_boot \<Rightarrow> emotion_boot" where
  "agent_emotion name = (\<lambda>(er, n).
     if name_to_id er name = None then add_emotion name 3 (agent_category name) (er, n) else (er, n))"

section \<open>Names\<close>

text \<open>\<open>::tolower\<close> in the C locale.\<close>

definition to_lower :: "char \<Rightarrow> char" where
  "to_lower c = (if 65 \<le> (of_char c :: nat) \<and> (of_char c :: nat) \<le> 90
     then char_of ((of_char c :: nat) + 32) else c)"

definition register_alias :: "u32 \<Rightarrow> string \<Rightarrow> AgentIdMapper \<Rightarrow> AgentIdMapper" where
  "register_alias i alias m =
     (if alias = [] then m
      else let m1 = m\<lparr>string_to_numeric := (string_to_numeric m)(alias \<mapsto> i)\<rparr>;
               lower = List.map to_lower alias
           in if lower \<noteq> alias
              then m1\<lparr>string_to_numeric := (string_to_numeric m1)(lower \<mapsto> i)\<rparr> else m1)"

definition agent_names :: "InitialAgentState \<Rightarrow> AgentIdMapper \<Rightarrow> AgentIdMapper" where
  "agent_names a m = register_alias (ia_agent_id a) (ia_name a)
     (register_alias (ia_agent_id a) (ia_string_id a)
       (m\<lparr>numeric_to_string := (numeric_to_string m)(ia_agent_id a \<mapsto> ia_string_id a)\<rparr>))"

definition base_names :: AgentIdMapper where
  "base_names = \<lparr>string_to_numeric = [''player'' \<mapsto> 1], numeric_to_string = [1 \<mapsto> ''player'']\<rparr>"

section \<open>Places and furniture\<close>

text \<open>The casts to the enumerations. A number outside them is not equal to any named value in the
  program and is not compared with the first one: it is shown as \<open>Unspecified\<close>.\<close>

definition LocationType_of :: "nat \<Rightarrow> LocationType" where
  "LocationType_of n = (if n < 12 then [LtUnspecified, LtPub, LtMarket, LtSquare, LtChurch, LtWilderness,
     LtResidential, LtForge, LtManor, LtCountry, LtCity, LtPlace] ! n else LtUnspecified)"

definition AffordanceType_of :: "nat \<Rightarrow> AffordanceType" where
  "AffordanceType_of n = (if n < 6 then [AfUnspecified, AfSit, AfSleep, AfEat, AfDrink, AfPray] ! n
     else AfUnspecified)"

definition load_places :: "LocationData list \<Rightarrow> location_registry" where
  "load_places ls = BakeRegionMap WIDTH HEIGHT (fold (\<lambda>l. RegisterLocation (ld_name l) (ld_x l) (ld_z l)
     (LocationType_of (ld_type l)) (ld_region_id l) (ld_territory_id l)) ls LocationRegistry_init)"

definition location_at :: "string \<Rightarrow> fl \<Rightarrow> fl \<Rightarrow> fl \<Rightarrow> LocationComp" where
  "location_at name x y z = LocationComp_default\<lparr>location_name := name, lc_x := x, lc_y := y, lc_z := z\<rparr>"

definition spawn_furniture :: "FurnitureData \<Rightarrow> world \<Rightarrow> world" where
  "spawn_furniture f w =
     (let (e, r) = create (reg w);
          w1 = put_affordance e \<lparr>aff_type = AffordanceType_of (fd_type f), occupied_by = None,
                 is_temporary = fd_is_temporary f\<rparr>
               (put_location e (location_at (fd_parent_location f) (fd_x f) (fd_y f) (fd_z f))
               (put_identity e \<lparr>npc_id = 0, display_name = fd_name f\<rparr> (w\<lparr>reg := r\<rparr>)))
      in update_position e (fd_x f) (fd_z f) w1)"

section \<open>Agents\<close>

definition faction_of :: "string \<Rightarrow> string" where
  "faction_of name = (if contains lit_wolf name \<or> contains ''Wolf'' name then ''Wolf''
     else if contains lit_goblin name \<or> contains ''Goblin'' name then ''Goblin''
     else if contains lit_bandit name \<or> contains ''Bandit'' name then ''Bandit'' else ''Human'')"

definition initial_emotion :: "EmotionRegistry \<Rightarrow> string \<Rightarrow> EmotionComp" where
  "initial_emotion er name = (let i = (case name_to_id er name of None \<Rightarrow> 0 | Some i \<Rightarrow> i)
     in \<lparr>current_emotion = name, base_emotion = name, current_emotion_id = i, base_emotion_id = i,
         decay_ticks_remaining = 0\<rparr>)"

definition initial_cooldown :: "fl \<Rightarrow> CooldownComp" where
  "initial_cooldown extro = (let energy = f2i (fadd (flit 50) (fmul extro (flit 100)))
     in CooldownComp_default\<lparr>max_social_energy := energy, social_energy := energy\<rparr>)"

definition initial_relationships :: "RelationshipSnapshot list \<Rightarrow> (u32 \<times> RelationshipEntry) list" where
  "initial_relationships snaps = fold (\<lambda>s. AList.update (sp_target_agent_id s)
     \<lparr>liking = sp_liking s, trust = sp_trust s\<rparr>) snaps []"

text \<open>The components an agent gets, with the two random numbers of its needs.\<close>

definition add_components ::
  "entity \<Rightarrow> InitialAgentState \<Rightarrow> EmotionRegistry \<Rightarrow> fl \<times> fl \<Rightarrow> registry \<Rightarrow> registry" where
  "add_components e a er draw r = r\<lparr>
     activity := (activity r)(e \<mapsto> ia_activity a),
     emotion := (emotion r)(e \<mapsto> initial_emotion er (ia_emotion a)),
     cooldown := (cooldown r)(e \<mapsto> initial_cooldown (ia_extroversion a)),
     job := (job r)(e \<mapsto> JobComp_default), toil := (toil r)(e \<mapsto> ToilComp_default),
     needs := (needs r)(e \<mapsto> NeedsComp_default\<lparr>hunger := fst draw, fatigue := snd draw\<rparr>),
     health := (health r)(e \<mapsto> HealthComp_default), combat := (combat r)(e \<mapsto> CombatComp_default),
     aggro := (aggro r)(e \<mapsto> AggroComp_default), faction := (faction r)(e \<mapsto> faction_of (ia_name a)),
     sentience := (sentience r)(e \<mapsto> faction_of (ia_name a) \<noteq> ''Wolf''),
     behavior_tree := (behavior_tree r)(e \<mapsto> Some CreateSurvivalTree),
     last_synced := (last_synced r)(e \<mapsto> \<lparr>ls_location = ia_location a, ls_emotion = ia_emotion a,
       ls_activity = ia_activity a\<rparr>),
     personality := (personality r)(e \<mapsto> ia_extroversion a),
     relationships := (relationships r)(e \<mapsto> initial_relationships (ia_relationships a))\<rparr>"

type_synonym boot_state = "world \<times> AgentIdMapper \<times> emotion_boot \<times> (u32 \<rightharpoonup> entity)"

definition spawn_agent :: "InitialAgentState \<times> fl \<times> fl \<Rightarrow> boot_state \<Rightarrow> boot_state" where
  "spawn_agent = (\<lambda>(a, draw) (w, names, emotions, index).
     if ia_agent_id a = 1 then (w, names, emotions, index)
     else let (e, r) = create (reg w);
              w1 = put_location e (location_at (ia_location a) (ia_x a) (ia_y a) (ia_z a))
                   (put_identity e \<lparr>npc_id = ia_agent_id a, display_name = ia_name a\<rparr> (w\<lparr>reg := r\<rparr>));
              w2 = update_position e (ia_x a) (ia_z a) w1;
              emotions1 = agent_emotion (ia_emotion a) emotions
          in (w2\<lparr>reg := add_components e a (fst emotions1) draw (reg w2)\<rparr>, agent_names a names,
              emotions1, index(ia_agent_id a \<mapsto> e)))"

section \<open>The start\<close>

text \<open>The world before the first entity; the random numbers are arguments of the model.\<close>

definition empty_world :: "world \<Rightarrow> location_registry \<Rightarrow> world" where
  "empty_world chance g = chance\<lparr>reg := registry_init, grid_reg := g, tcp := Start TcpServer_init,
     backpressure := (\<lambda>_. bp_init), outbox := [], contagion_ids := None\<rparr>"

definition populate :: "WorldBootstrapData \<Rightarrow> (nat \<Rightarrow> fl \<times> fl) \<Rightarrow> world \<Rightarrow> boot_state" where
  "populate b draws w0 =
     fold spawn_agent (zip (wb_agents b) (List.map draws [0..<length (wb_agents b)]))
       (fold spawn_furniture (wb_furniture b) w0, base_names, base_emotions, Map.empty)"

text \<open>The resources of \<open>registry.ctx()\<close>; \<open>tick\<close> starts at 0.\<close>

definition add_context :: "SimulationSettings \<Rightarrow> WorldBootstrapData \<Rightarrow> boot_state \<Rightarrow> world" where
  "add_context s b = (\<lambda>(w, names, emotions, index). w\<lparr>reg := (reg w)\<lparr>settings := Some s,
     entity_index := Some \<lparr>by_npc_id = index, by_session_index = Map.empty\<rparr>, id_mapper := Some names,
     emotion_registry := Some (fst emotions), bootstrap_locations := Some (wb_locations b),
     bt_context_tick := Some 0\<rparr>\<rparr>)"

datatype boot_result = NoBootstrapData | SettingsMismatch | Booted world grid_map

definition boot ::
  "(string \<Rightarrow> fl option) \<Rightarrow> string list option \<Rightarrow> obstacle_file \<Rightarrow> string + GetWorldBootstrapResponse \<Rightarrow>
   (nat \<Rightarrow> fl \<times> fl) \<Rightarrow> world \<Rightarrow> boot_result" where
  "boot stof settings_file obstacles response draws chance =
     (let b = GetWorldBootstrap response; s = load_settings stof settings_file
      in if wb_locations b = [] \<or> wb_agents b = [] then NoBootstrapData
         else if settings_differ s b then SettingsMismatch
         else Booted (add_context s b (populate b draws (empty_world chance (load_places (wb_locations b)))))
                (LoadMap (wb_locations b) obstacles GridMap_init))"

section \<open>A new entity keeps the invariant\<close>

definition entity_fits :: "registry \<Rightarrow> entity \<Rightarrow> bool" where
  "entity_fits r e \<longleftrightarrow> (behavior_tree r e = None \<or> behavior_tree r e = Some (Some CreateSurvivalTree) \<and> agent r e) \<and>
     (\<forall>c. combat r e = Some c \<longrightarrow> target_entity c = None) \<and>
     (\<forall>a. aggro r e = Some a \<longrightarrow> threat_entity a = None) \<and>
     (\<forall>n. needs r e = Some n \<longrightarrow> occupied_furniture n = None) \<and>
     (\<forall>a. affordance r e = Some a \<longrightarrow> occupied_by a = None \<and> needs r e = None) \<and>
     (has (job r) e \<longrightarrow> has (activity r) e)"

lemma create_inv:
  assumes i: "sim_inv r" and e: "e = next_entity r"
    and n: "live r1 = live r @ [e]" "next_entity r1 = next_entity r + 1" "bt_context_tick r1 = bt_context_tick r"
    and f: "entity_fits r1 e"
    and same: "\<And>x. x \<noteq> e \<Longrightarrow> identity r1 x = identity r x \<and> location r1 x = location r x \<and>
      behavior_tree r1 x = behavior_tree r x \<and> combat r1 x = combat r x \<and> aggro r1 x = aggro r x \<and>
      activity r1 x = activity r x \<and> job r1 x = job r x \<and> toil r1 x = toil r x \<and> health r1 x = health r x \<and>
      affordance r1 x = affordance r x \<and> needs r1 x = needs r x"
  shows "sim_inv r1"
proof -
  have b: "bt_inv r" "needs_live r" using i by (simp_all add: sim_inv_def)
  have fr: "e \<notin> set (live r)" "behavior_tree r e = None" "needs r e = None" "affordance r e = None"
    using b(1) by (auto simp: bt_inv_def fresh_ok_def e)
  have ag: "agent r x \<Longrightarrow> x \<noteq> e \<Longrightarrow> agent r1 x" for x using same [of x] by (simp add: agent_def)
  have ro: "ref_ok r t \<Longrightarrow> ref_ok r1 t" for t
    using same by (auto simp: ref_ok_def valid_def fighter_def n e split: option.splits)
  have oc: "occupied r1 x = occupied r x" "occupant r1 x = occupant r x" for x
  proof -
    show "occupied r1 x = occupied r x"
      using fr f same [of x] by (cases "x = e") (auto simp: occupied_def entity_fits_def split: option.split)
    show "occupant r1 x = occupant r x"
      using fr f same [of x] by (cases "x = e") (auto simp: occupant_def entity_fits_def split: option.split)
  qed
  have "occupancy_ok r1" using b by (simp add: bt_inv_def occupancy_ok_def oc)
  moreover have "furniture_ok r1" unfolding furniture_ok_def
  proof (intro allI impI)
    fix x
    assume "affordance r1 x \<noteq> None"
    then show "needs r1 x = None" using b f same [of x]
      by (cases "x = e") (auto simp: bt_inv_def furniture_ok_def entity_fits_def)
  qed
  moreover have "fresh_ok r1" unfolding fresh_ok_def
  proof (intro allI impI)
    fix x
    assume x: "next_entity r1 \<le> x"
    then have "x \<noteq> e" "next_entity r \<le> x" by (auto simp: n e)
    with same [of x] b show "x \<notin> set (live r1) \<and> behavior_tree r1 x = None \<and> needs r1 x = None \<and> affordance r1 x = None"
      by (simp add: bt_inv_def fresh_ok_def n)
  qed
  moreover have "workers_ok r1" unfolding workers_ok_def
  proof
    fix x
    assume "x \<in> dom (job r1)"
    then show "x \<in> dom (activity r1)" using b f same [of x]
      by (cases "x = e") (auto simp: bt_inv_def workers_ok_def entity_fits_def dom_def)
  qed
  moreover have "behavior_tree r1 x = Some (Some t) \<Longrightarrow> t = CreateSurvivalTree \<and> agent r1 x" for x t
    using b f same [of x] ag [of x] by (cases "x = e") (auto simp: bt_inv_def entity_fits_def)
  moreover have "combat r1 x = Some c \<Longrightarrow> ref_ok r1 (target_entity c)" for x c
    using b f same [of x] ro by (cases "x = e") (auto simp: bt_inv_def entity_fits_def)
  moreover have "aggro r1 x = Some a \<Longrightarrow> ref_ok r1 (threat_entity a)" for x a
    using b f same [of x] ro by (cases "x = e") (auto simp: bt_inv_def entity_fits_def)
  moreover have "bt_context_tick r1 \<noteq> None" using b n by (simp add: bt_inv_def)
  ultimately have "bt_inv r1" by (simp add: bt_inv_def)
  moreover have "needs_live r1" unfolding needs_live_def
  proof (intro allI impI)
    fix x
    assume "x \<in> dom (needs r1) \<union> dom (affordance r1)"
    then show "valid r1 x" using b(2) same [of x]
      by (cases "x = e") (auto simp: needs_live_def valid_def n dom_def)
  qed
  ultimately show ?thesis by (simp add: sim_inv_def)
qed

section \<open>The emotion registry at the start\<close>

definition emotion_boot_ok :: "emotion_boot \<Rightarrow> bool" where
  "emotion_boot_ok eb \<longleftrightarrow> emotions_ok (fst eb) \<and> snd eb = word_of_nat (length (decay_ticks_table (fst eb))) \<and>
     finite (dom (name_to_id (fst eb))) \<and> card (dom (name_to_id (fst eb))) = length (decay_ticks_table (fst eb))"

lemma add_emotion_ok:
  assumes eb: "emotion_boot_ok eb" and n: "name_to_id (fst eb) name = None"
    and l: "length (decay_ticks_table (fst eb)) < 256"
  shows "emotion_boot_ok (add_emotion name t c eb)"
    and "name_to_id (fst (add_emotion name t c eb)) = (name_to_id (fst eb))(name \<mapsto> snd eb)"
    and "decay_ticks_table (fst (add_emotion name t c eb)) = decay_ticks_table (fst eb) @ [t]"
proof -
  obtain er k where e: "eb = (er, k)" by fastforce
  have r: "register_emotion name t c er = (k, fst (add_emotion name t c eb))"
    using eb n by (simp add: e emotion_boot_ok_def register_emotion_def add_emotion_def Let_def)
  have "emotions_ok (fst (add_emotion name t c eb))"
    using register_emotion_ok [OF _ _ r] eb l by (simp add: emotion_boot_ok_def e)
  with eb n show "emotion_boot_ok (add_emotion name t c eb)"
    by (auto simp: emotion_boot_ok_def e add_emotion_def domIff)
qed (simp_all add: add_emotion_def split: prod.split)

lemma add_rules_ok:
  assumes "emotion_boot_ok eb" "distinct (List.map fst rules)"
    "set (List.map fst rules) \<inter> dom (name_to_id (fst eb)) = {}"
    "length (decay_ticks_table (fst eb)) + length rules \<le> 256"
  shows "emotion_boot_ok (fold (\<lambda>(k, t). add_emotion k t (f k)) rules eb) \<and>
    dom (name_to_id (fst (fold (\<lambda>(k, t). add_emotion k t (f k)) rules eb))) =
      dom (name_to_id (fst eb)) \<union> set (List.map fst rules) \<and>
    length (decay_ticks_table (fst (fold (\<lambda>(k, t). add_emotion k t (f k)) rules eb))) =
      length (decay_ticks_table (fst eb)) + length rules"
  using assms
proof (induction rules arbitrary: eb)
  case (Cons p rules)
  obtain k t where p: "p = (k, t)" by fastforce
  have n: "name_to_id (fst eb) k = None" using Cons.prems(3) by (auto simp: p)
  have l: "length (decay_ticks_table (fst eb)) < 256" using Cons.prems(4) by simp
  note a = add_emotion_ok [OF Cons.prems(1) n l, of t "f k"]
  have d: "dom (name_to_id (fst (add_emotion k t (f k) eb))) = insert k (dom (name_to_id (fst eb)))"
    by (simp add: a(2))
  have "emotion_boot_ok (fold (\<lambda>(k, t). add_emotion k t (f k)) rules (add_emotion k t (f k) eb)) \<and>
    dom (name_to_id (fst (fold (\<lambda>(k, t). add_emotion k t (f k)) rules (add_emotion k t (f k) eb)))) =
      dom (name_to_id (fst (add_emotion k t (f k) eb))) \<union> set (List.map fst rules) \<and>
    length (decay_ticks_table (fst (fold (\<lambda>(k, t). add_emotion k t (f k)) rules (add_emotion k t (f k) eb)))) =
      length (decay_ticks_table (fst (add_emotion k t (f k) eb))) + length rules"
    by (rule Cons.IH [OF a(1)]) (use Cons.prems in \<open>auto simp: p d a(3)\<close>)
  then show ?case by (simp add: p d a(3))
qed simp

lemma base_rules_distinct: "distinct (List.map fst base_rules)"
  by (simp add: base_rules_def lit_defs)

lemma base_emotions_ok:
  "emotion_boot_ok base_emotions \<and> dom (name_to_id (fst base_emotions)) = set (List.map fst base_rules) \<and>
   length (decay_ticks_table (fst base_emotions)) = 19"
proof -
  have "emotion_boot_ok (\<lparr>name_to_id = Map.empty, decay_ticks_table = [], category_table = []\<rparr>, 0)"
    by (simp add: emotion_boot_ok_def emotions_ok_def)
  moreover have "length base_rules = 19" by (simp add: base_rules_def)
  ultimately show ?thesis
    using add_rules_ok [OF _ base_rules_distinct, of _ base_category] by (simp add: base_emotions_def)
qed

lemma agent_emotion_ok:
  assumes eb: "emotion_boot_ok eb" and l: "length (decay_ticks_table (fst eb)) < 256"
  shows "emotion_boot_ok (agent_emotion name eb) \<and>
    dom (name_to_id (fst (agent_emotion name eb))) = insert name (dom (name_to_id (fst eb))) \<and>
    length (decay_ticks_table (fst eb)) \<le> length (decay_ticks_table (fst (agent_emotion name eb))) \<and>
    (\<exists>i. name_to_id (fst (agent_emotion name eb)) name = Some i \<and>
      unat i < length (decay_ticks_table (fst (agent_emotion name eb))))"
proof (cases "name_to_id (fst eb) name")
  case None
  have "agent_emotion name eb = add_emotion name 3 (agent_category name) eb"
    using None by (cases eb) (simp add: agent_emotion_def)
  moreover note a = add_emotion_ok [OF eb None l, of 3 "agent_category name"]
  moreover have "unat (snd eb) = length (decay_ticks_table (fst eb))"
    using eb l by (simp add: emotion_boot_ok_def unat_u8_of_nat)
  ultimately show ?thesis by simp
next
  case (Some i)
  then have "agent_emotion name eb = eb" by (cases eb) (simp add: agent_emotion_def)
  with Some eb show ?thesis by (auto simp: emotion_boot_ok_def emotions_ok_def)
qed

section \<open>The population\<close>

definition blank :: "registry \<Rightarrow> entity \<Rightarrow> bool" where
  "blank r e \<longleftrightarrow> combat r e = None \<and> aggro r e = None \<and> job r e = None \<and> activity r e = None \<and> health r e = None"

definition crowd_ok :: "world \<Rightarrow> bool" where
  "crowd_ok w \<longleftrightarrow> sim_inv ((reg w)\<lparr>bt_context_tick := Some 0\<rparr>) \<and> located (reg w) (grid_reg w) \<and>
     player_tag (reg w) = Map.empty \<and> busy (reg w) = Map.empty \<and> speakers_known (reg w) \<and>
     bodies_ok (reg w) \<and> aggro_ok (reg w) \<and> contagion_ids w = None \<and>
     (\<forall>e\<ge>next_entity (reg w). blank (reg w) e)"

lemma crowd_step:
  assumes c: "crowd_ok w" and e: "e = next_entity (reg w)"
    and n: "live (reg w') = live (reg w) @ [e]" "next_entity (reg w') = next_entity (reg w) + 1"
      "player_tag (reg w') = player_tag (reg w)" "busy (reg w') = busy (reg w)" "contagion_ids w' = contagion_ids w"
    and f: "entity_fits (reg w') e" and k: "has (identity (reg w')) e"
    and a: "\<And>a. aggro (reg w') e = Some a \<Longrightarrow> aggro_score a = 0"
    and l: "located (reg w') (grid_reg w')"
    and same: "\<And>x. x \<noteq> e \<Longrightarrow> identity (reg w') x = identity (reg w) x \<and> location (reg w') x = location (reg w) x \<and>
      behavior_tree (reg w') x = behavior_tree (reg w) x \<and> combat (reg w') x = combat (reg w) x \<and>
      aggro (reg w') x = aggro (reg w) x \<and> activity (reg w') x = activity (reg w) x \<and>
      job (reg w') x = job (reg w) x \<and> toil (reg w') x = toil (reg w) x \<and> health (reg w') x = health (reg w) x \<and>
      affordance (reg w') x = affordance (reg w) x \<and> needs (reg w') x = needs (reg w) x"
  shows "crowd_ok w'"
proof -
  have "sim_inv ((reg w')\<lparr>bt_context_tick := Some 0\<rparr>)"
    by (rule create_inv [where r = "(reg w)\<lparr>bt_context_tick := Some 0\<rparr>" and e = e])
      (use c f same in \<open>simp_all add: n e crowd_ok_def entity_fits_def agent_def\<close>)
  moreover have "has (identity (reg w')) x" if "has (activity (reg w')) x \<or> has (health (reg w')) x" for x
    using that c k same [of x] by (cases "x = e") (auto simp: crowd_ok_def speakers_known_def bodies_ok_def)
  moreover have "0 \<le> aggro_score b \<and> aggro_score b \<le> 100" if "aggro (reg w') x = Some b" for x b
    using that c a same [of x] by (cases "x = e") (auto simp: crowd_ok_def aggro_ok_def)
  moreover have "blank (reg w') x" if "next_entity (reg w') \<le> x" for x
    using that c same [of x] by (auto simp: crowd_ok_def blank_def n e)
  ultimately show ?thesis
    using c l by (simp add: crowd_ok_def speakers_known_def bodies_ok_def aggro_ok_def n del: has_Some)
qed

lemma crowd_fresh:
  assumes "crowd_ok w" and "next_entity (reg w) \<le> e"
  shows "blank (reg w) e \<and> needs (reg w) e = None \<and> behavior_tree (reg w) e = None \<and> affordance (reg w) e = None \<and>
    e \<notin> set (live (reg w))"
  using assms by (simp add: crowd_ok_def sim_inv_def bt_inv_def fresh_ok_def)

definition new_place :: "entity \<Rightarrow> registry \<Rightarrow> IdentityComp \<Rightarrow> LocationComp \<Rightarrow> registry" where
  "new_place e r ident l = r\<lparr>live := live r @ [e], next_entity := next_entity r + 1,
     identity := (identity r)(e \<mapsto> ident), location := (location r)(e \<mapsto> l)\<rparr>"

lemma create_fields [simp]: "create r = (next_entity r, r\<lparr>live := live r @ [next_entity r], next_entity := next_entity r + 1\<rparr>)"
  by (simp add: create_def)

lemma put_affordance_location:
  "put_affordance e a (put_location e l w) = put_location e l (put_affordance e a w)"
  by (simp add: put_defs)

lemma spawn_furniture_effect:
  assumes "located (reg w) (grid_reg w)"
  shows "\<exists>l g aff. occupied_by aff = None \<and> spawn_furniture f w = w\<lparr>grid_reg := g, reg :=
      (new_place (next_entity (reg w)) (reg w) \<lparr>npc_id = 0, display_name = fd_name f\<rparr> l)
        \<lparr>affordance := (affordance (reg w))(next_entity (reg w) \<mapsto> aff)\<rparr>\<rparr> \<and>
    located (reg (spawn_furniture f w)) g"
proof -
  define e where "e = next_entity (reg w)"
  define aff where "aff = \<lparr>aff_type = AffordanceType_of (fd_type f), occupied_by = None, is_temporary = fd_is_temporary f\<rparr>"
  define w1 where "w1 = put_affordance e aff (put_identity e \<lparr>npc_id = 0, display_name = fd_name f\<rparr>
      (w\<lparr>reg := snd (create (reg w))\<rparr>))"
  have r1: "reg w1 = (reg w)\<lparr>live := live (reg w) @ [e], next_entity := next_entity (reg w) + 1,
      identity := (identity (reg w))(e \<mapsto> \<lparr>npc_id = 0, display_name = fd_name f\<rparr>),
      affordance := (affordance (reg w))(e \<mapsto> aff)\<rparr>" and g1: "grid_reg w1 = grid_reg w"
    by (simp_all add: w1_def put_defs e_def)
  have s: "spawn_furniture f w = update_position e (fd_x f) (fd_z f)
      (put_location e (location_at (fd_parent_location f) (fd_x f) (fd_y f) (fd_z f)) w1)"
    by (simp add: spawn_furniture_def Let_def w1_def aff_def e_def put_affordance_location)
  have "located (reg w1) (grid_reg w1)" using assms by (simp add: located_def r1 g1)
  from placed_ok [OF this, of e "fd_x f" "fd_z f" "location_at (fd_parent_location f) (fd_x f) (fd_y f) (fd_z f)"]
  obtain l g where "spawn_furniture f w = w1\<lparr>reg := (reg w1)\<lparr>location := (location (reg w1))(e \<mapsto> l)\<rparr>, grid_reg := g\<rparr>"
    "located ((reg w1)\<lparr>location := (location (reg w1))(e \<mapsto> l)\<rparr>) g" unfolding s by blast
  then show ?thesis
    by (intro exI [of _ l] exI [of _ g] exI [of _ aff])
      (simp add: new_place_def e_def [symmetric] r1, simp add: aff_def w1_def put_defs e_def)
qed

lemma spawn_furniture_ok:
  assumes c: "crowd_ok w"
  shows "crowd_ok (spawn_furniture f w) \<and> emotion (reg (spawn_furniture f w)) = emotion (reg w)"
proof -
  define e where "e = next_entity (reg w)"
  obtain l g aff where s: "occupied_by aff = None" "spawn_furniture f w = w\<lparr>grid_reg := g, reg :=
      (new_place e (reg w) \<lparr>npc_id = 0, display_name = fd_name f\<rparr> l)\<lparr>affordance := (affordance (reg w))(e \<mapsto> aff)\<rparr>\<rparr>"
    and l: "located (reg (spawn_furniture f w)) g"
    using spawn_furniture_effect c unfolding crowd_ok_def e_def by blast
  have fr: "blank (reg w) e" "needs (reg w) e = None" "behavior_tree (reg w) e = None"
    using crowd_fresh [OF c, of e] by (simp_all add: e_def)
  have "crowd_ok (spawn_furniture f w)"
  proof (rule crowd_step [OF c e_def])
    show "entity_fits (reg (spawn_furniture f w)) e"
      using fr s(1) by (simp add: s(2) new_place_def entity_fits_def blank_def)
    show "aggro (reg (spawn_furniture f w)) e = Some a \<Longrightarrow> aggro_score a = 0" for a
      using fr by (simp add: s(2) new_place_def blank_def)
    show "located (reg (spawn_furniture f w)) (grid_reg (spawn_furniture f w))"
      using l by (simp add: s(2))
  qed (simp_all add: s(2) new_place_def)
  then show ?thesis by (simp add: s(2) new_place_def)
qed

text \<open>The state of the fold over the agents.\<close>

definition boot_ok :: "boot_state \<Rightarrow> bool" where
  "boot_ok = (\<lambda>(w, names, emotions, index). crowd_ok w \<and> emotion_boot_ok emotions \<and>
     (\<forall>e emo. emotion (reg w) e = Some emo \<longrightarrow> emo_ids_ok (fst emotions) emo) \<and>
     (\<forall>i e. index i = Some e \<longrightarrow> bearer_ok (reg w) i e))"

lemma spawn_agent_effect:
  assumes "located (reg w) (grid_reg w)" and i: "ia_agent_id a \<noteq> 1" and e: "e = next_entity (reg w)"
  shows "\<exists>l g. spawn_agent (a, d) (w, names, emotions, index) =
      (w\<lparr>grid_reg := g, reg := add_components e a (fst (agent_emotion (ia_emotion a) emotions)) d
          (new_place e (reg w) \<lparr>npc_id = ia_agent_id a, display_name = ia_name a\<rparr> l)\<rparr>,
        agent_names a names, agent_emotion (ia_emotion a) emotions, index(ia_agent_id a \<mapsto> e)) \<and>
    located (new_place e (reg w) \<lparr>npc_id = ia_agent_id a, display_name = ia_name a\<rparr> l) g"
proof -
  define w1 where "w1 = put_identity e \<lparr>npc_id = ia_agent_id a, display_name = ia_name a\<rparr>
      (w\<lparr>reg := snd (create (reg w))\<rparr>)"
  have r1: "reg w1 = (reg w)\<lparr>live := live (reg w) @ [e], next_entity := next_entity (reg w) + 1,
      identity := (identity (reg w))(e \<mapsto> \<lparr>npc_id = ia_agent_id a, display_name = ia_name a\<rparr>)\<rparr>"
    and g1: "grid_reg w1 = grid_reg w" by (simp_all add: w1_def put_defs e)
  have "located (reg w1) (grid_reg w1)" using assms by (simp add: located_def r1 g1)
  from placed_ok [OF this, of e "ia_x a" "ia_z a" "location_at (ia_location a) (ia_x a) (ia_y a) (ia_z a)"]
  obtain l g where u: "update_position e (ia_x a) (ia_z a)
        (put_location e (location_at (ia_location a) (ia_x a) (ia_y a) (ia_z a)) w1) =
      w1\<lparr>reg := (reg w1)\<lparr>location := (location (reg w1))(e \<mapsto> l)\<rparr>, grid_reg := g\<rparr>"
    "located ((reg w1)\<lparr>location := (location (reg w1))(e \<mapsto> l)\<rparr>) g" by blast
  have sp: "spawn_agent (a, d) (w, names, emotions, index) = (let w2 = update_position e (ia_x a) (ia_z a)
        (put_location e (location_at (ia_location a) (ia_x a) (ia_y a) (ia_z a)) w1);
      emotions1 = agent_emotion (ia_emotion a) emotions
    in (w2\<lparr>reg := add_components e a (fst emotions1) d (reg w2)\<rparr>, agent_names a names, emotions1,
        index(ia_agent_id a \<mapsto> e)))"
    unfolding w1_def by (simp add: spawn_agent_def i Let_def e)
  have "located (new_place e (reg w) \<lparr>npc_id = ia_agent_id a, display_name = ia_name a\<rparr> l) g"
    using u(2) by (simp add: located_def new_place_def r1)
  moreover have n: "(reg w1)\<lparr>location := (location (reg w1))(e \<mapsto> l)\<rparr> =
      new_place e (reg w) \<lparr>npc_id = ia_agent_id a, display_name = ia_name a\<rparr> l"
    by (simp add: new_place_def r1)
  moreover have "w1\<lparr>reg := r1, grid_reg := g\<rparr> = w\<lparr>reg := r1, grid_reg := g\<rparr>" for r1
    by (simp add: w1_def put_defs)
  ultimately show ?thesis
    unfolding sp Let_def u(1) by (intro exI [of _ l] exI [of _ g]) simp
qed

lemma spawn_agent_ok:
  assumes b: "boot_ok s" and s: "s = (w, names, emotions, index)"
    and len: "length (decay_ticks_table (fst emotions)) < 256"
    and r: "spawn_agent (a, d) s = (w', names', emotions', index')"
  shows "boot_ok (w', names', emotions', index') \<and> dom (name_to_id (fst emotions')) \<subseteq>
      (if ia_agent_id a = 1 then {} else {ia_emotion a}) \<union> dom (name_to_id (fst emotions)) \<and>
    dom index' = dom index \<union> ({ia_agent_id a} - {1})"
proof (cases "ia_agent_id a = 1")
  case True
  with b r show ?thesis by (auto simp: s spawn_agent_def)
next
  case False
  define e where "e = next_entity (reg w)"
  have c: "crowd_ok w" and em: "emotion_boot_ok emotions" using b by (simp_all add: s boot_ok_def)
  obtain l g where eff: "w' = w\<lparr>grid_reg := g, reg := add_components e a (fst emotions') d
          (new_place e (reg w) \<lparr>npc_id = ia_agent_id a, display_name = ia_name a\<rparr> l)\<rparr>"
      "emotions' = agent_emotion (ia_emotion a) emotions" "index' = index(ia_agent_id a \<mapsto> e)"
    and l: "located (new_place e (reg w) \<lparr>npc_id = ia_agent_id a, display_name = ia_name a\<rparr> l) g"
    using spawn_agent_effect [OF _ False e_def, of d names emotions index] c r by (auto simp: s crowd_ok_def)
  have fr: "affordance (reg w) e = None" using crowd_fresh [OF c, of e] by (simp add: e_def)
  note ae = agent_emotion_ok [OF em len, of "ia_emotion a"]
  have "crowd_ok w'"
  proof (rule crowd_step [OF c e_def])
    show "entity_fits (reg w') e"
      using fr by (simp add: eff add_components_def new_place_def entity_fits_def agent_def
        CombatComp_default_def AggroComp_default_def NeedsComp_default_def)
    show "aggro (reg w') e = Some x \<Longrightarrow> aggro_score x = 0" for x
      by (auto simp: eff add_components_def AggroComp_default_def)
    show "located (reg w') (grid_reg w')"
      using l by (simp add: eff located_def add_components_def)
  qed (simp_all add: eff add_components_def new_place_def)
  moreover have "emo_ids_ok (fst emotions') emo" if "emotion (reg w') x = Some emo" for x emo
  proof (cases "x = e")
    case True
    with that ae show ?thesis
      by (auto simp: eff add_components_def new_place_def initial_emotion_def Let_def emo_ids_ok_def)
  next
    case False
    with that have "emotion (reg w) x = Some emo" by (simp add: eff(1) add_components_def new_place_def)
    with b ae show ?thesis by (fastforce simp: s boot_ok_def emo_ids_ok_def eff(2))
  qed
  moreover have "bearer_ok (reg w') i x" if "index' i = Some x" for i x
  proof (cases "i = ia_agent_id a")
    case True
    with that show ?thesis
      by (simp add: eff bearer_ok_def valid_def add_components_def new_place_def)
  next
    case False
    with that have "bearer_ok (reg w) i x" using b by (simp add: s boot_ok_def eff(3))
    moreover from this have "x \<noteq> e"
      using crowd_fresh [OF c, of e] by (auto simp: e_def bearer_ok_def valid_def)
    ultimately show ?thesis
      by (simp add: eff(1) bearer_ok_def valid_def add_components_def new_place_def)
  qed
  ultimately have "boot_ok (w', names', emotions', index')"
    using ae by (simp add: boot_ok_def eff(2))
  with ae False show ?thesis by (auto simp: eff(2,3))
qed


lemma spawn_agents_ok:
  assumes "boot_ok (w, names, emotions, index)" "finite D" "card D \<le> 254"
    "dom (name_to_id (fst emotions)) \<subseteq> D" "\<forall>p\<in>set ps. ia_agent_id (fst p) \<noteq> 1 \<longrightarrow> ia_emotion (fst p) \<in> D"
  shows "\<exists>w' names' emotions' index'. fold spawn_agent ps (w, names, emotions, index) = (w', names', emotions', index') \<and>
    boot_ok (w', names', emotions', index') \<and> dom (name_to_id (fst emotions')) \<subseteq> D \<and>
    dom index' = dom index \<union> ((\<lambda>p. ia_agent_id (fst p)) ` set ps - {1})"
  using assms
proof (induction ps arbitrary: w names emotions index)
  case (Cons p ps)
  obtain a d where p: "p = (a, d)" by (metis surj_pair)
  have "length (decay_ticks_table (fst emotions)) \<le> card D"
    using Cons.prems(1) card_mono [OF Cons.prems(2,4)] by (simp add: boot_ok_def emotion_boot_ok_def)
  then have l: "length (decay_ticks_table (fst emotions)) < 256" using Cons.prems(3) by simp
  obtain w1 names1 emotions1 index1 where s: "spawn_agent (a, d) (w, names, emotions, index) = (w1, names1, emotions1, index1)"
    using prod_cases4 by blast
  have k: "boot_ok (w1, names1, emotions1, index1)" "dom (name_to_id (fst emotions1)) \<subseteq> D"
    "dom index1 = dom index \<union> ({ia_agent_id a} - {1})"
    using spawn_agent_ok [OF Cons.prems(1) refl l s] Cons.prems(4,5) by (simp_all add: p split: if_splits) blast+
  from Cons.IH [OF k(1) Cons.prems(2,3) k(2)] Cons.prems(5) show ?case
    by (auto simp: p s k(3))
qed simp

lemma furniture_ok_fold:
  "crowd_ok w \<Longrightarrow> crowd_ok (fold spawn_furniture fs w) \<and>
     emotion (reg (fold spawn_furniture fs w)) = emotion (reg w)"
proof (induction fs arbitrary: w)
  case (Cons f fs)
  from spawn_furniture_ok [OF Cons.prems, of f] Cons.IH [of "spawn_furniture f w"] show ?case by simp
qed simp

lemma load_places_cells: "cells_ok (load_places ls)"
proof -
  define P where "P g \<longleftrightarrow> cell_entities (g :: location_registry) = (\<lambda>_. []) \<and> entity_to_cell g = Map.empty" for g
  have reg_ok: "P (fold (\<lambda>l. RegisterLocation (f l) (x l) (z l) (t l) (r l) (u l)) ls g)" if "P g" for f x z t r u g and ls :: "LocationData list"
    using that by (induction ls arbitrary: g) (simp_all add: P_def RegisterLocation_def GetOrCreateZoneId_cells)
  have step: "P (let (zone, g1) = GetOrCreateZoneId n g
        in g1\<lparr>region_map := bake_location w h zone loc (region_map g1)\<rparr>)" if "P g" for n loc w h g
    using that GetOrCreateZoneId_cells [of n g] by (cases "GetOrCreateZoneId n g") (simp add: P_def)
  have bake: "P (fold (\<lambda>(name, loc) g. let (zone, g1) = GetOrCreateZoneId name g
        in g1\<lparr>region_map := bake_location w h zone loc (region_map g1)\<rparr>) ps g)" if "P g" for ps g w h
    using that by (induction ps arbitrary: g) (use step in auto)
  have "P (load_places ls)"
    unfolding load_places_def BakeRegionMap_def
  proof (rule bake)
    have "P (fold (\<lambda>l. RegisterLocation (ld_name l) (ld_x l) (ld_z l) (LocationType_of (ld_type l))
        (ld_region_id l) (ld_territory_id l)) ls LocationRegistry_init)"
      by (rule reg_ok) (simp add: P_def LocationRegistry_init_def)
    then show "P (fold (\<lambda>l. RegisterLocation (ld_name l) (ld_x l) (ld_z l) (LocationType_of (ld_type l))
        (ld_region_id l) (ld_territory_id l)) ls LocationRegistry_init
        \<lparr>map_width := WIDTH, map_height := HEIGHT, region_map_size := WIDTH * HEIGHT, region_map := \<lambda>_. 0\<rparr>)"
      by (simp add: P_def)
  qed
  then show ?thesis by (simp add: P_def cells_ok_def)
qed

lemma empty_world_ok: "cells_ok g \<Longrightarrow> crowd_ok (empty_world chance g)"
  by (simp add: crowd_ok_def empty_world_def registry_init_def sim_inv_def bt_inv_def needs_live_def
      occupancy_ok_def occupied_def occupant_def furniture_ok_def fresh_ok_def workers_ok_def located_def
      speakers_known_def bodies_ok_def aggro_ok_def blank_def has_def)

text \<open>What holds when the game loop starts, for the bootstrap data of the AI server.\<close>

definition spawned :: "WorldBootstrapData \<Rightarrow> InitialAgentState set" where
  "spawned b = {a \<in> set (wb_agents b). ia_agent_id a \<noteq> 1}"

lemma populate_ok:
  assumes "card (ia_emotion ` spawned b) \<le> 235" and "cells_ok g"
  shows "\<exists>w names emotions index. populate b draws (empty_world chance g) = (w, names, emotions, index) \<and>
    boot_ok (w, names, emotions, index) \<and> length (decay_ticks_table (fst emotions)) \<le> 254 \<and>
    dom index = ia_agent_id ` spawned b"
proof -
  define w0 where "w0 = fold spawn_furniture (wb_furniture b) (empty_world chance g)"
  define D where "D = set (List.map fst base_rules) \<union> ia_emotion ` spawned b"
  define ps where "ps = zip (wb_agents b) (List.map draws [0..<length (wb_agents b)])"
  have fs: "List.map fst ps = wb_agents b" by (simp add: ps_def)
  then have ids: "(\<lambda>p. ia_agent_id (fst p)) ` set ps - {1} = ia_agent_id ` spawned b"
    by (auto simp: spawned_def image_comp [symmetric] simp flip: fs)
  have "crowd_ok w0" "emotion (reg w0) = Map.empty"
    using furniture_ok_fold [OF empty_world_ok [OF assms(2)]]
    by (simp_all add: w0_def empty_world_def registry_init_def)
  with base_emotions_ok have b0: "boot_ok (w0, base_names, base_emotions, Map.empty)"
    by (simp add: boot_ok_def)
  have fin: "finite D" by (simp add: D_def spawned_def)
  have "card (set (List.map fst base_rules)) \<le> 19"
    using card_length [of "List.map fst base_rules"] by (simp add: base_rules_def)
  then have cd: "card D \<le> 254"
    using card_Un_le [of "set (List.map fst base_rules)" "ia_emotion ` spawned b"] assms(1) by (simp add: D_def)
  have "\<forall>p\<in>set ps. ia_agent_id (fst p) \<noteq> 1 \<longrightarrow> ia_emotion (fst p) \<in> D"
    by (auto simp: D_def spawned_def simp flip: fs)
  from spawn_agents_ok [OF b0 fin cd _ this] base_emotions_ok obtain w' names' emotions' index' where
    f: "fold spawn_agent ps (w0, base_names, base_emotions, Map.empty) = (w', names', emotions', index')"
      "boot_ok (w', names', emotions', index')" "dom (name_to_id (fst emotions')) \<subseteq> D"
      "dom index' = ia_agent_id ` spawned b"
    by (auto simp: D_def ids)
  have "length (decay_ticks_table (fst emotions')) \<le> 254"
    using f(2,3) card_mono [OF fin f(3)] cd by (simp add: boot_ok_def emotion_boot_ok_def)
  with f show ?thesis by (auto simp: populate_def w0_def ps_def)
qed

lemma boot_world_ok:
  assumes "boot stof file obstacles response draws chance = Booted w m"
    and "card (ia_emotion ` spawned (GetWorldBootstrap response)) \<le> 235"
  shows "player_inv w \<and> emo_inv w \<and> speakers_known (reg w) \<and> bodies_ok (reg w) \<and> aggro_ok (reg w) \<and>
    located (reg w) (grid_reg w) \<and> cache_ok m \<and> busy (reg w) = Map.empty \<and> player_tag (reg w) = Map.empty \<and>
    (\<exists>idx. entity_index (reg w) = Some idx \<and> dom (by_npc_id idx) = ia_agent_id ` spawned (GetWorldBootstrap response))"
proof -
  define b where "b = GetWorldBootstrap response"
  obtain w1 names emotions index where p:
    "populate b draws (empty_world chance (load_places (wb_locations b))) = (w1, names, emotions, index)"
    "boot_ok (w1, names, emotions, index)" "length (decay_ticks_table (fst emotions)) \<le> 254"
    "dom index = ia_agent_id ` spawned b"
    using populate_ok [OF assms(2) load_places_cells] unfolding b_def by blast
  have bt: "w = add_context (load_settings stof file) b (w1, names, emotions, index)"
      "m = LoadMap (wb_locations b) obstacles GridMap_init"
    using assms(1) by (auto simp: boot_def Let_def b_def [symmetric] p(1) split: if_splits)
  define r0 where "r0 = (reg w1)\<lparr>bt_context_tick := Some 0\<rparr>"
  have c: "crowd_ok w1" using p(2) by (simp add: boot_ok_def)
  have "quiet r0 (reg w)" unfolding r0_def bt(1) by (simp add: add_context_def quiet_def occupied_def)
  then have s: "sim_inv (reg w)" using c quiet_sim_inv by (auto simp: r0_def crowd_ok_def)
  have i: "index_ok (reg w)"
    using p(2) c by (auto simp: bt(1) add_context_def index_ok_def indexed_def boot_ok_def bearer_ok_def
        crowd_ok_def valid_def)
  have e: "emo_inv w"
    using p(2,3) c by (simp add: bt(1) add_context_def emo_inv_def boot_ok_def emotion_boot_ok_def crowd_ok_def)
  have "path_cache m = []"
    by (simp add: bt(2) LoadMap_def load_locations_def GridMap_init_def Let_def split: obstacle_file.split)
  then have "cache_ok m" by (simp add: cache_ok_def)
  moreover have "located (reg w) (grid_reg w)" using c by (simp add: bt(1) add_context_def located_def crowd_ok_def)
  ultimately show ?thesis
    using s i e c p(4) unfolding b_def [symmetric]
    by (simp add: player_inv_def located_def bt(1) add_context_def crowd_ok_def speakers_known_def bodies_ok_def aggro_ok_def)
qed

text \<open>C38: When the server starts, whatever places, furniture, agents and random numbers it gets, the
  world satisfies every invariant the systems of the game loop rely on: the simulation invariant,
  the indices, the emotion tables, the spatial hash and the empty path cache; each agent but the
  reserved one of the player is in the index and nobody is busy. The 8-bit emotion ids bound the
  distinct emotions of the agents by 235.\<close>

theorem boot_establishes_invariants:
  assumes "boot stof file obstacles response draws chance = Booted w m"
    and "card (ia_emotion ` spawned (GetWorldBootstrap response)) \<le> 235"
  shows "player_inv w \<and> emo_inv w \<and> speakers_known (reg w) \<and> bodies_ok (reg w) \<and> aggro_ok (reg w) \<and>
    located (reg w) (grid_reg w) \<and> cache_ok m \<and> busy (reg w) = Map.empty \<and> player_tag (reg w) = Map.empty \<and>
    (\<exists>idx. entity_index (reg w) = Some idx \<and> dom (by_npc_id idx) = ia_agent_id ` spawned (GetWorldBootstrap response))"
  by (rule boot_world_ok [OF assms])

definition demo_place :: ProtoPlace where
  "demo_place = \<lparr>pp_info = \<lparr>pl_name = ''Inn'', pl_position = Some (Fin 8, Fin 0, Fin 8)\<rparr>, pp_type = 1,
     pp_region_id = 1, pp_territory_id = 1\<rparr>"

definition demo_wolf :: ProtoAgent where
  "demo_wolf = \<lparr>pa_agent_id = 7, pa_name = ''Wolf'', pa_location = Some (pp_info demo_place),
     pa_emotion = ''Hungry'', pa_activity = [], pa_extroversion = Fin 0, pa_relationships = [],
     pa_string_id = ''wolf_1''\<rparr>"

definition demo_bootstrap :: GetWorldBootstrapResponse where
  "demo_bootstrap = \<lparr>br_locations = [demo_place], br_agents = [demo_wolf],
     br_furniture = [\<lparr>pf_name = ''Table'', pf_type = 3, pf_parent_location = ''Inn'',
       pf_position = Some (Fin 8, Fin 0, Fin 8), pf_is_temporary = False\<rparr>],
     br_npc_speed = flit 2, br_ticks_per_game_hour = 200\<rparr>"

theorem boot_establishes_invariants_witness:
  "\<exists>w m idx. boot (\<lambda>_. None) None NoFile (Inr demo_bootstrap) (\<lambda>_. (Fin 60, Fin 70)) (demo_world registry_init) = Booted w m \<and>
     player_inv w \<and> emo_inv w \<and> entity_index (reg w) = Some idx \<and> dom (by_npc_id idx) = {7}"
proof -
  let ?b = "GetWorldBootstrap (Inr demo_bootstrap)"
  have b: "wb_locations ?b \<noteq> []" "wb_agents ?b = [agent_of_proto demo_wolf]" "wb_npc_speed ?b = flit 2"
    "wb_ticks_per_game_hour ?b = 200"
    by (simp_all add: GetWorldBootstrap_def demo_bootstrap_def)
  have "\<not> settings_differ (load_settings (\<lambda>_. None) None) ?b"
    by (simp add: settings_differ_def load_settings_def SimulationSettings_default_def b) code_simp
  then obtain w m where w: "boot (\<lambda>_. None) None NoFile (Inr demo_bootstrap) (\<lambda>_. (Fin 60, Fin 70)) (demo_world registry_init) = Booted w m"
    using b by (simp add: boot_def Let_def)
  have s: "spawned ?b = {agent_of_proto demo_wolf}"
    by (auto simp: spawned_def b agent_of_proto_def demo_wolf_def split: prod.split)
  have "ia_agent_id (agent_of_proto demo_wolf) = 7"
    by (simp add: agent_of_proto_def demo_wolf_def split: prod.split)
  with boot_establishes_invariants [OF w] s w show ?thesis by auto
qed

end
