(* ===== verification/MainLoop.thy ===== *)
theory MainLoop
  imports Boot Network
begin

text \<open>
  The game loop of \<open>main.cpp\<close> and \<open>GameLoop.cpp\<close>: what the queued answers of the AI server do,
  the death system, the systems of a synchronised tick and of every physical frame, the request
  for the next tick, and the shutdown. The variables of \<open>main\<close> are the record \<open>server\<close>.
\<close>

section \<open>\<open>SystemDeath\<close>\<close>

definition halt_toil :: "entity \<Rightarrow> world \<Rightarrow> world" where
  "halt_toil e w = (case toil (reg w) e of
       None \<Rightarrow> w
     | Some t \<Rightarrow> if toil_state t = TsIdle then w
         else put_toil e (t\<lparr>toil_state := TsIdle, duration_ticks := 0, current_action := ''Dead''\<rparr>) w)"

definition drop_waypoints :: "entity \<Rightarrow> world \<Rightarrow> world" where
  "drop_waypoints e w = (case pathfinding (reg w) e of
       None \<Rightarrow> w | Some p \<Rightarrow> put_pathfinding e (p\<lparr>waypoints := []\<rparr>) w)"

definition show_dead :: "entity \<Rightarrow> world \<Rightarrow> world" where
  "show_dead e w = (case activity (reg w) e of
       None \<Rightarrow> w | Some a \<Rightarrow> if a = lit_dead then w else put_activity e lit_dead w)"

definition drop_target :: "entity \<Rightarrow> world \<Rightarrow> world" where
  "drop_target e w = (case combat (reg w) e of
       None \<Rightarrow> w | Some c \<Rightarrow> put_combat e (c\<lparr>target_entity := None\<rparr>) w)"

definition erase_tree :: "entity \<Rightarrow> world \<Rightarrow> world" where
  "erase_tree e w = w\<lparr>reg := (reg w)\<lparr>behavior_tree := (behavior_tree (reg w))(e := None)\<rparr>\<rparr>"

definition bury :: "entity \<Rightarrow> world \<Rightarrow> world" where
  "bury e w = erase_tree e (drop_target e (show_dead e (drop_waypoints e (stop_velocity e (halt_toil e w)))))"

definition SystemDeath :: "env \<Rightarrow> world \<Rightarrow> world option" where
  "SystemDeath env w = view_each env (\<lambda>r e. has (health r) e \<and> has (identity r) e)
     (\<lambda>e w. do { h \<leftarrow> health (reg w) e; Some (if is_dead h then bury e w else w) }) w"

section \<open>Answers that change the world\<close>

text \<open>The decision on a threat; \<open>current_tick\<close> is the tick \<open>BTContext\<close> points to.\<close>

definition calm_down :: "entity \<Rightarrow> u32 \<Rightarrow> int \<Rightarrow> AggroComp \<Rightarrow> world \<Rightarrow> world" where
  "calm_down e target tick a w =
     (let cd = get_or CooldownComp_default (cooldown (reg w)) e
      in put_cooldown e (cd\<lparr>cooldown_per_target := (cooldown_per_target cd)(target \<mapsto> tick + 600)\<rparr>)
           (put_aggro e (a\<lparr>aggro_score := 0, is_inhibited := False\<rparr>) w))"

definition on_threat :: "entity \<Rightarrow> u32 \<Rightarrow> bool \<Rightarrow> int \<Rightarrow> world \<Rightarrow> world option" where
  "on_threat e target success action_code w =
     (if \<not> valid (reg w) e then Some w
      else case aggro (reg w) e of
             None \<Rightarrow> Some w
           | Some a \<Rightarrow> do {
               ident \<leftarrow> identity (reg w) e;
               tick \<leftarrow> current_tick w;
               if \<not> success then Some (put_aggro e (a\<lparr>is_inhibited := False\<rparr>) w)
               else if action_code = 0
               then Some (put_aggro e (a\<lparr>aggro_score := 0, is_inhibited := False\<rparr>)
                      (put_combat e ((get_or CombatComp_default (combat (reg w)) e)
                         \<lparr>target_entity := threat_entity a\<rparr>) w))
               else Some (calm_down e target tick a w)
             })"

text \<open>The jobs of the day for an agent.\<close>

definition resolving :: "registry \<Rightarrow> entity \<Rightarrow> bool" where
  "resolving r e = (case needs r e of None \<Rightarrow> False | Some n \<Rightarrow> is_resolving_survival n)"

definition end_schedule_wait :: "entity \<Rightarrow> world \<Rightarrow> world" where
  "end_schedule_wait e w = (case busy (reg w) e of
       None \<Rightarrow> w | Some b \<Rightarrow> if busy_reason b = BrScheduleWait then erase_busy e w else w)"

definition take_job :: "env \<Rightarrow> EntityIndex \<Rightarrow> JobPayload \<Rightarrow> world \<Rightarrow> world" where
  "take_job env idx p w =
     (case npc_entity_of (reg w) idx (jp_npc_id p) of
        None \<Rightarrow> w
      | Some e \<Rightarrow>
          if resolving (reg w) e then w
          else let j = get_or JobComp_default (job (reg w)) e
            in if job_id j = jp_job_id p \<and> is_active j then w
               else let ((angle, unit), w1) = draw_disc w;
                        (x, z) = RandomizeWithinRadius (cos_f env) (sin_f env) angle unit
                          (jp_target_x p) (jp_target_z p) LOCATION_RADIUS;
                        w2 = put_job e (j\<lparr>job_id := jp_job_id p, target_location := jp_target_location p,
                               target_x := x, target_y := jp_target_y p, target_z := z,
                               intent := jp_intent p, target_agent_id := jp_target_agent_id p,
                               priority := jp_priority p, category := JobCategory_of (jp_category p),
                               is_active := True\<rparr>) w1;
                        w3 = put_toil e ((get_or ToilComp_default (toil (reg w2)) e)
                               \<lparr>toil_state := TsIdle, duration_ticks := 0\<rparr>) w2
                    in end_schedule_wait e w3)"

definition on_pending_jobs :: "env \<Rightarrow> bool \<Rightarrow> JobPayload list \<Rightarrow> world \<Rightarrow> world option" where
  "on_pending_jobs env success jobs w =
     (if success then map_option (\<lambda>idx. fold (take_job env idx) jobs w) (entity_index (reg w)) else Some w)"

section \<open>The state of the loop\<close>

record server =
  world_of :: world
  nav_of :: nav_state
  grpc_tasks :: "grpc_task grpc_queue"
  sv_tick :: int
  is_first_loop :: bool
  is_tick_sync_pending :: bool
  tick_synced_ready :: bool
  temp_relationship_deltas :: "RelationshipDelta list"
  temp_message :: string
  next_tick_val :: int

definition start_server :: "world \<Rightarrow> grid_map \<Rightarrow> server" where
  "start_server w m = \<lparr>world_of = w,
     nav_of = \<lparr>nav_map = m, nav_scratch = fresh_scratch, pathfinds_this_tick = 0\<rparr>,
     grpc_tasks = grpc_queue_empty, sv_tick = 0, is_first_loop = True, is_tick_sync_pending = False,
     tick_synced_ready = False, temp_relationship_deltas = [], temp_message = [], next_tick_val = 0\<rparr>"

definition on_world :: "(world \<Rightarrow> world option) \<Rightarrow> server \<Rightarrow> server option" where
  "on_world f s = map_option (\<lambda>w. s\<lparr>world_of := w\<rparr>) (f (world_of s))"

definition on_tick_answer :: "int \<Rightarrow> bool \<Rightarrow> string \<Rightarrow> RelationshipDelta list \<Rightarrow> server \<Rightarrow> server" where
  "on_tick_answer target success message deltas s =
     (let s1 = s\<lparr>is_tick_sync_pending := False\<rparr>
      in if success
         then s1\<lparr>next_tick_val := target, temp_relationship_deltas := deltas, temp_message := message,
                 tick_synced_ready := True\<rparr>
         else s1)"

text \<open>A queued task: the continuation on its answer. The types of the callbacks rule out the pairs
  that do nothing here.\<close>

primrec run_continuation :: "env \<Rightarrow> continuation \<Rightarrow> rpc_answer \<Rightarrow> server \<Rightarrow> server option" where
  "run_continuation env KNone a = Some"
| "run_continuation env KLog a = Some"
| "run_continuation env (KThreat e target) a = (case a of
     ThreatAnswer success code \<Rightarrow> on_world (on_threat e target success code) | _ \<Rightarrow> Some)"
| "run_continuation env (KDialogue grp tick zone) a = (case a of
     DialogueAnswer success res \<Rightarrow> on_world (on_dialogue env grp tick zone success res) | _ \<Rightarrow> Some)"
| "run_continuation env (KPlayerDialogueStarted session name npc player s) a = (case a of
     StartAnswer success sid greeting message \<Rightarrow>
       on_world (on_player_dialogue_started env success sid greeting session name npc player) | _ \<Rightarrow> Some)"
| "run_continuation env (KPlayerMessage session name sid s) a = (case a of
     MessageAnswer success reply \<Rightarrow> on_world (on_player_message env success reply session name sid) | _ \<Rightarrow> Some)"
| "run_continuation env (KPlayerDialogueEnded npc player s) a = (case a of
     EndAnswer success message \<Rightarrow> on_world (on_player_dialogue_ended npc player) | _ \<Rightarrow> Some)"
| "run_continuation env (KAgentStatus session i s) a = (case a of
     AgentAnswer success st \<Rightarrow> on_world (on_agent_status env success st session i) | _ \<Rightarrow> Some)"
| "run_continuation env (KJobReport e) a = (case a of
     ReportAnswer success has_new p message \<Rightarrow>
       on_world (\<lambda>w. Some (on_job_report e success has_new p w)) | _ \<Rightarrow> Some)"
| "run_continuation env (KWorldTick target) a = (case a of
     TickAnswer success message busy_ids deltas \<Rightarrow> (\<lambda>s. Some (on_tick_answer target success message deltas s))
   | _ \<Rightarrow> Some)"
| "run_continuation env KPendingJobs a = (case a of
     JobsAnswer success jobs \<Rightarrow> on_world (on_pending_jobs env success jobs) | _ \<Rightarrow> Some)"
| "run_continuation env (KBatchStatus b) a = (case a of
     StatusAnswer success n message \<Rightarrow> on_world (\<lambda>w. Some (on_batch_status success b w)) | _ \<Rightarrow> Some)"

definition drain_tasks :: "env \<Rightarrow> server \<Rightarrow> server option" where
  "drain_tasks env s = (let (tasks, q) = Drain (grpc_tasks s)
     in foldM (\<lambda>(k, a). run_continuation env k a) tasks (s\<lparr>grpc_tasks := q\<rparr>))"

section \<open>A synchronised tick\<close>

definition apply_delta :: "RelationshipDelta \<Rightarrow> world \<Rightarrow> world option" where
  "apply_delta d w = do {
     idx \<leftarrow> entity_index (reg w);
     case by_npc_id idx (rd_from_agent_id d) of
       None \<Rightarrow> Some w
     | Some e \<Rightarrow> if \<not> valid (reg w) e then ub
         else Some (w\<lparr>reg := (reg w)\<lparr>relationships := (relationships (reg w))(e \<mapsto>
                AList.update (rd_to_agent_id d) \<lparr>liking = rd_liking d, trust = rd_trust d\<rparr>
                  (get_or [] (relationships (reg w)) e))\<rparr>\<rparr>)
   }"

text \<open>A new day: social energy and cooldowns.\<close>

definition refresh_cooldowns :: "env \<Rightarrow> world \<Rightarrow> world option" where
  "refresh_cooldowns env = view_each env (\<lambda>r. has (cooldown r))
     (\<lambda>e w. do { cd \<leftarrow> cooldown (reg w) e;
        Some (put_cooldown e (cd\<lparr>social_energy := max_social_energy cd, cognitive_refractory_until := 0,
                cooldown_per_target := Map.empty\<rparr>) w) })"

definition tick_systems :: "env \<Rightarrow> int \<Rightarrow> bool \<Rightarrow> RelationshipDelta list \<Rightarrow> world \<Rightarrow> world option" where
  "tick_systems env tick new_day deltas w = do {
     w1 \<leftarrow> foldM apply_delta deltas w;
     w2 \<leftarrow> SystemEmotionDecay env w1;
     w3 \<leftarrow> (if new_day then refresh_cooldowns env w2 else Some w2);
     w4 \<leftarrow> SystemJobDriver env tick (call_rpc (GetPendingJobs tick) KPendingJobs w3);
     w5 \<leftarrow> SystemSocialInteraction env tick w4;
     Some (SystemNetworkSync env w5)
   }"

text \<open>\<open>tick = next_tick_val\<close>: \<open>BTContext\<close> and \<open>main\<close> share the variable.\<close>

definition set_tick :: "int \<Rightarrow> server \<Rightarrow> server" where
  "set_tick t s = s\<lparr>sv_tick := t, world_of := (world_of s)\<lparr>reg := (reg (world_of s))\<lparr>bt_context_tick := Some t\<rparr>\<rparr>\<rparr>"

definition synced_tick :: "env \<Rightarrow> server \<Rightarrow> server option" where
  "synced_tick env s =
     (if \<not> tick_synced_ready s then Some s
      else let s1 = set_tick (next_tick_val s) (s\<lparr>tick_synced_ready := False\<rparr>);
               new_day = (is_first_loop s1 \<or> sv_tick s1 mod 24 = 0)
           in on_world (tick_systems env (sv_tick s1) new_day (temp_relationship_deltas s1))
                (s1\<lparr>is_first_loop := is_first_loop s1 \<and> \<not> new_day\<rparr>))"

section \<open>A physical frame\<close>

definition frame_systems :: "env \<Rightarrow> tie_break \<Rightarrow> int \<Rightarrow> world \<times> nav_state \<Rightarrow> (world \<times> nav_state) option" where
  "frame_systems env tie tick = (\<lambda>(w, n). do {
     w1 \<leftarrow> SystemBusyAmbient env (flit 0.05) w;
     w2 \<leftarrow> SystemPerception env w1;
     w3 \<leftarrow> SystemBehaviorTree (env\<lparr>walk_map := nav_map n\<rparr>) w2;
     w4 \<leftarrow> SystemDeath env w3;
     w5 \<leftarrow> SystemSurvivalOverride env w4;
     (w6, n1) \<leftarrow> SystemPathfinding env tie (w5, n);
     w7 \<leftarrow> SystemMovement env (nav_map n1) w6;
     w8 \<leftarrow> SystemAffordanceResolver env w7;
     w9 \<leftarrow> SystemBroadcastWorldSnapshot env tick w8;
     Some (w9, n1)
   })"

text \<open>The request for the next tick; the remainder by 0 is undefined.\<close>

definition ticks_per_hour :: "registry \<Rightarrow> int" where
  "ticks_per_hour r = (case settings r of None \<Rightarrow> 200 | Some s \<Rightarrow> ticks_per_game_hour s)"

definition request_tick :: "int \<Rightarrow> server \<Rightarrow> server option" where
  "request_tick physical_tick s =
     (let h = ticks_per_hour (reg (world_of s))
      in if h = 0 then ub
         else if h dvd physical_tick \<and> \<not> is_tick_sync_pending s
         then Some (s\<lparr>is_tick_sync_pending := True,
           world_of := call_rpc (ProcessWorldTick (sv_tick s + 1)) (KWorldTick (sv_tick s + 1)) (world_of s)\<rparr>)
         else Some s)"

definition frame :: "env \<Rightarrow> tie_break \<Rightarrow> int \<Rightarrow> server \<Rightarrow> server option" where
  "frame env tie physical_tick s = do {
     s1 \<leftarrow> drain_tasks env s;
     s2 \<leftarrow> on_world (SystemCleanupDisconnectedPlayerDialogues env) s1;
     s3 \<leftarrow> on_world (SystemPlayerCommands env) s2;
     s4 \<leftarrow> synced_tick env s3;
     (w, n) \<leftarrow> frame_systems env tie (sv_tick s4) (world_of s4, nav_of s4);
     request_tick physical_tick (s4\<lparr>world_of := w, nav_of := n\<rparr>)
   }"

section \<open>\<open>GameLoop::Run\<close>\<close>

text \<open>
  One entry of the schedule is one pass of the loop: the clock after the frame, in microseconds.
  The schedule ends when \<open>keep_running\<close> is false. The result has the times the loop sleeps for.
\<close>

definition tick_interval :: "nat \<Rightarrow> int" where
  "tick_interval tick_rate_hz = int (1000000 div tick_rate_hz)"

fun Run :: "(int \<Rightarrow> 's \<Rightarrow> 's option) \<Rightarrow> int \<Rightarrow> int list \<Rightarrow> int \<Rightarrow> int \<Rightarrow> 's \<Rightarrow> ('s \<times> int list) option" where
  "Run tick_fn interval [] next_tick tick s = Some (s, [])"
| "Run tick_fn interval (now # nows) next_tick tick s =
     (case tick_fn (tick + 1) s of
        None \<Rightarrow> None
      | Some s1 \<Rightarrow> let next1 = next_tick + interval
          in if now < next1
             then map_option (\<lambda>(s2, naps). (s2, (next1 - now) # naps)) (Run tick_fn interval nows next1 (tick + 1) s1)
             else map_option (\<lambda>(s2, naps). (s2, 0 # naps)) (Run tick_fn interval nows now (tick + 1) s1))"

section \<open>Shutdown\<close>

definition in_talk :: "string \<Rightarrow> bool" where
  "in_talk a \<longleftrightarrow> a = lit_dialogue_requested \<or> a = lit_with_player \<or> a = lit_awaiting_player"

definition talking :: "registry \<Rightarrow> entity \<Rightarrow> bool" where
  "talking r e \<longleftrightarrow> has (busy r) e \<and> has (identity r) e \<and> has (location r) e \<and> has (emotion r) e \<and>
     (case activity r e of None \<Rightarrow> False | Some a \<Rightarrow> in_talk a)"

definition shutdown_update :: "registry \<Rightarrow> entity \<Rightarrow> AgentStatusUpdate option" where
  "shutdown_update r e = do {
     ident \<leftarrow> identity r e; loc \<leftarrow> location r e; emo \<leftarrow> emotion r e;
     Some (status_update ident loc emo lit_waiting)
   }"

definition Shutdown :: "(rpc_request \<Rightarrow> string + int) \<Rightarrow> env \<Rightarrow> world \<Rightarrow> world \<times> (bool \<times> int \<times> string) option" where
  "Shutdown stub env w =
     (let es = filter (talking (reg w)) (order env (reg w));
          updates = List.map_filter (shutdown_update (reg w)) es
      in (fold (\<lambda>e. put_activity e lit_waiting) es w,
          if updates = [] then None else Some (BatchUpdateAgentStatus stub updates)))"



section \<open>The dead\<close>

text \<open>What a death is to stop: the components of an entity that \<open>SystemDeath\<close> may change.\<close>

type_synonym live_parts = "ToilComp option \<times> VelocityComp option \<times> PathfindingComp option \<times>
  string option \<times> CombatComp option \<times> BTNode option option"

definition live_parts :: "registry \<Rightarrow> entity \<Rightarrow> live_parts" where
  "live_parts r e = (toil r e, velocity r e, pathfinding r e, activity r e, combat r e, behavior_tree r e)"

definition at_rest :: "registry \<Rightarrow> entity \<Rightarrow> bool" where
  "at_rest r e \<longleftrightarrow> (\<forall>t. toil r e = Some t \<longrightarrow> toil_state t = TsIdle) \<and>
     (\<forall>v. velocity r e = Some v \<longrightarrow> vel_speed v = Fin 0 \<and> dir_x v = Fin 0 \<and> dir_z v = Fin 0) \<and>
     (\<forall>p. pathfinding r e = Some p \<longrightarrow> waypoints p = []) \<and>
     (\<forall>a. activity r e = Some a \<longrightarrow> a = lit_dead) \<and>
     (\<forall>c. combat r e = Some c \<longrightarrow> target_entity c = None) \<and> behavior_tree r e = None"

lemmas bury_defs = bury_def halt_toil_def stop_velocity_def drop_waypoints_def show_dead_def
  drop_target_def erase_tree_def

lemma bury_rest: "at_rest (reg (bury e w)) e"
  by (simp add: bury_defs put_defs at_rest_def split: option.split)

lemma bury_frame:
  "health (reg (bury e w)) = health (reg w) \<and> identity (reg (bury e w)) = identity (reg w) \<and>
     (x \<noteq> e \<longrightarrow> live_parts (reg (bury e w)) x = live_parts (reg w) x)"
  by (simp add: bury_defs put_defs live_parts_def split: option.split)

lemma at_rest_parts: "live_parts r e = live_parts r' e \<Longrightarrow> at_rest r e \<longleftrightarrow> at_rest r' e"
  by (simp add: live_parts_def at_rest_def)

definition death_step :: "entity \<Rightarrow> world \<Rightarrow> world" where
  "death_step e w = (case (health (reg w) e, identity (reg w) e) of
     (Some h, Some _) \<Rightarrow> if is_dead h then bury e w else w | _ \<Rightarrow> w)"

lemma SystemDeath_fold: "SystemDeath env w = Some (fold death_step (order env (reg w)) w)"
proof -
  have "foldM (\<lambda>e w. if has (health (reg w)) e \<and> has (identity (reg w)) e
      then do { h \<leftarrow> health (reg w) e; Some (if is_dead h then bury e w else w) } else Some w) xs w =
    Some (fold death_step xs w)" for xs and w :: world
    by (induction xs arbitrary: w) (auto simp: death_step_def split: option.split)
  then show ?thesis by (simp add: SystemDeath_def view_each_def)
qed

lemma death_step_frame:
  "health (reg (death_step e w)) = health (reg w) \<and> identity (reg (death_step e w)) = identity (reg w) \<and>
     (x \<noteq> e \<longrightarrow> live_parts (reg (death_step e w)) x = live_parts (reg w) x)"
  using bury_frame [of e w x] by (simp add: death_step_def split: option.split)

lemma death_fold:
  assumes "health (reg w) e = Some h" "has (identity (reg w)) e"
  shows "health (reg (fold death_step xs w)) = health (reg w) \<and>
    (is_dead h \<longrightarrow> e \<in> set xs \<or> at_rest (reg w) e \<longrightarrow> at_rest (reg (fold death_step xs w)) e) \<and>
    (\<not> is_dead h \<longrightarrow> live_parts (reg (fold death_step xs w)) e = live_parts (reg w) e)"
  using assms
proof (induction xs arbitrary: w)
  case (Cons x xs)
  let ?w = "death_step x w"
  have f: "health (reg ?w) = health (reg w)" "identity (reg ?w) = identity (reg w)"
    using death_step_frame [of x w] by simp_all
  have e: "if x = e then ?w = (if is_dead h then bury e w else w)
      else live_parts (reg ?w) e = live_parts (reg w) e"
    using Cons.prems death_step_frame [of x w e] by (auto simp: death_step_def)
  have r: "is_dead h \<Longrightarrow> x = e \<or> at_rest (reg w) e \<Longrightarrow> at_rest (reg ?w) e"
    using e bury_rest [of e w] at_rest_parts by (metis (full_types))
  have l: "\<not> is_dead h \<Longrightarrow> live_parts (reg ?w) e = live_parts (reg w) e"
    using e by (auto split: if_splits)
  have "health (reg ?w) e = Some h" "has (identity (reg ?w)) e" using Cons.prems by (simp_all only: f)
  from Cons.IH [OF this] r l f(1) show ?case by auto
qed simp

text \<open>C39: \<open>SystemDeath\<close> always returns; every visited entity that is dead has then stopped working
  and moving, shows its death, has no target and no behaviour tree; a living one is left alone.\<close>

theorem SystemDeath_stops_the_dead:
  assumes "health (reg w) e = Some h" "has (identity (reg w)) e" "e \<in> set (order env (reg w))"
  shows "\<exists>w'. SystemDeath env w = Some w' \<and> health (reg w') = health (reg w) \<and>
    (if is_dead h then at_rest (reg w') e else live_parts (reg w') e = live_parts (reg w) e)"
  using death_fold [OF assms(1,2), of "order env (reg w)"] assms(3) by (simp add: SystemDeath_fold)

theorem SystemDeath_stops_the_dead_witness:
  "\<exists>w'. SystemDeath demo_env (put_health 0 (HealthComp_default\<lparr>is_dead := True\<rparr>) (demo_world demo_registry)) = Some w' \<and>
     behavior_tree (reg w') 0 = None"
proof -
  let ?w = "put_health 0 (HealthComp_default\<lparr>is_dead := True\<rparr>) (demo_world demo_registry)"
  have "health (reg ?w) 0 = Some (HealthComp_default\<lparr>is_dead := True\<rparr>)" "has (identity (reg ?w)) 0"
    "0 \<in> set (order demo_env (reg ?w))"
    by (simp_all add: put_defs demo_world_def demo_registry_def demo_env_def)
  from SystemDeath_stops_the_dead [OF this] show ?thesis by (auto simp: at_rest_def)
qed

section \<open>The pace of the loop\<close>

text \<open>The time at which pass \<open>i\<close> of the loop ends, its sleep included.\<close>

definition wake :: "int \<Rightarrow> int list \<Rightarrow> int list \<Rightarrow> nat \<Rightarrow> int" where
  "wake t0 nows naps i = (case i of 0 \<Rightarrow> t0 | Suc k \<Rightarrow> nows ! k + naps ! k)"

fun frames :: "(int \<Rightarrow> 's \<Rightarrow> 's option) \<Rightarrow> nat \<Rightarrow> int \<Rightarrow> 's \<Rightarrow> 's option" where
  "frames tick_fn 0 tick s = Some s"
| "frames tick_fn (Suc n) tick s = Option.bind (tick_fn (tick + 1) s) (frames tick_fn n (tick + 1))"



end
