(* ===== verification/Carry.thy ===== *)
theory Carry
  imports MainLoop
begin

text \<open>
  What every system of the game loop leaves alone. \<open>core\<close> is a relation between the world before
  and after a step: who has an activity, a body or a player tag does not change, these keep
  their identity, the indices stay, and the calls that are started belong to such entities. It
  is proved once for each operation by rules for the single component updates, and carries the
  invariants that one system needs through all the others.
\<close>

section \<open>Persons and things\<close>

definition person :: "registry \<Rightarrow> entity \<Rightarrow> bool" where
  "person r e \<longleftrightarrow> activity r e \<noteq> None \<or> health r e \<noteq> None \<or> player_tag r e \<noteq> None"

text \<open>Furniture and entities that do not exist yet are no persons, and players are no NPCs.\<close>

definition things_ok :: "registry \<Rightarrow> bool" where
  "things_ok r \<longleftrightarrow> (\<forall>e. person r e \<longrightarrow> affordance r e = None \<and> e < next_entity r) \<and>
     (\<forall>e. player_tag r e \<noteq> None \<longrightarrow> activity r e = None \<and> health r e = None)"

text \<open>Who a callback may keep: while it lives it has what the callback reads.\<close>

definition member_ok :: "registry \<Rightarrow> entity \<Rightarrow> bool" where
  "member_ok r e \<longleftrightarrow> e < next_entity r \<and> (valid r e \<longrightarrow> activity r e \<noteq> None \<and> identity r e \<noteq> None)"

primrec k_ok :: "registry \<Rightarrow> continuation \<Rightarrow> bool" where
  "k_ok r KNone = True"
| "k_ok r KLog = True"
| "k_ok r (KThreat e target) = member_ok r e"
| "k_ok r (KDialogue grp tick zone) = (\<forall>e\<in>set grp. member_ok r e)"
| "k_ok r (KPlayerDialogueStarted session name npc player s) = member_ok r npc"
| "k_ok r (KPlayerMessage session name sid s) = True"
| "k_ok r (KPlayerDialogueEnded npc player s) = (\<forall>e. npc = Some e \<longrightarrow> member_ok r e)"
| "k_ok r (KAgentStatus session i s) = True"
| "k_ok r (KJobReport e) = True"
| "k_ok r (KWorldTick target) = True"
| "k_ok r KPendingJobs = True"
| "k_ok r (KBatchStatus b) = True"

text \<open>A call of a system; only the request for a tick starts \<open>ProcessWorldTick\<close>.\<close>

definition call_ok :: "registry \<Rightarrow> rpc_call \<times> continuation \<Rightarrow> bool" where
  "call_ok r ck \<longleftrightarrow> k_ok r (snd ck) \<and> (\<forall>t. snd ck \<noteq> KWorldTick t)"

section \<open>The relation\<close>

definition keeps :: "registry \<Rightarrow> registry \<Rightarrow> bool" where
  "keeps r r' \<longleftrightarrow> dom (activity r') = dom (activity r) \<and> dom (health r') = dom (health r) \<and>
     player_tag r' = player_tag r \<and> entity_index r' = entity_index r \<and> id_mapper r' = id_mapper r \<and>
     settings r' = settings r \<and> next_entity r \<le> next_entity r' \<and>
     (\<forall>e<next_entity r. valid r' e \<longrightarrow> valid r e) \<and>
     (\<forall>e. person r e \<longrightarrow> identity r' e = identity r e \<and> (valid r e \<longrightarrow> valid r' e) \<and>
        (location r e \<noteq> None \<longrightarrow> location r' e \<noteq> None) \<and> affordance r' e = None \<and>
        (needs r' e = None \<longleftrightarrow> needs r e = None)) \<and>
     (\<forall>e a. aggro r' e = Some a \<longrightarrow> aggro r e = Some a \<or> 0 \<le> aggro_score a \<and> aggro_score a \<le> 100) \<and>
     (\<forall>e p n. player_dialogue r' e = Some p \<longrightarrow> npc_entity p = Some n \<longrightarrow>
        player_dialogue r e = Some p \<or> member_ok r' n) \<and>
     (needs_live r \<longrightarrow> needs_live r')"

lemma keepsD:
  assumes "keeps r r'"
  shows "dom (activity r') = dom (activity r)" "dom (health r') = dom (health r)" "player_tag r' = player_tag r"
    "entity_index r' = entity_index r" "id_mapper r' = id_mapper r" "settings r' = settings r"
    "next_entity r \<le> next_entity r'"
  using assms by (simp_all add: keeps_def)

lemma keeps_validD: "keeps r r' \<Longrightarrow> e < next_entity r \<Longrightarrow> valid r' e \<Longrightarrow> valid r e"
  unfolding keeps_def by blast

lemma keeps_personD:
  assumes "keeps r r'" "person r e"
  shows "identity r' e = identity r e" "valid r e \<Longrightarrow> valid r' e" "location r e \<noteq> None \<Longrightarrow> location r' e \<noteq> None"
    "affordance r' e = None" "needs r' e = None \<longleftrightarrow> needs r e = None"
  using assms unfolding keeps_def by blast+

lemma keeps_aggroD:
  "keeps r r' \<Longrightarrow> aggro r' e = Some a \<Longrightarrow> aggro r e = Some a \<or> 0 \<le> aggro_score a \<and> aggro_score a \<le> 100"
  unfolding keeps_def by blast

lemma keeps_talkD:
  "keeps r r' \<Longrightarrow> player_dialogue r' e = Some p \<Longrightarrow> npc_entity p = Some n \<Longrightarrow>
     player_dialogue r e = Some p \<or> member_ok r' n"
  unfolding keeps_def by blast

lemma keeps_liveD: "keeps r r' \<Longrightarrow> needs_live r \<Longrightarrow> needs_live r'"
  unfolding keeps_def by blast

lemma keepsI:
  assumes "dom (activity r') = dom (activity r)" "dom (health r') = dom (health r)" "player_tag r' = player_tag r"
    "entity_index r' = entity_index r" "id_mapper r' = id_mapper r" "settings r' = settings r"
    "next_entity r \<le> next_entity r'" "\<And>e. e < next_entity r \<Longrightarrow> valid r' e \<Longrightarrow> valid r e"
    "\<And>e. person r e \<Longrightarrow> identity r' e = identity r e \<and> (valid r e \<longrightarrow> valid r' e) \<and>
        (location r e \<noteq> None \<longrightarrow> location r' e \<noteq> None) \<and> affordance r' e = None \<and>
        (needs r' e = None \<longleftrightarrow> needs r e = None)"
    "\<And>e a. aggro r' e = Some a \<Longrightarrow> aggro r e = Some a \<or> 0 \<le> aggro_score a \<and> aggro_score a \<le> 100"
    "\<And>e p n. player_dialogue r' e = Some p \<Longrightarrow> npc_entity p = Some n \<Longrightarrow>
       player_dialogue r e = Some p \<or> member_ok r' n"
    "needs_live r \<Longrightarrow> needs_live r'"
  shows "keeps r r'"
  using assms unfolding keeps_def by blast

lemma keeps_person: "keeps r r' \<Longrightarrow> person r' e \<longleftrightarrow> person r e"
  using keepsD(1-3) [of r r'] unfolding person_def by (metis domIff)

lemma keeps_refl: "things_ok r \<Longrightarrow> keeps r r"
  by (rule keepsI) (simp_all add: things_ok_def)

lemma keeps_things:
  assumes k: "keeps r r'" and t: "things_ok r"
  shows "things_ok r'"
proof -
  have "player_tag r' e \<noteq> None \<longrightarrow> activity r' e = None \<and> health r' e = None" for e
    using t keepsD(1-3) [OF k] by (metis domIff things_ok_def)
  moreover have "affordance r' e = None \<and> e < next_entity r'" if "person r' e" for e
  proof -
    have p: "person r e" using that keeps_person [OF k] by simp
    then have "e < next_entity r" using t by (simp add: things_ok_def)
    with keepsD(7) [OF k] keeps_personD(4) [OF k p] show ?thesis by simp
  qed
  ultimately show ?thesis by (simp add: things_ok_def)
qed

lemma keeps_member:
  assumes k: "keeps r r'" and m: "member_ok r e"
  shows "member_ok r' e"
proof -
  have d: "activity r e \<noteq> None \<longleftrightarrow> activity r' e \<noteq> None" using keepsD(1) [OF k] by (metis domIff)
  have e: "e < next_entity r" using m by (simp add: member_ok_def)
  have "activity r' e \<noteq> None \<and> identity r' e \<noteq> None" if "valid r' e"
  proof -
    have "activity r e \<noteq> None" "identity r e \<noteq> None"
      using m keeps_validD [OF k e that] by (simp_all add: member_ok_def)
    with keeps_personD(1) [OF k, of e] d show ?thesis by (simp add: person_def)
  qed
  with e keepsD(7) [OF k] show ?thesis by (simp add: member_ok_def)
qed

lemma keeps_trans:
  assumes a: "keeps r r'" and b: "keeps r' r''"
  shows "keeps r r''"
proof (rule keepsI)
  have p: "person r' e" if "person r e" for e using keeps_person [OF a] that by simp
  show "valid r e" if "e < next_entity r" "valid r'' e" for e
    using keeps_validD [OF a that(1)] keeps_validD [OF b _ that(2)] that(1) keepsD(7) [OF a] by simp
  show "identity r'' e = identity r e \<and> (valid r e \<longrightarrow> valid r'' e) \<and>
        (location r e \<noteq> None \<longrightarrow> location r'' e \<noteq> None) \<and> affordance r'' e = None \<and>
        (needs r'' e = None \<longleftrightarrow> needs r e = None)" if "person r e" for e
    using keeps_personD [OF a that] keeps_personD [OF b p [OF that]] by simp
  show "aggro r e = Some x \<or> 0 \<le> aggro_score x \<and> aggro_score x \<le> 100" if "aggro r'' e = Some x" for e x
    using keeps_aggroD [OF b that] keeps_aggroD [OF a, of e x] by blast
  show "player_dialogue r e = Some p \<or> member_ok r'' n"
    if "player_dialogue r'' e = Some p" "npc_entity p = Some n" for e p n
    using keeps_talkD [OF b that] keeps_talkD [OF a _ that(2), of e] keeps_member [OF b] by blast
  show "needs_live r \<Longrightarrow> needs_live r''" by (rule keeps_liveD [OF b keeps_liveD [OF a]])
qed (use keepsD [OF a] keepsD [OF b] in simp_all)

lemma keeps_call: "keeps r r' \<Longrightarrow> call_ok r ck \<Longrightarrow> call_ok r' ck"
  using keeps_member [of r r'] by (cases "snd ck") (auto simp: call_ok_def)

definition core :: "world \<Rightarrow> world \<Rightarrow> bool" where
  "core w w' \<longleftrightarrow> (things_ok (reg w) \<longrightarrow> keeps (reg w) (reg w') \<and>
     (cells_ok (grid_reg w) \<longrightarrow> cells_ok (grid_reg w')) \<and>
     (\<exists>cs. outbox w' = outbox w @ cs \<and> (\<forall>ck\<in>set cs. call_ok (reg w') ck)))"

lemma core_refl [simp]: "core w w"
  by (auto simp: core_def keeps_refl)

lemma core_trans:
  assumes a: "core w w1" and b: "core w1 w2"
  shows "core w w2"
  unfolding core_def
proof
  assume t: "things_ok (reg w)"
  obtain cs where cs: "outbox w1 = outbox w @ cs" "\<forall>ck\<in>set cs. call_ok (reg w1) ck"
    and k: "keeps (reg w) (reg w1)" "cells_ok (grid_reg w) \<longrightarrow> cells_ok (grid_reg w1)"
    using a t unfolding core_def by blast
  have t1: "things_ok (reg w1)" by (rule keeps_things [OF k(1) t])
  obtain ds where ds: "outbox w2 = outbox w1 @ ds" "\<forall>ck\<in>set ds. call_ok (reg w2) ck"
    and l: "keeps (reg w1) (reg w2)" "cells_ok (grid_reg w1) \<longrightarrow> cells_ok (grid_reg w2)"
    using b t1 unfolding core_def by blast
  have "\<forall>ck\<in>set (cs @ ds). call_ok (reg w2) ck" using cs ds keeps_call [OF l(1)] by auto
  moreover have "outbox w2 = outbox w @ (cs @ ds)" using cs ds by simp
  ultimately show "keeps (reg w) (reg w2) \<and> (cells_ok (grid_reg w) \<longrightarrow> cells_ok (grid_reg w2)) \<and>
     (\<exists>cs. outbox w2 = outbox w @ cs \<and> (\<forall>ck\<in>set cs. call_ok (reg w2) ck))"
    using keeps_trans [OF k(1) l(1)] k(2) l(2) by blast
qed

section \<open>Single updates\<close>

lemma core_plain:
  "core w (put_toil e t w)" "core w (put_job e j w)" "core w (put_velocity e v w)"
  "core w (put_pathfinding e p w)" "core w (put_combat e c w)" "core w (put_busy e b w)"
  "core w (erase_busy e w)" "core w (put_cooldown e cd w)" "core w (put_emotion e m w)"
  "core w (put_last_synced e s w)" "core w (put_location e l w)"
  unfolding core_def by (auto intro!: keepsI simp: put_defs things_ok_def valid_def needs_live_def)

named_theorems core_rules

lemmas core_puts [core_rules] = core_plain [THEN [2] core_trans]



lemma core_cond:
  assumes c: "core w w1" and s: "things_ok (reg w) \<Longrightarrow> keeps (reg w) (reg w1) \<Longrightarrow> core w1 w2"
  shows "core w w2"
proof (cases "things_ok (reg w)")
  case True
  then have "keeps (reg w) (reg w1)" using c by (simp add: core_def)
  with core_trans [OF c s] True show ?thesis by blast
qed (simp add: core_def)

lemma core_same:
  "core w w1 \<Longrightarrow> reg w2 = reg w1 \<Longrightarrow> grid_reg w2 = grid_reg w1 \<Longrightarrow> outbox w2 = outbox w1 \<Longrightarrow> core w w2"
  by (simp add: core_def)

lemma core_fields [core_rules]:
  "core w w1 \<Longrightarrow> core w (w1\<lparr>rands := x1\<rparr>)" "core w w1 \<Longrightarrow> core w (w1\<lparr>dice := x2\<rparr>)"
  "core w w1 \<Longrightarrow> core w (w1\<lparr>disc_draws := x3\<rparr>)" "core w w1 \<Longrightarrow> core w (w1\<lparr>tcp := x4\<rparr>)"
  "core w w1 \<Longrightarrow> core w (w1\<lparr>shuffles := x5\<rparr>)" "core w w1 \<Longrightarrow> core w (w1\<lparr>contagion_dice := x6\<rparr>)"
  "core w w1 \<Longrightarrow> core w (w1\<lparr>backpressure := x7\<rparr>)" "core w w1 \<Longrightarrow> core w (w1\<lparr>contagion_ids := x8\<rparr>)"
  by (simp_all add: core_def)

text \<open>A registry update of pools the relation does not look at.\<close>

definition bystanders :: "registry \<Rightarrow> registry \<Rightarrow> bool" where
  "bystanders r r' \<longleftrightarrow> live r' = live r \<and> next_entity r' = next_entity r \<and> activity r' = activity r \<and>
     health r' = health r \<and> player_tag r' = player_tag r \<and> entity_index r' = entity_index r \<and>
     id_mapper r' = id_mapper r \<and> settings r' = settings r \<and> identity r' = identity r \<and>
     location r' = location r \<and> affordance r' = affordance r \<and> needs r' = needs r \<and> aggro r' = aggro r \<and>
     player_dialogue r' = player_dialogue r"

lemma core_bystanders: "core w w1 \<Longrightarrow> bystanders (reg w1) r \<Longrightarrow> core w (w1\<lparr>reg := r\<rparr>)"
  by (erule core_cond) (auto simp: bystanders_def core_def things_ok_def valid_def needs_live_def intro!: keepsI dest: keeps_things)

lemma core_activity [core_rules]:
  assumes "core w w1" "activity (reg w) e \<noteq> None"
  shows "core w (put_activity e a w1)"
proof (rule core_cond [OF assms(1)])
  assume "keeps (reg w) (reg w1)"
  from keepsD(1) [OF this] assms(2) have "activity (reg w1) e \<noteq> None" by (metis domIff)
  then show "core w1 (put_activity e a w1)"
    unfolding core_def by (auto intro!: keepsI simp: put_defs things_ok_def valid_def needs_live_def split: if_splits)
qed

lemma core_health [core_rules]:
  assumes "core w w1" "health (reg w) e \<noteq> None"
  shows "core w (put_health e h w1)"
proof (rule core_cond [OF assms(1)])
  assume "keeps (reg w) (reg w1)"
  from keepsD(2) [OF this] assms(2) have "health (reg w1) e \<noteq> None" by (metis domIff)
  then show "core w1 (put_health e h w1)"
    unfolding core_def by (auto intro!: keepsI simp: put_defs things_ok_def valid_def needs_live_def split: if_splits)
qed

lemma core_needs_now:
  assumes "core w w1" "needs (reg w1) e \<noteq> None"
  shows "core w (put_needs e n w1)"
proof (rule core_cond [OF assms(1)])
  have "keeps (reg w1) (reg (put_needs e n w1))" if t1: "things_ok (reg w1)"
  proof (rule keepsI)
    show "identity (reg (put_needs e n w1)) x = identity (reg w1) x \<and>
        (valid (reg w1) x \<longrightarrow> valid (reg (put_needs e n w1)) x) \<and>
        (location (reg w1) x \<noteq> None \<longrightarrow> location (reg (put_needs e n w1)) x \<noteq> None) \<and>
        affordance (reg (put_needs e n w1)) x = None \<and>
        (needs (reg (put_needs e n w1)) x = None \<longleftrightarrow> needs (reg w1) x = None)" if "person (reg w1) x" for x
      using that assms(2) t1 by (cases "x = e") (simp_all add: put_defs valid_def things_ok_def)
  qed (use assms(2) in \<open>auto simp: put_defs valid_def needs_live_def\<close>)
  then show "core w1 (put_needs e n w1)" by (simp add: core_def) (simp add: put_defs)
qed

lemma core_needs [core_rules]:
  assumes "core w w1" "needs (reg w) e \<noteq> None" "activity (reg w) e \<noteq> None"
  shows "core w (put_needs e n w1)"
proof (rule core_cond [OF assms(1)])
  assume k: "keeps (reg w) (reg w1)"
  have "person (reg w) e" using assms(3) by (simp add: person_def)
  from keeps_personD(5) [OF k this] assms(2) have "needs (reg w1) e \<noteq> None" by simp
  then show "core w1 (put_needs e n w1)" by (rule core_needs_now [OF core_refl])
qed

lemma core_affordance [core_rules]:
  assumes "core w w1" "affordance (reg w1) f \<noteq> None"
  shows "core w (put_affordance f a w1)"
proof (rule core_cond [OF assms(1)])
  show "core w1 (put_affordance f a w1)"
    unfolding core_def using assms(2)
    by (auto intro!: keepsI simp: put_defs things_ok_def valid_def needs_live_def domIff)
qed

lemma core_aggro [core_rules]:
  assumes "core w w1" "0 \<le> aggro_score a" "aggro_score a \<le> 100"
  shows "core w (put_aggro e a w1)"
proof (rule core_cond [OF assms(1)])
  show "core w1 (put_aggro e a w1)"
    unfolding core_def using assms(2,3)
    by (auto intro!: keepsI simp: put_defs things_ok_def valid_def needs_live_def split: if_splits)
qed

lemma core_call [core_rules]:
  assumes "core w w1" "things_ok (reg w) \<Longrightarrow> call_ok (reg w) (c, k)"
  shows "core w (call_rpc c k w1)"
proof (rule core_cond [OF assms(1)])
  assume t: "things_ok (reg w)" and k: "keeps (reg w) (reg w1)"
  from keeps_call [OF k assms(2) [OF t]] keeps_refl [OF keeps_things [OF k t]]
  show "core w1 (call_rpc c k w1)" by (simp add: core_def call_rpc_def)
qed

lemma UpdateEntityPosition_effect:
  "\<exists>l. fst (UpdateEntityPosition e x z (r, g)) = r \<or>
     location r e \<noteq> None \<and> fst (UpdateEntityPosition e x z (r, g)) = r\<lparr>location := (location r)(e \<mapsto> l)\<rparr>"
  by (auto simp: UpdateEntityPosition_def Let_def split: option.split prod.split)

lemma core_position [core_rules]:
  assumes "core w w1"
  shows "core w (update_position e x z w1)"
proof (rule core_cond [OF assms])
  obtain r g where rg: "UpdateEntityPosition e x z (reg w1, grid_reg w1) = (r, g)" by fastforce
  have "cells_ok (grid_reg w1) \<Longrightarrow> cells_ok g"
    using UpdateEntityPosition_ok [of "(reg w1, grid_reg w1)" e x z] rg by simp
  with UpdateEntityPosition_effect [of e x z "reg w1" "grid_reg w1"]
  show "core w1 (update_position e x z w1)"
    by (auto simp: update_position_def rg core_def things_ok_def valid_def needs_live_def intro!: keepsI)
qed

lemma core_clear_path [core_rules]: "core w w1 \<Longrightarrow> core w (clear_path e w1)"
  by (simp add: clear_path_def core_rules split: option.split)

lemma core_destroy [core_rules]:
  assumes "core w w1" "affordance (reg w1) f \<noteq> None"
  shows "core w (destroy_entity f (w1\<lparr>grid_reg := RemoveEntity f (grid_reg w1)\<rparr>))"
proof (rule core_cond [OF assms(1)])
  have "keeps (reg w1) (destroy f (reg w1))" if t: "things_ok (reg w1)"
  proof -
    have f: "\<not> person (reg w1) f" using t assms(2) by (auto simp: things_ok_def)
    then have n: "activity (reg w1) f = None" "health (reg w1) f = None" "player_tag (reg w1) f = None"
      by (simp_all add: person_def)
    have "(identity (destroy f (reg w1)) e = identity (reg w1) e \<and> (valid (reg w1) e \<longrightarrow> valid (destroy f (reg w1)) e) \<and>
        (location (reg w1) e \<noteq> None \<longrightarrow> location (destroy f (reg w1)) e \<noteq> None) \<and>
        affordance (destroy f (reg w1)) e = None \<and>
        (needs (destroy f (reg w1)) e = None \<longleftrightarrow> needs (reg w1) e = None))" if "person (reg w1) e" for e
    proof -
      have "e \<noteq> f" using that f by blast
      with t that show ?thesis by (simp add: things_ok_def destroy_def valid_def)
    qed
    with n show ?thesis
      by (intro keepsI) (auto simp: destroy_def valid_def needs_live_def split: if_splits)
  qed
  then show "core w1 (destroy_entity f (w1\<lparr>grid_reg := RemoveEntity f (grid_reg w1)\<rparr>))"
    by (simp add: core_def destroy_entity_def RemoveEntity_ok)
qed


section \<open>Loops\<close>

lemma core_foldM:
  assumes "foldM f xs w = Some w'" "\<And>x t t'. x \<in> set xs \<Longrightarrow> core w t \<Longrightarrow> f x t = Some t' \<Longrightarrow> core t t'"
  shows "core w w'"
  by (rule foldM_invariant [where I = "core w", OF core_refl assms(1)]) (use assms(2) core_trans in blast)

lemma core_view:
  assumes "view_each env P f w = Some w'"
    "\<And>e t t'. core w t \<Longrightarrow> P (reg t) e \<Longrightarrow> f e t = Some t' \<Longrightarrow> core t t'"
  shows "core w w'"
  by (rule core_foldM [OF assms(1) [unfolded view_each_def]]) (use assms(2) in \<open>auto split: if_splits\<close>)

section \<open>The behaviour trees\<close>

lemma core_spawn [core_rules]:
  assumes "core w w1"
  shows "core w (snd (spawn_camp nm a loc w1))"
proof (rule core_cond [OF assms])
  define camp where "camp = next_entity (reg w1)"
  define w2 where "w2 = put_affordance camp \<lparr>aff_type = a, occupied_by = None, is_temporary = True\<rparr>
    (put_location camp (LocationComp_default\<lparr>zone_id := zone_id loc, location_name := location_name loc,
       lc_x := lc_x loc, lc_y := lc_y loc, lc_z := lc_z loc\<rparr>)
     (put_identity camp \<lparr>npc_id = 0, display_name = nm\<rparr> (w1\<lparr>reg := snd (create (reg w1))\<rparr>)))"
  have s: "snd (spawn_camp nm a loc w1) = update_position camp (lc_x loc) (lc_z loc) w2"
    by (simp add: spawn_camp_def Let_def w2_def camp_def)
  have "keeps (reg w1) (reg w2)" if t: "things_ok (reg w1)"
  proof (rule keepsI)
    fix e
    assume p: "person (reg w1) e"
    then have "e \<noteq> camp" "affordance (reg w1) e = None" using t by (auto simp: things_ok_def camp_def)
    then show "identity (reg w2) e = identity (reg w1) e \<and> (valid (reg w1) e \<longrightarrow> valid (reg w2) e) \<and>
        (location (reg w1) e \<noteq> None \<longrightarrow> location (reg w2) e \<noteq> None) \<and> affordance (reg w2) e = None \<and>
        (needs (reg w2) e = None \<longleftrightarrow> needs (reg w1) e = None)"
      by (simp add: w2_def put_defs valid_def)
  qed (auto simp: w2_def put_defs valid_def camp_def needs_live_def)
  then have "core w1 w2" by (simp add: core_def) (simp add: w2_def put_defs)
  then show "core w1 (snd (spawn_camp nm a loc w1))" unfolding s by (rule core_position)
qed

lemma core_release: "release_furniture f w = Some w' \<Longrightarrow> core w w'"
  by (auto simp: release_furniture_def Let_def split: bind_splits if_splits intro!: core_rules)
     (simp_all add: put_defs)

text \<open>What an agent has when its tree is run.\<close>

definition acting :: "world \<Rightarrow> entity \<Rightarrow> bool" where
  "acting w e \<longleftrightarrow> activity (reg w) e \<noteq> None \<and> needs (reg w) e \<noteq> None \<and> identity (reg w) e \<noteq> None"

lemma actingD: "acting w e \<Longrightarrow> activity (reg w) e \<noteq> None" "acting w e \<Longrightarrow> needs (reg w) e \<noteq> None"
  by (simp_all add: acting_def)

lemma acting_member: "acting w e \<Longrightarrow> things_ok (reg w) \<Longrightarrow> member_ok (reg w) e"
  by (auto simp: acting_def things_ok_def member_ok_def person_def)

lemma plain_call [simp]: "call_ok r (c, KNone)" "call_ok r (c, KLog)" "call_ok r (c, KJobReport e)"
  "call_ok r (c, KPendingJobs)" "call_ok r (c, KBatchStatus b)" "call_ok r (c, KAgentStatus s i p)"
  "call_ok r (c, KPlayerMessage s nm sid p)"
  by (simp_all add: call_ok_def)

lemma core_occupy:
  assumes a: "acting w0 e" and c: "core w0 w" and r: "occupy_furniture e f w = Some (st, w')"
  shows "core w0 w'"
  using r by (auto simp: occupy_furniture_def Let_def split: bind_splits
      intro!: core_rules c actingD [OF a, simplified])

lemma core_floor:
  assumes a: "acting w0 e" and c: "core w0 w" and r: "use_floor e w = Some (st, w')"
  shows "core w0 w'"
  using r by (auto simp: use_floor_def Let_def split: bind_splits
      intro!: core_rules c actingD [OF a, simplified])

lemma core_claim:
  assumes a: "acting w e" and r: "claim_furniture env e w = Some (st, w')"
  shows "core w w'"
proof -
  have "core w (snd (spawn_camp nm k loc w))" for nm k loc by (rule core_spawn) simp
  with core_occupy [OF a] core_occupy [OF a core_refl] core_floor [OF a core_refl] r show ?thesis
    by (auto simp: claim_furniture_def split: bind_splits option.splits if_splits prod.splits) (metis snd_conv)+
qed

lemma core_finish:
  assumes a: "acting w0 e" and c: "core w0 w" and r: "finish_recovery e w = Some (st, w')"
  shows "core w0 w'"
proof -
  obtain n w1 where n: "needs (reg w) e = Some n"
    "(case occupied_furniture n of None \<Rightarrow> Some w | Some f \<Rightarrow> release_furniture f w) = Some w1"
    using r by (auto simp: finish_recovery_def split: bind_splits)
  then have "core w w1" using core_release by (auto split: option.splits)
  with c have c1: "core w0 w1" by (rule core_trans)
  show ?thesis using r
    by (auto simp: finish_recovery_def n Let_def split: bind_splits
        intro!: core_rules c1 actingD [OF a, simplified])
qed

lemma core_interact:
  assumes a: "acting w e" and r: "ActionInteractFurniture_Tick env e w = Some (st, w')"
  shows "core w w'"
proof -
  have "core w (put_needs e n w)" for n by (rule core_needs [OF core_refl actingD(2,1) [OF a]])
  note p = this
  show ?thesis using r
    by (auto simp: ActionInteractFurniture_Tick_def Let_def split: bind_splits if_splits
        intro: p core_claim [OF a] core_finish [OF a p])
qed

lemmas leaf_defs = ConditionIsHungry_Tick_def ConditionIsFatigued_Tick_def ConditionIsScheduledEat_Tick_def
  ConditionIsScheduledSleep_Tick_def ActionMoveToTarget_Tick_def ConditionIsLowHealth_Tick_def
  ConditionCanWander_Tick_def ConditionIsAggroHigh_Tick_def ConditionHasCombatTarget_Tick_def

lemma core_leaf1:
  assumes a: "acting w e"
  shows "ConditionIsHungry_Tick e w = Some (st, w') \<Longrightarrow> core w w'"
    "ConditionIsFatigued_Tick e w = Some (st, w') \<Longrightarrow> core w w'"
    "ConditionIsScheduledEat_Tick e w = Some (st, w') \<Longrightarrow> core w w'"
    "ConditionIsScheduledSleep_Tick e w = Some (st, w') \<Longrightarrow> core w w'"
    "ActionMoveToTarget_Tick e w = Some (st, w') \<Longrightarrow> core w w'"
    "ConditionIsLowHealth_Tick e w = Some (st, w') \<Longrightarrow> core w w'"
    "ConditionCanWander_Tick e w = Some (st, w') \<Longrightarrow> core w w'"
    "ConditionIsAggroHigh_Tick e w = Some (st, w') \<Longrightarrow> core w w'"
    "ConditionHasCombatTarget_Tick e w = Some (st, w') \<Longrightarrow> core w w'"
  by (auto simp: leaf_defs Let_def split: bind_splits option.splits if_splits
      intro!: core_rules actingD [OF a, simplified])

lemma core_find:
  assumes a: "acting w e" and r: "ActionFindFurniture_Tick env e w = Some (st, w')"
  shows "core w w'"
  using r by (auto simp: ActionFindFurniture_Tick_def Let_def split: bind_splits option.splits if_splits prod.splits
      intro!: core_rules actingD [OF a, simplified])

lemma core_flee:
  assumes a: "acting w e" and r: "ActionFlee_Tick env e w = Some (st, w')"
  shows "core w w'"
proof -
  have d: "core w (snd (flee_direction dx dz w))" for dx dz
    by (auto simp: flee_direction_def draw_rand_def Let_def intro!: core_rules)
  then show ?thesis using r
    by (auto simp: ActionFlee_Tick_def Let_def split: bind_splits option.splits if_splits prod.splits
      intro!: core_rules actingD [OF a, simplified]) (metis snd_conv)+
qed

lemma wander_target_rands: "\<exists>f. snd (wander_target env loc k w) = w\<lparr>rands := f\<rparr>"
proof (induction env loc k w rule: wander_target.induct)
  case (1 env loc w)
  show ?case by (rule exI [of _ "rands w"]) simp
next
  case (2 env loc k w)
  have "\<exists>f. w\<lparr>rands := g\<rparr> = w\<lparr>rands := f\<rparr>" for g by blast
  with 2 show ?case by (auto simp: draw_rand_def Let_def)
qed

lemma core_wander_target: "core w (snd (wander_target env loc k w))"
  using wander_target_rands [of env loc k w] core_fields(1) [OF core_refl] by metis

lemma core_wander:
  assumes a: "acting w e" and r: "ActionWander_Tick env e w = Some (st, w')"
  shows "core w w'"
proof -
  have d: "core w w2" if "wander_target env loc k (w\<lparr>rands := f\<rparr>) = (t, w2)" for loc k f t w2
    using core_trans [OF core_fields(1) [OF core_refl] core_wander_target] that by (metis snd_conv)
  show ?thesis using r
    by (auto simp: ActionWander_Tick_def draw_rand_def Let_def split: bind_splits option.splits if_splits prod.splits
      intro!: core_rules actingD [OF a, simplified] intro: d)
qed

lemma core_inhibit:
  assumes a: "acting w e" and i: "aggro_ok (reg w)" and r: "ActionInhibitOrAttack_Tick e w = Some (st, w')"
  shows "core w w'"
proof -
  have k: "things_ok (reg w) \<Longrightarrow> call_ok (reg w) (c, KThreat e x)" for c x
    using acting_member [OF a] by (simp add: call_ok_def)
  have g: "aggro (reg w) e = Some x \<Longrightarrow> 0 \<le> aggro_score x \<and> aggro_score x \<le> 100" for x
    using i by (auto simp: aggro_ok_def)
  show ?thesis using r k
    by (auto simp: ActionInhibitOrAttack_Tick_def Let_def dest: g
      split: bind_splits option.splits if_splits prod.splits intro!: core_rules actingD [OF a, simplified])
qed

lemma core_strike:
  assumes a: "acting w0 e" and t: "health (reg w0) tgt \<noteq> None" and c: "core w0 w"
    and r: "melee_strike e cb ident tgt th ti w = Some (st, w')"
  shows "core w0 w'"
proof -
  have "core w0 (melee_hit e cb ident tgt h ti w)" for h
    by (auto simp: melee_hit_def Let_def t [simplified] intro!: core_rules c actingD [OF a, simplified])
  then have "core w0 (melee_retaliate e tgt (melee_hit e cb ident tgt h ti w))" for h
    by (simp add: melee_retaliate_def core_rules split: option.split)
  then show ?thesis using r t
    by (auto simp: melee_strike_def Let_def split: bind_splits if_splits intro!: core_rules)
qed

lemma core_melee:
  assumes a: "acting w e" and r: "ActionMeleeAttack_Tick e w = Some (st, w')"
  shows "core w w'"
proof -
  have s: "core w (melee_stop e t w)" for t
    by (simp add: melee_stop_def Let_def core_rules split: option.split)
  have h: "core w (melee_chase e j t tl ti w)" for j t tl ti
    by (auto simp: melee_chase_def Let_def intro!: core_rules actingD [OF a, simplified])
  show ?thesis using r h
    by (auto simp: ActionMeleeAttack_Tick_def Let_def split: bind_splits option.splits if_splits
      intro!: core_rules s actingD [OF a, simplified] intro: core_strike [OF a _ s, rotated])
qed


lemma core_keeps: "core w w' \<Longrightarrow> things_ok (reg w) \<Longrightarrow> keeps (reg w) (reg w')"
  by (simp add: core_def)

lemma core_things: "core w w' \<Longrightarrow> things_ok (reg w) \<Longrightarrow> things_ok (reg w')"
  by (rule keeps_things [OF core_keeps])

lemma core_aggro_ok: "core w w' \<Longrightarrow> things_ok (reg w) \<Longrightarrow> aggro_ok (reg w) \<Longrightarrow> aggro_ok (reg w')"
  unfolding aggro_ok_def by (metis core_keeps keeps_aggroD)

lemma core_acting:
  assumes c: "core w w'" and t: "things_ok (reg w)" and a: "acting w e"
  shows "acting w' e"
proof -
  note k = core_keeps [OF c t]
  have p: "person (reg w) e" using a by (simp add: acting_def person_def)
  have "activity (reg w') e \<noteq> None" using a keepsD(1) [OF k] unfolding acting_def by (metis domIff)
  with keeps_personD(1,5) [OF k p] a show ?thesis by (simp add: acting_def)
qed

definition tree_ready :: "entity \<Rightarrow> world \<Rightarrow> bool" where
  "tree_ready e w \<longleftrightarrow> things_ok (reg w) \<and> acting w e \<and> aggro_ok (reg w)"

lemma tree_ready_core: "core w w' \<Longrightarrow> tree_ready e w \<Longrightarrow> tree_ready e w'"
  using core_things core_acting core_aggro_ok by (auto simp: tree_ready_def)

lemma core_leaf: "tree_ready e w \<Longrightarrow> leaf_tick env l e w = Some (st, w') \<Longrightarrow> core w w'"
  using core_leaf1 core_find core_interact core_flee core_wander core_inhibit core_melee
  by (cases l) (auto simp: leaf_tick_def tree_ready_def)

definition leaves_core :: "entity \<Rightarrow> (bt_leaf \<Rightarrow> world \<Rightarrow> bt_tick) \<Rightarrow> bool" where
  "leaves_core e f \<longleftrightarrow> (\<forall>l w st w'. tree_ready e w \<longrightarrow> f l w = Some (st, w') \<longrightarrow> core w w')"

lemma core_run:
  "leaves_core e f \<Longrightarrow> tree_ready e w \<Longrightarrow> bt_run f t w = Some (st, w') \<Longrightarrow> core w w'"
  "leaves_core e f \<Longrightarrow> tree_ready e w \<Longrightarrow> selector_run f ts w = Some (st, w') \<Longrightarrow> core w w'"
  "leaves_core e f \<Longrightarrow> tree_ready e w \<Longrightarrow> sequence_run f ts w = Some (st, w') \<Longrightarrow> core w w'"
proof (induction f t w and f ts w and f ts w arbitrary: st w' and st w' and st w' rule: bt_run_selector_run_sequence_run.induct)
  case (1 f l w)
  then show ?case by (simp add: leaves_core_def)
next
  case (4 f c w)
  then show ?case by (auto split: option.splits NodeStatus.splits)
next
  case (6 f c cs w)
  then obtain st1 w1 where r: "bt_run f c w = Some (st1, w1)" by (auto split: option.splits)
  have c: "core w w1" by (rule "6.IH"(1) [OF "6.prems"(1,2) r])
  show ?case
  proof (cases "st1 = StFailure")
    case True
    with 6 r have "core w1 w'" using tree_ready_core [OF c] by simp
    with c show ?thesis by (rule core_trans)
  qed (use 6 r c in simp)
next
  case (8 f c cs w)
  then obtain st1 w1 where r: "bt_run f c w = Some (st1, w1)" by (auto split: option.splits)
  have c: "core w w1" by (rule "8.IH"(1) [OF "8.prems"(1,2) r])
  show ?case
  proof (cases "st1 = StSuccess")
    case True
    with 8 r have "core w1 w'" using tree_ready_core [OF c] by simp
    with c show ?thesis by (rule core_trans)
  qed (use 8 r c in simp)
qed simp_all

lemma core_trees:
  assumes r: "SystemBehaviorTree env w = Some w'" and i: "bt_inv (reg w)" and g: "aggro_ok (reg w)"
  shows "core w w'"
proof (cases "things_ok (reg w)")
  case t: True
  have "core w w' \<and> bt_inv (reg w')"
    using r unfolding SystemBehaviorTree_def view_each_def
  proof (rule foldM_invariant [where I = "\<lambda>v. core w v \<and> bt_inv (reg v)", rotated])
    fix e v v'
    assume v: "core w v \<and> bt_inv (reg v)" and s: "(if has (behavior_tree (reg v)) e
      then case behavior_tree (reg v) e of Some (Some t) \<Rightarrow> if has (busy (reg v)) e then Some v
             else map_option snd (bt_tick_entity env t e v) | _ \<Rightarrow> Some v
      else Some v) = Some v'"
    show "core w v' \<and> bt_inv (reg v')"
    proof (cases "v' = v")
      case False
      then obtain tr st where tr: "behavior_tree (reg v) e = Some (Some tr)" "bt_tick_entity env tr e v = Some (st, v')"
        using s by (auto split: option.splits if_splits)
      have "agent (reg v) e" using v tr by (auto simp: bt_inv_def)
      then have "tree_ready e v"
        using core_things [of w v] core_aggro_ok [of w v] t g v by (auto simp: tree_ready_def acting_def agent_def)
      moreover have "leaves_core e (\<lambda>l w. leaf_tick env l e w)"
        unfolding leaves_core_def using core_leaf by blast
      ultimately have "core v v'" using core_run(1) tr(2) unfolding bt_tick_entity_def by blast
      with v SystemBehaviorTree_step [of v e tr env] tr core_trans [of w v v'] show ?thesis by auto
    qed (use v in simp)
  qed (use i in simp)
  then show ?thesis ..
qed (simp add: core_def)

section \<open>The other systems of a frame\<close>

lemma core_stop: "core w w1 \<Longrightarrow> core w (stop_velocity e w1)"
  by (simp add: stop_velocity_def core_rules split: option.split)

lemma core_ambient: "SystemBusyAmbient env dur w = Some w' \<Longrightarrow> core w w'"
  unfolding SystemBusyAmbient_def
  by (erule core_view) (auto simp: ambient_tick_def Let_def split: bind_splits prod.splits intro!: core_rules)

lemma update_aggro_score:
  "0 \<le> snd best \<Longrightarrow> 0 \<le> aggro_score a \<and> aggro_score a \<le> 100 \<Longrightarrow>
     0 \<le> aggro_score (update_aggro best a) \<and> aggro_score (update_aggro best a) \<le> 100"
  by (auto simp: update_aggro_def Let_def split: option.splits)

lemma best_threat_nonneg: "0 \<le> snd (best_threat r e m ns)"
proof -
  have "0 \<le> snd b \<Longrightarrow> 0 \<le> snd (fold (consider_threat r e m) ns b)" for b
  proof (induction ns arbitrary: b)
    case (Cons n ns)
    have "0 \<le> snd (consider_threat r e m n b)"
      using Cons.prems threat_gain_bounds [of r e m] by (auto simp: consider_threat_def Let_def split: option.splits)
    with Cons.IH show ?case by simp
  qed simp
  then show ?thesis by (simp add: best_threat_def)
qed

lemma perceive_score:
  "0 \<le> aggro_score a \<and> aggro_score a \<le> 100 \<Longrightarrow>
     0 \<le> aggro_score (perceive r g e a loc m) \<and> aggro_score (perceive r g e a loc m) \<le> 100"
  using update_aggro_score [OF best_threat_nonneg] by (simp add: perceive_def)

lemma core_perception:
  assumes r: "SystemPerception env w = Some w'" and g: "aggro_ok (reg w)"
  shows "core w w'"
proof (cases "things_ok (reg w)")
  case True
  show ?thesis
    using r unfolding SystemPerception_def
  proof (rule core_view)
    fix e t t'
    assume c: "core w t" and s: "perception_tick e t = Some t'"
    have "aggro_ok (reg t)" by (rule core_aggro_ok [OF c True g])
    with s perceive_score show "core t t'"
      by (auto simp: perception_tick_def aggro_ok_def split: bind_splits intro!: core_rules)
  qed
qed (simp add: core_def)

lemma core_death: "SystemDeath env w = Some w' \<Longrightarrow> core w w'"
  unfolding SystemDeath_def
proof (erule core_view)
  fix e t t'
  assume "do { h \<leftarrow> health (reg t) e; Some (if is_dead h then bury e t else t) } = Some t'"
  then have t': "t' = t \<or> t' = bury e t" by (auto split: bind_splits if_splits)
  have b: "core t (erase_tree e v)" if "core t v" for v
    unfolding erase_tree_def by (rule core_bystanders [OF that]) (simp add: bystanders_def)
  have "core t (show_dead e v)" if "core t v" for v
  proof (cases "activity (reg v) e")
    case None
    with that show ?thesis by (simp add: show_dead_def)
  next
    case (Some a)
    have "core v (show_dead e v)" by (simp add: show_dead_def Some core_rules)
    with that show ?thesis by (rule core_trans)
  qed
  note s = this
  have "core t (bury e t)"
    unfolding bury_def
    by (rule b, simp add: drop_target_def core_rules s split: option.split, intro conjI allI impI)
      (auto simp: drop_waypoints_def halt_toil_def split: option.split intro!: core_rules s core_stop)
  with t' show "core t t'" by auto
qed


text \<open>The same rules for what is read in the current world.\<close>

lemma core_activity_now: "core w w1 \<Longrightarrow> activity (reg w1) e \<noteq> None \<Longrightarrow> core w (put_activity e a w1)"
  by (rule core_trans [OF _ core_activity [OF core_refl]])

lemma core_survival: "SystemSurvivalOverride env w = Some w' \<Longrightarrow> core w w'"
  unfolding SystemSurvivalOverride_def
  by (erule core_view) (auto split: bind_splits intro!: core_needs_now)

lemma core_set_speed [core_rules]: "core w w1 \<Longrightarrow> core w (set_speed e w1)"
  by (simp add: set_speed_def core_rules)

lemma core_give_up [core_rules]: "core w w1 \<Longrightarrow> core w (give_up e t p w1)"
  by (simp add: give_up_def core_rules core_stop)

lemma core_take_path [core_rules]: "core w w1 \<Longrightarrow> core w (take_path e loc t res p w1)"
  by (simp add: take_path_def Let_def core_rules)

lemma core_pathfind:
  assumes "pathfind_agent env tie e (w, n) = Some (w', n')"
  shows "core w w'"
proof -
  have r: "core w w1" if "resolve_target env m e j w = (x, z, w1)" for m j x z w1
    using that by (auto simp: resolve_target_def draw_disc_def Let_def split: if_splits prod.splits intro!: core_rules)
  show ?thesis
    using assms by (auto simp: pathfind_agent_def plan_path_def seek_directly_def Let_def
        split: bind_splits if_splits prod.splits intro!: core_rules dest!: r)
qed

lemma core_pathfinding:
  assumes "SystemPathfinding env tie (w, n) = Some (w', n')"
  shows "core w w'"
proof -
  have "core w (fst (w', n'))"
    using assms unfolding SystemPathfinding_def
  proof (rule foldM_invariant [where I = "\<lambda>s. core w (fst s)", rotated])
    fix e and s s' :: "world \<times> nav_state"
    assume c: "core w (fst s)" and r: "(let r = reg (fst s)
                   in if has (job r) e \<and> has (toil r) e \<and> has (location r) e
                      then pathfind_agent env tie e s else Some s) = Some s'"
    have "core (fst s) (fst s')"
      using r core_pathfind [of env tie e "fst s" "snd s" "fst s'" "snd s'"] by (simp add: Let_def split: if_splits)
    with c show "core w (fst s')" by (rule core_trans)
  qed simp
  then show ?thesis by simp
qed

lemma core_arrive: "core w0 w \<Longrightarrow> arrive e loc t p v j w = Some w' \<Longrightarrow> core w0 w'"
  by (auto simp: arrive_def Let_def split: bind_splits intro!: core_rules core_activity_now)

lemma core_move_to [core_rules]: "core w w1 \<Longrightarrow> core w (move_to e loc x z w1)"
  by (simp add: move_to_def core_rules)

lemma core_movement: "SystemMovement env m w = Some w' \<Longrightarrow> core w w'"
  unfolding SystemMovement_def
proof (erule core_view)
  fix e t t'
  assume "move_agent m e t = Some t'"
  then show "core t t'"
    by (auto simp: move_agent_def move_direct_def move_on_path_def Let_def
        split: bind_splits if_splits prod.splits intro!: core_rules intro: core_arrive [OF core_refl])
qed

lemma core_return: "return_furniture f w = Some w' \<Longrightarrow> core w w'"
  by (auto simp: return_furniture_def Let_def split: bind_splits option.splits if_splits intro!: core_rules)
     (simp_all add: put_defs)

lemma core_resolver: "SystemAffordanceResolver env w = Some w' \<Longrightarrow> core w w'"
proof -
  assume "SystemAffordanceResolver env w = Some w'"
  then obtain w1 where 1: "fix_occupants env w = Some w1"
    and 2: "view_each env (\<lambda>r e. has (needs r) e \<and> has (toil r) e \<and> has (job r) e) resolve_affordance w1 = Some w'"
    by (auto simp: SystemAffordanceResolver_def split: bind_splits)
  have "core w w1"
    using 1 unfolding fix_occupants_def by (rule core_view) (auto split: bind_splits if_splits intro!: core_rules)
  moreover have "core w1 w'"
    using 2 by (rule core_view)
      (auto simp: resolve_affordance_def split: bind_splits option.splits if_splits
        intro!: core_needs_now dest!: core_return)
  ultimately show ?thesis by (rule core_trans)
qed

lemma core_broadcast: "broadcast env pid m w = Some w' \<Longrightarrow> core w w'"
  by (auto simp: broadcast_def intro!: core_rules)

lemma core_send: "send_to_client env i pid m w = Some w' \<Longrightarrow> core w w'"
  by (auto simp: send_to_client_def intro!: core_rules)

section \<open>The systems of a synchronised tick\<close>

lemma core_delta: "apply_delta d w = Some w' \<Longrightarrow> core w w'"
  by (auto simp: apply_delta_def bystanders_def split: bind_splits option.splits if_splits intro!: core_bystanders)

lemma core_cached_ids: "cached_ids w er = (ids, w') \<Longrightarrow> core w w'"
proof -
  assume c: "cached_ids w er = (ids, w')"
  have "core w ((w\<lparr>contagion_ids := i\<rparr>)\<lparr>reg := (reg w)\<lparr>emotion_registry := Some er2\<rparr>\<rparr>)" for i er2
    by (rule core_bystanders) (auto simp: bystanders_def intro!: core_rules)
  with c show ?thesis by (auto simp: cached_ids_def Let_def split: option.splits prod.splits)
qed

lemma core_contagion: "contagion e neg emo w = Some w' \<Longrightarrow> core w w'"
  by (auto simp: contagion_def draw_contagion_def Let_def split: bind_splits if_splits prod.splits
      intro!: core_rules dest!: core_cached_ids)

lemma core_emotions: "SystemEmotionDecay env w = Some w' \<Longrightarrow> core w w'"
proof (cases "emotion_registry (reg w)")
  case (Some er)
  assume r: "SystemEmotionDecay env w = Some w'"
  show ?thesis
    using r unfolding SystemEmotionDecay_def Some option.case Let_def
  proof (rule core_view)
    fix e t t'
    assume s: "emotion_tick (zone_negative_emotions env er (reg w)) e t = Some t'"
    have p: "core t (put_emotion e m t)" for m by (rule core_plain)
    from s show "core t t'"
      by (auto simp: emotion_tick_def Let_def p split: bind_splits option.splits if_splits
          dest!: core_contagion intro: core_trans [OF p])
  qed
qed (simp add: SystemEmotionDecay_def)

lemma core_refresh: "refresh_cooldowns env w = Some w' \<Longrightarrow> core w w'"
  unfolding refresh_cooldowns_def by (erule core_view) (auto split: bind_splits intro!: core_rules)

lemma core_jobs: "SystemJobDriver env tick w = Some w' \<Longrightarrow> core w w'"
  unfolding SystemJobDriver_def
proof (erule core_view)
  fix e t t'
  assume r: "job_tick tick e t = Some t'"
  then obtain a where a: "activity (reg t) e = Some a" by (auto simp: job_tick_def split: bind_splits)
  have e: "core t (start_job e loc j tt v)" if "core t v" for loc j tt v
    using that a by (auto simp: start_job_def prepare_expedition_def split: option.split
        intro!: core_rules core_needs_now)
  have wk: "core t (work_job tick e ident j tt v)" if "core t v" for ident j tt v
    using that a by (auto simp: work_job_def Let_def intro!: core_rules)
  have it: "core t (interrupt_job tick e ident j tt v)" if "core t v" for ident j tt v
    using that a by (auto simp: interrupt_job_def Let_def intro!: core_rules)
  have dr: "core t (drive_job tick e loc ident j tt v)" if "core t v" for loc ident j tt v
    using that a by (auto simp: drive_job_def Let_def split: ToilState.split intro!: core_rules e wk)
  from r show "core t t'"
    by (auto simp: job_tick_def Let_def split: bind_splits if_splits intro!: core_rules it dr)
qed


lemma core_social:
  assumes r: "SystemSocialInteraction env tick w = Some w'"
    and e: "social_env env" "cells_ok (grid_reg w)" "speakers_known (reg w)"
  shows "core w w'"
proof -
  obtain gs where t: "talks_started tick w gs w'"
    using SystemSocialInteraction_total [OF e, of tick] r by auto
  then obtain c where c: "reg w' = (set_talking (members gs) (reg w))\<lparr>cooldown := c\<rparr>"
    and o: "outbox w' = outbox w @ List.map (dialogue_call (reg w) tick) gs" "grid_reg w' = grid_reg w"
    by (auto simp: talks_started_def)
  have m: "activity (reg w) x \<noteq> None \<and> identity (reg w) x \<noteq> None" if "gp \<in> set gs" "x \<in> set (fst gp)" for gp x
    using t that by (auto simp: talks_started_def group_ok_def free_speaker_def)
  have act: "x \<in> members gs \<Longrightarrow> activity (reg w) x \<noteq> None" for x using m by (auto simp: members_def)
  have d: "dom (activity (reg w')) = dom (activity (reg w))"
    using act by (auto simp: c set_talking_def split: if_splits)
  have "core w w'"
    unfolding core_def
  proof (intro impI conjI)
    assume th: "things_ok (reg w)"
    have k: "keeps (reg w) (reg w')"
      by (rule keepsI [OF d]) (use th in \<open>simp_all add: c set_talking_def valid_def things_ok_def needs_live_def\<close>)
    then show "keeps (reg w) (reg w')" .
    have "call_ok (reg w) (dialogue_call (reg w) tick gp)" if "gp \<in> set gs" for gp
    proof -
      have "member_ok (reg w) x" if "x \<in> set (fst gp)" for x
        using m [OF \<open>gp \<in> set gs\<close> that] th by (simp add: member_ok_def things_ok_def person_def)
      then show ?thesis by (simp add: dialogue_call_def call_ok_def)
    qed
    then show "\<exists>cs. outbox w' = outbox w @ cs \<and> (\<forall>ck\<in>set cs. call_ok (reg w') ck)"
      using keeps_call [OF k] o(1) by auto
  qed (simp add: o)
  then show ?thesis .
qed

lemma core_sync: "core w (SystemNetworkSync env w)"
  by (auto simp: SystemNetworkSync_def Let_def intro!: core_rules)

section \<open>Answers\<close>

lemma core_threat:
  assumes "on_threat e target success code w = Some w'" "aggro_ok (reg w)"
  shows "core w w'"
proof -
  have "aggro (reg w) e = Some a \<Longrightarrow> 0 \<le> aggro_score a \<and> aggro_score a \<le> 100" for a
    using assms(2) by (auto simp: aggro_ok_def)
  with assms(1) show ?thesis
    by (auto simp: on_threat_def calm_down_def Let_def split: bind_splits option.splits if_splits intro!: core_rules)
qed

lemma core_fold:
  "(\<And>x t. x \<in> set xs \<Longrightarrow> core t (f x t)) \<Longrightarrow> core w (fold f xs w)"
proof (induction xs arbitrary: w)
  case (Cons x xs)
  have "core w (f x w)" "core (f x w) (fold f xs (f x w))" using Cons by simp_all
  then show ?case using core_trans by simp
qed simp

lemma core_apply_emotion: "core w (apply_emotion idx u w)"
proof -
  have "core w (put_emotion e m (w\<lparr>reg := (reg w)\<lparr>emotion_registry := er\<rparr>\<rparr>))" for e m er
    by (rule core_puts, rule core_bystanders) (simp_all add: bystanders_def)
  then show ?thesis
    by (auto simp: apply_emotion_def Let_def split: option.split prod.split intro!: core_rules)
qed

lemma core_apply_job: "apply_job env idx p w = Some w' \<Longrightarrow> core w w'"
  by (auto simp: apply_job_def draw_disc_def Let_def split: bind_splits option.splits prod.splits intro!: core_rules)

lemma core_take_job: "core w (take_job env idx p w)"
proof -
  have e: "core w (end_schedule_wait e v)" if "core w v" for e v
    using that by (auto simp: end_schedule_wait_def split: option.split intro!: core_rules)
  then show ?thesis
    by (auto simp: take_job_def draw_disc_def Let_def split: option.split prod.split intro!: core_rules e)
qed

lemma core_pending_jobs: "on_pending_jobs env success jobs w = Some w' \<Longrightarrow> core w w'"
  using core_fold [of jobs "take_job env idx" w for idx, OF core_take_job]
  by (auto simp: on_pending_jobs_def split: if_splits)

lemma core_job_report: "core w (on_job_report e success has_new p w)"
  by (auto simp: on_job_report_def split: option.split intro!: core_rules)

lemma core_batch: "core w (on_batch_status success b w)"
proof -
  have "core t (record_synced x t)" for x t by (auto simp: record_synced_def split: prod.split intro!: core_rules)
  then show ?thesis by (simp add: on_batch_status_def core_fold)
qed

lemma core_eavesdrop: "core w (eavesdrop grp source c res e w)"
  by (auto simp: eavesdrop_def Let_def split: prod.split option.split intro!: core_rules)

lemma core_dialogue:
  assumes "on_dialogue env grp tick zone success res w = Some w'"
  shows "core w w'"
proof -
  have fin: "finish_speaker tick grp e t = Some t' \<Longrightarrow> core t t'" for e t t'
    by (auto simp: finish_speaker_def Let_def split: if_splits bind_splits intro!: core_rules)
  have rel: "release_speaker e t = Some t' \<Longrightarrow> core t t'" for e t t'
    by (auto simp: release_speaker_def split: if_splits option.splits intro!: core_rules)
  have res: "apply_result env res t = Some t' \<Longrightarrow> core t t'" for t t'
  proof -
    assume a: "apply_result env res t = Some t'"
    show ?thesis
    proof (cases "entity_index (reg t)")
      case (Some idx)
      have "core t (fold (apply_emotion idx) (dr_emotions res) t)" by (rule core_fold) (rule core_apply_emotion)
      moreover have "core (fold (apply_emotion idx) (dr_emotions res) t) t'"
        using a by (auto simp: apply_result_def Some intro: core_foldM dest: core_apply_job)
      ultimately show ?thesis by (rule core_trans)
    qed (use a in \<open>simp add: apply_result_def\<close>)
  qed
  have eav: "eavesdropping grp res t = Some t' \<Longrightarrow> core t t'" for t t'
    by (auto simp: eavesdropping_def Let_def split: if_splits bind_splits prod.splits
        intro!: core_fold core_eavesdrop)
  have fins: "foldM (finish_speaker tick grp) xs t = Some t' \<Longrightarrow> core t t'" for xs t t'
    by (erule core_foldM) (rule fin)
  have rels: "foldM release_speaker xs t = Some t' \<Longrightarrow> core t t'" for xs t t'
    by (erule core_foldM) (rule rel)
  show ?thesis
  proof (cases "success \<and> dr_success res \<and> (\<forall>e\<in>set grp. valid (reg w) e)")
    case True
    then obtain w1 w2 w3 where "core w w1" "core w1 w2" "core w2 w3" "core w3 w'"
      using assms
      by (auto simp: on_dialogue_def split: if_splits bind_splits dest!: core_broadcast res eav fins)
    then show ?thesis using core_trans by blast
  next
    case False
    with assms rels show ?thesis by (auto simp: on_dialogue_def split: if_splits)
  qed
qed

section \<open>Players\<close>

text \<open>The NPC a player talks to.\<close>

definition talks_ok :: "registry \<Rightarrow> bool" where
  "talks_ok r \<longleftrightarrow> (\<forall>e p n. player_dialogue r e = Some p \<longrightarrow> npc_entity p = Some n \<longrightarrow> member_ok r n)"

lemma core_talks_ok: "core w w' \<Longrightarrow> things_ok (reg w) \<Longrightarrow> talks_ok (reg w) \<Longrightarrow> talks_ok (reg w')"
  unfolding talks_ok_def using core_keeps keeps_talkD keeps_member by blast

lemma core_player_dialogue [core_rules]:
  assumes "core w w1" "\<And>n. npc_entity d = Some n \<Longrightarrow> member_ok (reg w) n"
  shows "core w (put_player_dialogue e d w1)"
proof (rule core_cond [OF assms(1)])
  assume k: "keeps (reg w) (reg w1)"
  let ?r = "reg (put_player_dialogue e d w1)"
  have m: "member_ok ?r n \<longleftrightarrow> member_ok (reg w1) n" for n by (simp add: member_ok_def put_defs valid_def)
  have "keeps (reg w1) ?r" if "things_ok (reg w1)"
  proof (rule keepsI)
    show "player_dialogue (reg w1) x = Some p \<or> member_ok ?r n"
      if "player_dialogue ?r x = Some p" "npc_entity p = Some n" for x p n
      using that keeps_member [OF k assms(2)] unfolding m by (auto simp: put_defs split: if_splits)
  qed (use that in \<open>simp_all add: put_defs valid_def things_ok_def needs_live_def\<close>)
  then show "core w1 (put_player_dialogue e d w1)" by (simp add: core_def) (simp add: put_defs)
qed

lemma core_erase_dialogue [core_rules]: "core w w1 \<Longrightarrow> core w (erase_player_dialogue e w1)"
  by (erule core_cond) (auto simp: core_def erase_player_dialogue_def valid_def things_ok_def needs_live_def intro!: keepsI split: if_splits)

lemma core_free_npc: "free_npc npc w = Some w' \<Longrightarrow> core w w'"
  by (auto simp: free_npc_def split: option.splits if_splits intro!: core_rules)

lemma core_started:
  assumes "on_player_dialogue_started env success sid greeting session nm npc p w = Some w'" "member_ok (reg w) npc"
  shows "core w w'"
proof (cases success)
  case True
  define put where "put v = (if valid (reg v) p
    then put_player_dialogue p \<lparr>pd_session_id = sid, npc_entity = Some npc\<rparr> v else v)" for v
  have p: "core w (put v)" if "core w v" for v
    using that assms(2) by (auto simp: put_def intro!: core_rules)
  define first where "first = (if \<not> valid (reg w) npc then Some w
      else case activity (reg w) npc of None \<Rightarrow> ub | Some _ \<Rightarrow> Some (put_activity npc lit_with_player w))"
  have "first \<bind> (\<lambda>w1. send_to_client env session SC_NPC_REPLY
      (NpcReplyMsg \<lparr>nr_session_id = sid, nr_npc_name = nm, nr_reply_text = greeting\<rparr>) (put w1)) = Some w'"
    using assms(1) unfolding on_player_dialogue_started_def if_P [OF True] put_def Let_def first_def .
  then obtain w1 where 1: "first = Some w1" and s: "send_to_client env session SC_NPC_REPLY
      (NpcReplyMsg \<lparr>nr_session_id = sid, nr_npc_name = nm, nr_reply_text = greeting\<rparr>) (put w1) = Some w'"
    by (cases first) simp_all
  have "core w w1" using 1 by (auto simp: first_def split: if_splits option.splits intro!: core_rules)
  from core_trans [OF p [OF this] core_send [OF s]] show ?thesis .
next
  case False
  with assms(1) show ?thesis
    by (auto simp: on_player_dialogue_started_def split: bind_splits if_splits intro!: core_rules dest!: core_free_npc)
qed

lemma core_message: "on_player_message env success reply session nm sid w = Some w' \<Longrightarrow> core w w'"
  by (auto simp: on_player_message_def split: if_splits dest: core_send)

lemma core_ended: "on_player_dialogue_ended npc player w = Some w' \<Longrightarrow> core w w'"
  by (auto simp: on_player_dialogue_ended_def split: bind_splits option.splits if_splits
      intro!: core_rules dest!: core_free_npc)

lemma core_status: "on_agent_status env success s session i w = Some w' \<Longrightarrow> core w w'"
  by (auto simp: on_agent_status_def intro!: core_rules)

lemma core_counted:
  assumes "core w w1" "\<And>s. things_ok (reg w) \<Longrightarrow> call_ok (reg w) (c, k s)"
  shows "core w (counted_call session c k w1)"
  using assms by (auto simp: counted_call_def increment_pending_def Let_def split: option.split intro!: core_rules)

lemma core_talk:
  assumes "handle_talk session i w = Some w'"
  shows "core w w'"
proof -
  have b: "core w w'" if r: "begin_talk session i p n pi ni w = Some w'" and n: "identity (reg w) n \<noteq> None" for p n pi ni w'
  proof -
    from r obtain act where a: "activity (reg w) n = Some act" by (auto simp: begin_talk_def split: bind_splits)
    have "things_ok (reg w) \<Longrightarrow> member_ok (reg w) n" using a n by (simp add: member_ok_def things_ok_def person_def)
    then have "things_ok (reg w) \<Longrightarrow> call_ok (reg w) (c, KPlayerDialogueStarted session nm n p s)" for c nm s
      by (simp add: call_ok_def)
    with r a show ?thesis by (auto simp: begin_talk_def Let_def split: bind_splits intro!: core_counted core_rules)
  qed
  show ?thesis using assms by (auto simp: handle_talk_def split: bind_splits option.splits if_splits intro: b)
qed

lemma core_end:
  assumes "handle_end session sid w = Some w'" "talks_ok (reg w)"
  shows "core w w'"
proof -
  have "call_ok (reg w) (c, KPlayerDialogueEnded (player_talk (reg w) p) p s)" for c p s
    using assms(2) by (auto simp: call_ok_def player_talk_def talks_ok_def split: option.splits)
  with assms(1) show ?thesis by (auto simp: handle_end_def split: bind_splits intro!: core_counted)
qed

lemma core_calls:
  "handle_message session sid msg w = Some w' \<Longrightarrow> core w w'"
  "core w (handle_status session i w)"
  "handle_move session x y z w = Some w' \<Longrightarrow> core w w'"
  by (auto simp: handle_message_def handle_status_def handle_move_def split: bind_splits option.splits
      intro!: core_counted core_rules)

end
