(* ===== verification/ServerInv.thy ===== *)
theory ServerInv
  imports Carry
begin

text \<open>
  The invariant of the world between the systems of the game loop, and that every part of a frame
  keeps it: the clean-up after lost players, their commands, the answers of the AI server, the
  systems of a tick and those of a frame. \<open>carries\<close> is the step that does so, and \<open>steps\<close> says
  that an operation returns and takes such a step.
\<close>

section \<open>The invariant of the world\<close>

text \<open>Each player is found under its id, and an id of an NPC stays the id of an NPC.\<close>

definition own_ids :: "registry \<Rightarrow> bool" where
  "own_ids r \<longleftrightarrow> (\<forall>idx e ident. entity_index r = Some idx \<longrightarrow> player_tag r e \<noteq> None \<longrightarrow>
     identity r e = Some ident \<longrightarrow> by_npc_id idx (npc_id ident) = Some e)"

definition npc_known :: "registry \<Rightarrow> u32 \<Rightarrow> bool" where
  "npc_known r i \<longleftrightarrow> (\<exists>idx e. entity_index r = Some idx \<and> by_npc_id idx i = Some e \<and> activity r e \<noteq> None)"

definition world_inv :: "world \<Rightarrow> bool" where
  "world_inv w \<longleftrightarrow> player_inv w \<and> things_ok (reg w) \<and> talks_ok (reg w) \<and> speakers_known (reg w) \<and>
     bodies_ok (reg w) \<and> aggro_ok (reg w) \<and> own_ids (reg w) \<and> (\<forall>ck\<in>set (outbox w). k_ok (reg w) (snd ck))"

text \<open>A step of the server that keeps it.\<close>

definition carries :: "world \<Rightarrow> world \<Rightarrow> bool" where
  "carries w w' \<longleftrightarrow> world_inv w' \<and> npcs_known (reg w) (reg w') \<and> settings (reg w') = settings (reg w) \<and>
     (\<forall>e. member_ok (reg w) e \<longrightarrow> member_ok (reg w') e) \<and>
     (\<forall>i. npc_known (reg w) i \<longrightarrow> npc_known (reg w') i) \<and>
     (\<exists>cs. outbox w' = outbox w @ cs \<and> (\<forall>ck\<in>set cs. \<forall>t. snd ck \<noteq> KWorldTick t))"

lemma carries_refl: "world_inv w \<Longrightarrow> carries w w"
  by (simp add: carries_def)

lemma carries_inv: "carries w w' \<Longrightarrow> world_inv w'"
  by (simp add: carries_def)

lemma carries_trans:
  assumes a: "carries w w1" and b: "carries w1 w2"
  shows "carries w w2"
proof -
  obtain cs ds where "outbox w1 = outbox w @ cs" "\<forall>ck\<in>set cs. \<forall>t. snd ck \<noteq> KWorldTick t"
    "outbox w2 = outbox w1 @ ds" "\<forall>ck\<in>set ds. \<forall>t. snd ck \<noteq> KWorldTick t"
    using a b unfolding carries_def by blast
  then have "outbox w2 = outbox w @ (cs @ ds) \<and> (\<forall>ck\<in>set (cs @ ds). \<forall>t. snd ck \<noteq> KWorldTick t)" by auto
  then show ?thesis
    using a b npcs_known_trans [of "reg w" "reg w1" "reg w2"] by (simp add: carries_def)
qed

lemma k_ok_mono:
  "(\<And>e. member_ok r e \<Longrightarrow> member_ok r' e) \<Longrightarrow> k_ok r k \<Longrightarrow> k_ok r' k"
  by (cases k) auto

lemma keeps_index:
  assumes k: "keeps r r'" and i: "index_ok r"
  shows "index_ok r'"
proof -
  obtain idx where idx: "entity_index r = Some idx" "indexed r idx" using i by (auto simp: index_ok_def)
  have p: "person r e" if "player_tag r e \<noteq> None \<or> activity r e \<noteq> None" for e using that by (auto simp: person_def)
  have a: "activity r' e = None \<longleftrightarrow> activity r e = None" for e using keepsD(1) [OF k] by (metis domIff)
  have b: "bearer_ok r' n e" if "bearer_ok r n e" for n e
  proof -
    have "player_tag r e \<noteq> None \<or> activity r e \<noteq> None" using that by (auto simp: bearer_ok_def has_def)
    from keeps_personD [OF k p [OF this]] that keepsD(3) [OF k] a [of e] show ?thesis
      by (auto simp: bearer_ok_def)
  qed
  have q: "player_ok r' e" if "player_tag r e \<noteq> None" for e
  proof -
    have "player_ok r e" using idx(2) that by (simp add: indexed_def has_def)
    with keeps_personD [OF k p, of e] that show ?thesis by (simp add: player_ok_def has_def)
  qed
  have "indexed r' idx" using idx(2) b q keepsD(3) [OF k] by (simp add: indexed_def has_def)
  with idx(1) keepsD(4) [OF k] show ?thesis by (simp add: index_ok_def)
qed

lemma core_carries:
  assumes i: "world_inv w" and c: "core w w'" and s: "sim_inv (reg w')"
  shows "carries w w'"
proof -
  have t: "things_ok (reg w)" using i by (simp add: world_inv_def)
  note k = core_keeps [OF c t]
  obtain cs where cs: "outbox w' = outbox w @ cs" "\<forall>ck\<in>set cs. call_ok (reg w') ck"
    and cells: "cells_ok (grid_reg w) \<longrightarrow> cells_ok (grid_reg w')"
    using c t unfolding core_def by blast
  have m: "member_ok (reg w) e \<Longrightarrow> member_ok (reg w') e" for e by (rule keeps_member [OF k])
  have n: "npc_known (reg w) i \<Longrightarrow> npc_known (reg w') i" for i
    using keepsD(1,4) [OF k] unfolding npc_known_def by (metis domIff)
  have "own_ids (reg w')" unfolding own_ids_def
  proof (intro allI impI)
    fix idx e ident
    assume *: "entity_index (reg w') = Some idx" "player_tag (reg w') e \<noteq> None" "identity (reg w') e = Some ident"
    then have "player_tag (reg w) e \<noteq> None" using keepsD(3) [OF k] by simp
    with * keeps_personD(1) [OF k, of e] keepsD(4) [OF k] i show "by_npc_id idx (npc_id ident) = Some e"
      by (simp add: world_inv_def own_ids_def person_def)
  qed
  have "player_inv w'" using s keeps_index [OF k] cells i by (simp add: player_inv_def world_inv_def)
  moreover note \<open>own_ids (reg w')\<close>
  moreover have "speakers_known (reg w')" "bodies_ok (reg w')"
  proof -
    have p: "identity (reg w') e = identity (reg w) e" if "activity (reg w) e \<noteq> None \<or> health (reg w) e \<noteq> None" for e
      using keeps_personD(1) [OF k, of e] that by (auto simp: person_def)
    have d: "activity (reg w') e = None \<longleftrightarrow> activity (reg w) e = None" "health (reg w') e = None \<longleftrightarrow> health (reg w) e = None" for e
      using keepsD(1,2) [OF k] by (metis domIff)+
    show "speakers_known (reg w')" "bodies_ok (reg w')"
      using i p d unfolding world_inv_def speakers_known_def bodies_ok_def has_def by metis+
  qed
  moreover have "\<forall>ck\<in>set (outbox w'). k_ok (reg w') (snd ck)"
  proof
    fix ck
    assume "ck \<in> set (outbox w')"
    then consider "ck \<in> set (outbox w)" | "ck \<in> set cs" using cs(1) by auto
    then show "k_ok (reg w') (snd ck)"
    proof cases
      case 1
      then have "k_ok (reg w) (snd ck)" using i by (auto simp: world_inv_def)
      with k_ok_mono m show ?thesis by blast
    next
      case 2
      with cs(2) show ?thesis by (auto simp: call_ok_def)
    qed
  qed
  ultimately have "world_inv w'"
    using core_things [OF c t] core_talks_ok [OF c t] core_aggro_ok [OF c t] i by (simp add: world_inv_def)
  moreover have "npcs_known (reg w) (reg w')"
    using keepsD(3-5) [OF k] by (intro same_npcs_known) simp_all
  moreover have "\<forall>ck\<in>set cs. \<forall>t. snd ck \<noteq> KWorldTick t" using cs(2) by (auto simp: call_ok_def)
  ultimately show ?thesis using m n cs(1) keepsD(6) [OF k] by (auto simp: carries_def)
qed

text \<open>A step that returns and keeps the invariant.\<close>

definition steps :: "world \<Rightarrow> world option \<Rightarrow> bool" where
  "steps w res \<longleftrightarrow> (\<exists>w'. res = Some w' \<and> carries w w')"

lemma steps_core:
  assumes "world_inv w" "\<And>w'. res = Some w' \<Longrightarrow> core w w'" "\<exists>w'. res = Some w' \<and> sim_inv (reg w')"
  shows "steps w res"
  using assms core_carries by (auto simp: steps_def)

lemma steps_bind:
  assumes "steps w res" "\<And>w1. carries w w1 \<Longrightarrow> world_inv w1 \<Longrightarrow> steps w1 (f w1)"
  shows "steps w (Option.bind res f)"
proof -
  obtain w1 where w1: "res = Some w1" "carries w w1" using assms(1) by (auto simp: steps_def)
  moreover from this have "world_inv w1" by (simp add: carries_def)
  ultimately obtain w2 where "f w1 = Some w2" "carries w1 w2" using assms(2) by (auto simp: steps_def)
  with w1 carries_trans [of w w1 w2] show ?thesis by (simp add: steps_def)
qed

lemma steps_foldM:
  assumes "world_inv w" "\<And>x t. x \<in> set xs \<Longrightarrow> carries w t \<Longrightarrow> world_inv t \<Longrightarrow> steps t (f x t)"
  shows "steps w (foldM f xs w)"
proof -
  have "\<exists>w'. foldM f xs w = Some w' \<and> carries w w'"
  proof (rule foldM_total [where I = "carries w"])
    fix x t
    assume x: "x \<in> set xs" and t: "carries w t"
    then have "world_inv t" by (simp add: carries_def)
    from assms(2) [OF x t this] carries_trans [OF t] show "\<exists>t'. f x t = Some t' \<and> carries w t'"
      by (auto simp: steps_def)
  qed (simp add: carries_refl assms(1))
  then show ?thesis by (auto simp: steps_def)
qed

lemma world_inv_parts:
  assumes "world_inv w"
  shows "sim_inv (reg w)" "bt_inv (reg w)" "index_ok (reg w)" "cells_ok (grid_reg w)" "things_ok (reg w)"
    "talks_ok (reg w)" "speakers_known (reg w)" "bodies_ok (reg w)" "aggro_ok (reg w)" "player_inv w"
    "own_ids (reg w)"
  using assms by (simp_all add: world_inv_def player_inv_def sim_inv_def)

section \<open>Players come and go\<close>

lemma forget_carries:
  assumes i: "world_inv w" and p: "player_inv w'" and tg: "player_tag (reg w) e = Some tag"
    and idx: "entity_index (reg w) = Some idx" and o: "outbox w' = outbox w"
    and r: "reg w' = destroy e ((reg w)\<lparr>entity_index := Some (forget_indices tag (identity (reg w) e) idx)\<rparr>)"
  shows "carries w w'"
proof -
  note k = world_inv_parts [OF i]
  have own: "player_tag (reg w) x \<noteq> None \<Longrightarrow> identity (reg w) x = Some d \<Longrightarrow> by_npc_id idx (npc_id d) = Some x" for x d
    using k(11) idx by (auto simp: own_ids_def)
  obtain ident where ident: "identity (reg w) e = Some ident"
    using k(3) tg unfolding index_ok_def indexed_def player_ok_def has_def by blast
  define i0 where "i0 = npc_id ident"
  have e0: "by_npc_id idx i0 = Some e" using own [OF _ ident] tg by (simp add: i0_def)
  have idx': "entity_index (reg w') = Some (idx\<lparr>by_session_index := (by_session_index idx)(tag := None),
      by_npc_id := (by_npc_id idx)(i0 := None)\<rparr>)"
    by (simp add: r destroy_def forget_indices_def ident Let_def i0_def)
  have f: "activity (reg w') x = (if x = e then None else activity (reg w) x)"
    "health (reg w') x = (if x = e then None else health (reg w) x)"
    "player_tag (reg w') x = (if x = e then None else player_tag (reg w) x)"
    "identity (reg w') x = (if x = e then None else identity (reg w) x)"
    "affordance (reg w') x = (if x = e then None else affordance (reg w) x)"
    "aggro (reg w') x = (if x = e then None else aggro (reg w) x)"
    "player_dialogue (reg w') x = (if x = e then None else player_dialogue (reg w) x)"
    "id_mapper (reg w') = id_mapper (reg w)" "settings (reg w') = settings (reg w)"
    "next_entity (reg w') = next_entity (reg w)" "valid (reg w') x \<longleftrightarrow> valid (reg w) x \<and> x \<noteq> e" for x
    by (auto simp: r destroy_def valid_def)
  have m: "member_ok (reg w) x \<Longrightarrow> member_ok (reg w') x" for x by (auto simp: member_ok_def f)
  have tk: "things_ok (reg w')" using k(5) by (auto simp: things_ok_def person_def f)
  have "talks_ok (reg w')" using k(6) m by (fastforce simp: talks_ok_def f split: if_splits)
  moreover have "speakers_known (reg w')" "bodies_ok (reg w')" "aggro_ok (reg w')"
    using k(7-9) by (auto simp: speakers_known_def bodies_ok_def aggro_ok_def has_def f split: if_splits)
  moreover have "own_ids (reg w')" unfolding own_ids_def
  proof (intro allI impI)
    fix idx1 x d
    assume *: "entity_index (reg w') = Some idx1" "player_tag (reg w') x \<noteq> None" "identity (reg w') x = Some d"
    then have x: "x \<noteq> e" "by_npc_id idx (npc_id d) = Some x" using own [of x d] by (auto simp: f split: if_splits)
    then have "npc_id d \<noteq> i0" using e0 by auto
    with x *(1) idx' show "by_npc_id idx1 (npc_id d) = Some x" by auto
  qed
  moreover have "\<forall>ck\<in>set (outbox w'). k_ok (reg w') (snd ck)"
    using i k_ok_mono [of "reg w" "reg w'"] m by (simp add: o world_inv_def)
  ultimately have "world_inv w'" using p tk by (simp add: world_inv_def)
  moreover have "npcs_known (reg w) (reg w')"
  proof -
    have "has (player_tag (reg w')) x" if n: "by_npc_id idx j = Some x" "j \<noteq> i0" and t: "has (player_tag (reg w)) x" for j x
    proof -
      have "bearer_ok (reg w) j x" using n(1) k(3) idx by (simp add: index_ok_def indexed_def)
      with n(2) ident have "x \<noteq> e" by (auto simp: bearer_ok_def i0_def)
      with t show ?thesis by (simp add: has_def f)
    qed
    then show ?thesis
      by (auto simp: npcs_known_def npc_free_def idx idx' f GetAgentNumericId_def split: if_splits)
  qed
  moreover have "npc_known (reg w') j" if known: "npc_known (reg w) j" for j
  proof -
    obtain x where x: "by_npc_id idx j = Some x" "activity (reg w) x \<noteq> None" using known idx by (auto simp: npc_known_def)
    have "x \<noteq> e" using x(2) k(5) tg by (auto simp: things_ok_def)
    moreover from this have "j \<noteq> i0" using x(1) e0 by auto
    ultimately show ?thesis using x by (simp add: npc_known_def idx' f)
  qed
  ultimately show ?thesis using m by (simp add: carries_def f o)
qed

lemma remove_player_steps:
  assumes i: "world_inv w" and t: "has (player_tag (reg w)) e"
  shows "\<exists>w'. remove_player e w = Some w' \<and> carries w w' \<and> cleaned [e] w w'"
proof -
  obtain w' where w': "remove_player e w = Some w'" "cleaned [e] w w'"
    using remove_player_ok [OF world_inv_parts(10) [OF i] t] by blast
  define w1 where "w1 = abort_dialogue e w"
  define w2 where "w2 = (if has (location (reg w1)) e then w1\<lparr>grid_reg := RemoveEntity e (grid_reg w1)\<rparr> else w1)"
  have rc: "reg (call_rpc c k v) = reg v" for c k and v :: world by (simp add: call_rpc_def)
  have c1: "core w w1" unfolding w1_def abort_dialogue_def Let_def rc
    by (auto split: option.split intro!: core_rules)
  have c2: "core w w2" using c1 by (auto simp: w2_def core_def RemoveEntity_ok)
  have r2: "reg w2 = reg w1" by (simp add: w2_def)
  have "quiet (reg w) (reg w1)" using abort_dialogue_ok [of w e] by (simp add: w1_def)
  then have s: "sim_inv (reg w2)" using quiet_sim_inv world_inv_parts(1) [OF i] r2 by simp
  have c: "carries w w2" by (rule core_carries [OF i c2 s])
  then have i2: "world_inv w2" by (simp add: carries_def)
  obtain tag idx where tag: "player_tag (reg w) e = Some tag" "entity_index (reg w2) = Some idx"
    "w' = destroy_entity e (put_index (forget_indices tag (identity (reg w2) e) idx) w2)"
    using w'(1) by (auto simp: remove_player_def Let_def w1_def [symmetric] w2_def [symmetric] simp del: has_Some split: bind_splits)
  have "player_tag (reg w2) = player_tag (reg w)"
    using core_keeps [OF c2 world_inv_parts(5) [OF i]] keepsD(3) by blast
  then have "carries w2 w'"
    by (intro forget_carries [OF i2 _ _ tag(2)])
      (use w'(2) tag in \<open>simp_all add: cleaned_def destroy_entity_def put_index_def\<close>)
  with carries_trans [OF c] w' show ?thesis by blast
qed

lemma remove_all_steps:
  "world_inv w \<Longrightarrow> distinct es \<Longrightarrow> \<forall>e\<in>set es. has (player_tag (reg w)) e \<Longrightarrow>
     \<exists>w'. foldM remove_player es w = Some w' \<and> carries w w' \<and> tcp w' = tcp w"
proof (induction es arbitrary: w)
  case Nil
  then show ?case by (simp add: carries_refl)
next
  case (Cons e es)
  then have "has (player_tag (reg w)) e" by simp
  from remove_player_steps [OF Cons.prems(1) this] obtain w1 where
    w1: "remove_player e w = Some w1" "carries w w1" "cleaned [e] w w1" by blast
  have "\<forall>x\<in>set es. has (player_tag (reg w1)) x" "tcp w1 = tcp w"
    using Cons.prems(2,3) w1(3) by (auto simp: cleaned_def has_def)
  with Cons.IH [of w1] Cons.prems(2) carries_inv [OF w1(2)] obtain w' where
    "foldM remove_player es w1 = Some w'" "carries w1 w'" "tcp w' = tcp w" by auto
  with w1(1) carries_trans [OF w1(2)] show ?case by auto
qed

lemma cleanup_steps:
  assumes i: "world_inv w" and o: "distinct (order env (reg w))"
  shows "\<exists>w'. SystemCleanupDisconnectedPlayerDialogues env w = Some w' \<and> carries w w' \<and> tcp w' = tcp w"
  unfolding SystemCleanupDisconnectedPlayerDialogues_def
  by (rule remove_all_steps [OF i])
    (use o in \<open>auto simp: disconnected_players_def has_def split: option.splits\<close>)

lemma new_player_carries:
  assumes i: "world_inv w" and idx: "entity_index (reg w) = Some idx" and n: "by_npc_id idx j = None"
    and w1: "new_player session j name idx w = (e, w1)"
  shows "carries w w1"
proof -
  note k = world_inv_parts [OF i]
  have e: "e = next_entity (reg w)" and r: "w1 = w\<lparr>reg := (reg w)\<lparr>live := live (reg w) @ [e],
    next_entity := next_entity (reg w) + 1, player_tag := (player_tag (reg w))(e \<mapsto> session),
    identity := (identity (reg w))(e \<mapsto> \<lparr>npc_id = j, display_name = name\<rparr>),
    location := (location (reg w))(e \<mapsto> LocationComp_default\<lparr>location_name := lit_plaza\<rparr>),
    last_synced := (last_synced (reg w))(e \<mapsto> LastSyncedComp_default),
    entity_index := Some \<lparr>by_npc_id = (by_npc_id idx)(j \<mapsto> e),
      by_session_index = (by_session_index idx)(session \<mapsto> e)\<rparr>\<rparr>\<rparr>"
    using new_player_reg [OF w1] by simp_all
  have p: "player_inv w1" "npcs_known (reg w) (reg w1)"
    using new_player_ok [OF k(10) idx n w1] by (simp_all add: command_ok_def)
  have fresh: "person (reg w) x \<Longrightarrow> x < e" for x using k(5) by (simp add: things_ok_def e)
  have "\<not> person (reg w) e" using fresh by blast
  then have b: "activity (reg w) e = None" "health (reg w) e = None" "affordance (reg w) e = None"
    using k(2) by (simp_all add: person_def bt_inv_def fresh_ok_def e)
  have m: "member_ok (reg w1) x" if "member_ok (reg w) x" for x
    using that by (auto simp: member_ok_def r e valid_def)
  have tk: "things_ok (reg w1)"
    using k(5) b fresh by (auto simp: things_ok_def person_def r e less_Suc_eq)
  have "talks_ok (reg w1)" using k(6) m by (fastforce simp: talks_ok_def r)
  moreover have "speakers_known (reg w1)" "bodies_ok (reg w1)" "aggro_ok (reg w1)"
    using k(7-9) by (auto simp: speakers_known_def bodies_ok_def aggro_ok_def has_def r)
  moreover have "own_ids (reg w1)"
    using k(11) n idx by (auto simp: own_ids_def r)
  moreover have "\<forall>ck\<in>set (outbox w1). k_ok (reg w1) (snd ck)"
    using i k_ok_mono [of "reg w" "reg w1"] m by (simp add: r world_inv_def)
  ultimately have "world_inv w1" using p tk by (simp add: world_inv_def)
  moreover have "npc_known (reg w1) x" if "npc_known (reg w) x" for x
    using that n idx by (auto simp: npc_known_def r)
  ultimately show ?thesis using p m by (simp add: carries_def) (simp add: r)
qed

lemma reconnect_carries:
  assumes i: "world_inv w" and idx: "entity_index (reg w) = Some idx"
    and n: "by_npc_id idx j = Some e" and t: "has (player_tag (reg w)) e"
    and w1: "reconnect session e idx w = Some w1"
  shows "carries w w1"
proof -
  note k = world_inv_parts [OF i]
  obtain old where old: "player_tag (reg w) e = Some old"
    and r: "w1 = w\<lparr>reg := (reg w)\<lparr>player_tag := (player_tag (reg w))(e \<mapsto> session), entity_index := Some (idx
      \<lparr>by_session_index := ((by_session_index idx)(old := None))(session \<mapsto> e)\<rparr>)\<rparr>\<rparr>"
    using w1 by (auto simp: reconnect_def put_index_def put_defs Let_def split: bind_splits)
  have p: "player_inv w1" "npcs_known (reg w) (reg w1)"
    using reconnect_ok [OF k(10) idx n t, of session] w1 by (auto simp: command_ok_def)
  have m: "member_ok (reg w1) x" if "member_ok (reg w) x" for x
    using that by (auto simp: member_ok_def r valid_def)
  have tk: "things_ok (reg w1)" using k(5) old by (auto simp: things_ok_def person_def r)
  have "talks_ok (reg w1)" using k(6) m by (fastforce simp: talks_ok_def r)
  moreover have "speakers_known (reg w1)" "bodies_ok (reg w1)" "aggro_ok (reg w1)"
    using k(7-9) by (auto simp: speakers_known_def bodies_ok_def aggro_ok_def has_def r)
  moreover have "own_ids (reg w1)" using k(11) idx old by (auto simp: own_ids_def r)
  moreover have "\<forall>ck\<in>set (outbox w1). k_ok (reg w1) (snd ck)"
    using i k_ok_mono [of "reg w" "reg w1"] m by (simp add: r world_inv_def)
  ultimately have "world_inv w1" using p tk by (simp add: world_inv_def)
  moreover have "npc_known (reg w1) x" if "npc_known (reg w) x" for x
    using that idx by (auto simp: npc_known_def r)
  ultimately show ?thesis using p m by (simp add: carries_def) (simp add: r)
qed

section \<open>The commands of the players\<close>

lemma command_steps:
  assumes i: "world_inv w" and ok: "command_ok w res" and c: "\<And>w'. res = Some w' \<Longrightarrow> core w w'"
  shows "steps w res"
proof (rule steps_core [OF i c])
  show "\<exists>w'. res = Some w' \<and> sim_inv (reg w')" using ok by (auto simp: command_ok_def player_inv_def)
qed

lemma login_steps:
  assumes i: "world_inv w" and n: "npc_free (reg w) player_id" and f: "\<And>m. fits env m"
  shows "steps w (handle_login env session player_id nm w)"
proof -
  obtain w' where w': "handle_login env session player_id nm w = Some w'" "player_inv w'"
    using handle_login_ok [OF world_inv_parts(10) [OF i] n f] by (auto simp: command_ok_def)
  then obtain e w1 loc where 1: "login_entity session player_id nm w = Some (e, w1)" "location (reg w1) e = Some loc"
    "send_to_client env session SC_LOGIN_ACK (LoginResponseMsg (login_response env
       (reg (update_position e (lc_x loc) (lc_z loc) w1)))) (update_position e (lc_x loc) (lc_z loc) w1) = Some w'"
    by (auto simp: handle_login_def Let_def split: bind_splits)
  obtain idx where idx: "entity_index (reg w) = Some idx"
    using 1(1) by (auto simp: login_entity_def split: bind_splits)
  define j where "j = GetAgentNumericId (reg w) player_id"
  have c: "carries w w1"
  proof (cases "by_npc_id idx j")
    case None
    then have "new_player session j nm idx w = (e, w1)" using 1(1) idx by (simp add: login_entity_def j_def)
    from new_player_carries [OF i idx None this] show ?thesis .
  next
    case (Some x)
    then have "reconnect session e idx w = Some w1" "x = e"
      using 1(1) idx by (auto simp: login_entity_def j_def [symmetric])
    moreover have "has (player_tag (reg w)) x" using n idx Some by (simp add: npc_free_def j_def)
    ultimately show ?thesis using reconnect_carries [OF i idx _ _, of j e session w1] Some by blast
  qed
  have "core w1 w'" by (rule core_trans [OF core_position [OF core_refl] core_send [OF 1(3)]])
  then have "carries w1 w'" using core_carries carries_inv [OF c] w'(2) by (simp add: player_inv_def)
  with carries_trans [OF c] w'(1) show ?thesis by (simp add: steps_def)
qed

text \<open>No login names an NPC.\<close>

definition login_ok :: "env \<Rightarrow> registry \<Rightarrow> PlayerCommand \<Rightarrow> bool" where
  "login_ok env r cmd \<longleftrightarrow> (cmd_type cmd = Login \<longrightarrow>
     (case parse_login env (cmd_payload cmd) of None \<Rightarrow> True | Some (s, nm) \<Rightarrow> npc_free r s))"

lemma player_command_steps:
  assumes i: "world_inv w" and f: "\<And>m. fits env m" and n: "login_ok env (reg w) cmd"
  shows "steps w (player_command env cmd w)"
proof -
  note p = world_inv_parts(10) [OF i]
  have r: "steps w (Some w)" by (simp add: steps_def carries_refl [OF i])
  note cs = command_steps [OF i]
  show ?thesis
    using n r login_steps [OF i _ f] cs [OF handle_move_ok [OF p] core_calls(3)] cs [OF handle_talk_ok [OF p] core_talk]
      cs [OF handle_calls_ok(1) [OF p] core_calls(1)]
      cs [OF handle_calls_ok(2) [OF p] core_end [OF _ world_inv_parts(6) [OF i]]]
      cs [OF handle_calls_ok(3) [OF p]] core_calls(2)
    by (cases "cmd_type cmd") (auto simp: player_command_def Let_def parsed_def login_ok_def split: option.splits)
qed

lemma commands_steps:
  assumes i: "world_inv w" and f: "\<And>m. fits env m"
    and n: "\<forall>cmd\<in>set (pending_commands (tcp w)). login_ok env (reg w) cmd"
  shows "steps w (SystemPlayerCommands env w)"
proof -
  define w1 where "w1 = w\<lparr>tcp := (tcp w)\<lparr>pending_commands := []\<rparr>\<rparr>"
  have c: "carries w w1"
    by (rule core_carries [OF i]) (use world_inv_parts(1) [OF i] in \<open>simp_all add: w1_def core_fields\<close>)
  obtain idx where x: "entity_index (reg w) = Some idx" using world_inv_parts(3) [OF i] by (auto simp: index_ok_def)
  have "steps w1 (foldM (player_command env) (pending_commands (tcp w)) w1)"
  proof (rule steps_foldM [OF carries_inv [OF c]])
    fix cmd t
    assume cmd: "cmd \<in> set (pending_commands (tcp w))" and t: "carries w1 t" "world_inv t"
    have "npcs_known (reg w) (reg t)" using c t(1) npcs_known_trans by (auto simp: carries_def)
    with n cmd have "login_ok env (reg t) cmd"
      by (fastforce simp: login_ok_def npcs_known_def split: option.splits)
    with player_command_steps [OF t(2) f] show "steps t (player_command env cmd t)" .
  qed
  moreover have "SystemPlayerCommands env w = foldM (player_command env) (pending_commands (tcp w)) w1"
    using x by (simp add: SystemPlayerCommands_def DrainPlayerCommands_def w1_def)
  ultimately show ?thesis using carries_trans [OF c] by (auto simp: steps_def)
qed

section \<open>The systems\<close>

lemma sim_of_bt: "things_ok (reg w) \<Longrightarrow> sim_inv (reg w) \<Longrightarrow> core w w' \<Longrightarrow> bt_inv (reg w') \<Longrightarrow> sim_inv (reg w')"
  using core_keeps keeps_liveD by (auto simp: sim_inv_def)

lemma steps_bt:
  assumes i: "world_inv w" and c: "\<And>w'. res = Some w' \<Longrightarrow> core w w'" and b: "\<exists>w'. res = Some w' \<and> bt_inv (reg w')"
  shows "steps w res"
  using steps_core [OF i c] b sim_of_bt [OF world_inv_parts(5,1) [OF i] c] by blast

lemma perception_steps: "world_inv w \<Longrightarrow> steps w (SystemPerception env w)"
  using SystemPerception_total [of w env] core_perception by (blast intro: steps_bt dest: world_inv_parts)

lemma trees_steps: "world_inv w \<Longrightarrow> steps w (SystemBehaviorTree env w)"
  using SystemBehaviorTree_total [of w env] core_trees by (blast intro: steps_bt dest: world_inv_parts)

lemma ambient_steps: "world_inv w \<Longrightarrow> steps w (SystemBusyAmbient env dur w)"
  using SystemBusyAmbient_total core_ambient by (blast intro: steps_core dest: world_inv_parts)

lemma survival_steps: "world_inv w \<Longrightarrow> steps w (SystemSurvivalOverride env w)"
  using SystemSurvivalOverride_total core_survival by (blast intro: steps_core dest: world_inv_parts)

lemma resolver_steps: "world_inv w \<Longrightarrow> steps w (SystemAffordanceResolver env w)"
  using SystemAffordanceResolver_total core_resolver by (blast intro: steps_core dest: world_inv_parts)

lemma jobs_steps: "world_inv w \<Longrightarrow> steps w (SystemJobDriver env tick w)"
  using SystemJobDriver_total core_jobs by (blast intro: steps_core dest: world_inv_parts)

lemma steps_quiet:
  assumes i: "world_inv w" and c: "core w w'" and q: "quiet (reg w) (reg w')"
  shows "steps w (Some w')"
  using core_carries [OF i c] quiet_sim_inv [OF q world_inv_parts(1) [OF i]] by (simp add: steps_def)

lemma movement_steps: "world_inv w \<Longrightarrow> steps w (SystemMovement env m w)"
proof -
  assume i: "world_inv w"
  obtain w' where "SystemMovement env m w = Some w'" "move_ok w w'"
    using SystemMovement_total [OF world_inv_parts(1) [OF i]] by blast
  with steps_quiet [OF i core_movement] show ?thesis by (simp add: move_ok_def)
qed

lemma planning_steps:
  assumes i: "world_inv w" and n: "nav_ok n"
  shows "\<exists>w' n'. SystemPathfinding env tie (w, n) = Some (w', n') \<and> carries w w' \<and> nav_ok n'"
proof -
  obtain w' n' where r: "SystemPathfinding env tie (w, n) = Some (w', n')" and p: "plan_ok (w, n\<lparr>pathfinds_this_tick := 0\<rparr>) (w', n')"
    using SystemPathfinding_total [of n env tie w] n by (auto simp: nav_ok_def)
  from steps_quiet [OF i core_pathfinding [OF r]] p have "carries w w'"
    by (simp add: plan_ok_def move_ok_def steps_def)
  with r p show ?thesis by (simp add: plan_ok_def)
qed

lemma social_steps:
  assumes i: "world_inv w" and e: "social_env env"
  shows "steps w (SystemSocialInteraction env tick w)"
proof -
  note k = world_inv_parts [OF i]
  obtain gs w' where r: "SystemSocialInteraction env tick w = Some w'" and t: "talks_started tick w gs w'"
    using SystemSocialInteraction_total [OF e k(4,7)] by blast
  have c: "core w w'" by (rule core_social [OF r e k(4,7)])
  have d: "dom (activity (reg w')) = dom (activity (reg w))"
    using core_keeps [OF c k(5)] keepsD(1) by blast
  obtain cd where "reg w' = (set_talking (members gs) (reg w))\<lparr>cooldown := cd\<rparr>" using t by (auto simp: talks_started_def)
  then have "quiet (reg w) (reg w')" using d by (auto simp: quiet_def occupied_def set_talking_def)
  from steps_quiet [OF i c this] r show ?thesis by simp
qed

lemma broadcast_steps:
  assumes i: "world_inv w" and f: "fits env m"
  shows "steps w (broadcast env pid m w)"
proof -
  obtain s where "broadcast env pid m w = Some (w\<lparr>tcp := s\<rparr>)" using broadcast_total [OF f] by blast
  moreover have "steps w (Some (w\<lparr>tcp := s\<rparr>))" by (rule steps_quiet [OF i]) (simp_all add: core_fields quiet_refl)
  ultimately show ?thesis by simp
qed

lemma sync_steps: "world_inv w \<Longrightarrow> steps w (Some (SystemNetworkSync env w))"
  by (erule steps_quiet [OF _ core_sync]) (simp add: SystemNetworkSync_def Let_def call_rpc_def quiet_refl)

lemma refresh_steps: "world_inv w \<Longrightarrow> steps w (refresh_cooldowns env w)"
proof (rule steps_core [OF _ core_refresh])
  assume "world_inv w"
  from world_inv_parts(1) [OF this] show "\<exists>w'. refresh_cooldowns env w = Some w' \<and> sim_inv (reg w')"
    unfolding refresh_cooldowns_def by (rule quiet_view) (auto simp: put_defs quiet_def occupied_def has_def)
qed

lemma delta_steps: "world_inv w \<Longrightarrow> steps w (apply_delta d w)"
proof (rule steps_core [OF _ core_delta])
  assume i: "world_inv w"
  obtain idx where idx: "entity_index (reg w) = Some idx" "indexed (reg w) idx"
    using world_inv_parts(3) [OF i] by (auto simp: index_ok_def)
  have "quiet (reg w) ((reg w)\<lparr>relationships := x\<rparr>)" for x by (simp add: quiet_def occupied_def)
  from quiet_sim_inv [OF this world_inv_parts(1) [OF i]] idx world_inv_parts(1) [OF i]
  show "\<exists>w'. apply_delta d w = Some w' \<and> sim_inv (reg w')"
    by (auto simp: apply_delta_def indexed_def bearer_ok_def split: option.split)
qed

lemma emotion_tick_quiet:
  assumes "sim_inv (reg w)" "emotion_registry (reg w) \<noteq> None" "has (emotion (reg w)) e \<and> has (identity (reg w)) e \<and> \<not> has (busy (reg w)) e"
  shows "\<exists>w'. emotion_tick zones e w = Some w' \<and> quiet (reg w) (reg w') \<and> emotion_registry (reg w') \<noteq> None"
  using assms(2,3)
  by (auto simp: emotion_tick_def contagion_def cached_ids_def Let_def put_defs quiet_def occupied_def draw_contagion_def
      split: option.split prod.split)

lemma emotions_steps: "world_inv w \<Longrightarrow> steps w (SystemEmotionDecay env w)"
proof (rule steps_core [OF _ core_emotions])
  assume i: "world_inv w"
  note s = world_inv_parts(1) [OF i]
  show "\<exists>w'. SystemEmotionDecay env w = Some w' \<and> sim_inv (reg w')"
  proof (cases "emotion_registry (reg w)")
    case None
    with s show ?thesis by (simp add: SystemEmotionDecay_def)
  next
    case (Some er)
    define zones where "zones = zone_negative_emotions env er (reg w)"
    have "\<exists>w'. foldM (\<lambda>e t. if has (emotion (reg t)) e \<and> has (identity (reg t)) e \<and> \<not> has (busy (reg t)) e
        then emotion_tick zones e t else Some t) (order env (reg w)) w = Some w' \<and>
      sim_inv (reg w') \<and> emotion_registry (reg w') \<noteq> None"
    proof (rule foldM_total [where I = "\<lambda>t. sim_inv (reg t) \<and> emotion_registry (reg t) \<noteq> None"])
      fix x and t :: world
      assume t: "sim_inv (reg t) \<and> emotion_registry (reg t) \<noteq> None"
      show "\<exists>t'. (if has (emotion (reg t)) x \<and> has (identity (reg t)) x \<and> \<not> has (busy (reg t)) x
          then emotion_tick zones x t else Some t) = Some t' \<and> sim_inv (reg t') \<and> emotion_registry (reg t') \<noteq> None"
      proof (cases "has (emotion (reg t)) x \<and> has (identity (reg t)) x \<and> \<not> has (busy (reg t)) x")
        case True
        from emotion_tick_quiet [OF conjunct1 [OF t] conjunct2 [OF t] True, of zones] quiet_sim_inv t
        show ?thesis by (simp only: True) (simp, blast)
      next
        case False
        show ?thesis by (subst if_not_P [OF False]) (use t in simp)
      qed
    qed (use s Some in simp)
    then show ?thesis
      by (simp only: SystemEmotionDecay_def Some option.case view_each_def Let_def zones_def [symmetric]) blast
  qed
qed

lemma bury_inv: "sim_inv (reg w) \<Longrightarrow> sim_inv (reg (bury e w))"
proof -
  assume s: "sim_inv (reg w)"
  define w1 where "w1 = show_dead e (drop_waypoints e (stop_velocity e (halt_toil e w)))"
  have "quiet (reg w) (reg w1)"
    by (auto simp: w1_def bury_defs put_defs quiet_def occupied_def split: option.split)
  then have s1: "sim_inv (reg w1)" by (rule quiet_sim_inv [OF _ s])
  define w2 where "w2 = drop_target e w1"
  have r2: "\<exists>c. reg w2 = (reg w1)\<lparr>combat := c\<rparr> \<and> (\<forall>x d. c x = Some d \<longrightarrow> target_entity d = None \<or> combat (reg w1) x = Some d)"
  proof (cases "combat (reg w1) e")
    case None
    then show ?thesis by (intro exI [of _ "combat (reg w1)"]) (simp add: w2_def drop_target_def)
  next
    case (Some d)
    then show ?thesis
      by (intro exI [of _ "(combat (reg w1))(e \<mapsto> d\<lparr>target_entity := None\<rparr>)"])
        (simp add: w2_def drop_target_def put_defs)
  qed
  then obtain c where c: "reg w2 = (reg w1)\<lparr>combat := c\<rparr>"
    "\<And>x d. c x = Some d \<Longrightarrow> target_entity d = None \<or> combat (reg w1) x = Some d" by blast
  have b1: "bt_inv (reg w1)" and l1: "needs_live (reg w1)" using s1 by (simp_all add: sim_inv_def)
  have "bt_inv (reg w2)"
  proof (rule target_bt_inv [OF b1])
    show "quiet (reg w1) ((reg w2)\<lparr>combat := combat (reg w1), aggro := aggro (reg w1)\<rparr>)"
      by (simp add: c(1) quiet_def occupied_def)
    show "ref_ok (reg w1) (target_entity d)" if "combat (reg w2) x = Some d" for x d
      using c(2) [of x d] that b1 by (auto simp: c(1) bt_inv_def ref_ok_def)
    show "ref_ok (reg w1) (threat_entity a)" if "aggro (reg w2) x = Some a" for x a
      using that b1 by (simp add: c(1) bt_inv_def)
  qed
  moreover have "bury e w = erase_tree e w2" by (simp add: bury_def w1_def w2_def)
  moreover have "needs_live (reg w2)" using l1 by (simp add: c(1) needs_live_def valid_def)
  ultimately show ?thesis
    by (auto simp: erase_tree_def sim_inv_def bt_inv_def needs_live_def valid_def ref_ok_def fighter_def agent_def
        occupancy_ok_def occupied_def occupant_def furniture_ok_def fresh_ok_def workers_ok_def split: option.splits)
qed

lemma death_steps: "world_inv w \<Longrightarrow> steps w (SystemDeath env w)"
proof (rule steps_core [OF _ core_death])
  assume i: "world_inv w"
  have "sim_inv (reg (fold death_step xs t))" if "sim_inv (reg t)" for xs t
    using that
  proof (induction xs arbitrary: t)
    case (Cons x xs)
    have "sim_inv (reg (death_step x t))"
      using bury_inv [OF Cons.prems] Cons.prems by (auto simp: death_step_def split: option.split)
    with Cons.IH show ?case by simp
  qed simp
  with world_inv_parts(1) [OF i] show "\<exists>w'. SystemDeath env w = Some w' \<and> sim_inv (reg w')"
    by (simp add: SystemDeath_fold)
qed

section \<open>The answers of the AI server\<close>

text \<open>A callback also leaves the commands alone that wait for the players' turn.\<close>

definition settles :: "world \<Rightarrow> world option \<Rightarrow> bool" where
  "settles w res \<longleftrightarrow> (\<exists>w'. res = Some w' \<and> carries w w' \<and> pending_commands (tcp w') = pending_commands (tcp w))"

lemma settlesI:
  assumes "steps w res" "\<And>w'. res = Some w' \<Longrightarrow> pending_commands (tcp w') = pending_commands (tcp w)"
  shows "settles w res"
  using assms by (auto simp: steps_def settles_def)

lemma targets_inv:
  assumes s: "sim_inv (reg w)" and r: "reg w' = (reg w)\<lparr>combat := c, aggro := a, cooldown := d\<rparr>"
    and c: "\<And>x y. c x = Some y \<Longrightarrow> ref_ok (reg w) (target_entity y)"
    and a: "\<And>x y. a x = Some y \<Longrightarrow> ref_ok (reg w) (threat_entity y)"
  shows "sim_inv (reg w')"
proof -
  have b: "bt_inv (reg w)" "needs_live (reg w)" using s by (simp_all add: sim_inv_def)
  have "bt_inv (reg w')"
    by (rule target_bt_inv [OF b(1)]) (use c a in \<open>auto simp: r quiet_def occupied_def\<close>)
  with b(2) show ?thesis by (simp add: sim_inv_def needs_live_def r valid_def)
qed

lemma threat_steps:
  assumes i: "world_inv w" and m: "member_ok (reg w) e"
  shows "steps w (on_threat e target success code w)"
proof (rule steps_core [OF i core_threat [OF _ world_inv_parts(9) [OF i]]])
  note k = world_inv_parts [OF i]
  show "\<exists>w'. on_threat e target success code w = Some w' \<and> sim_inv (reg w')"
  proof (cases "valid (reg w) e \<and> aggro (reg w) e \<noteq> None")
    case False
    with k(1) show ?thesis by (auto simp: on_threat_def)
  next
    case True
    then obtain a where a: "aggro (reg w) e = Some a" by blast
    obtain ident tick where it: "identity (reg w) e = Some ident" "current_tick w = Some tick"
      using True m k(2) by (auto simp: member_ok_def bt_inv_def current_tick_def)
    have ro: "aggro (reg w) x = Some y \<Longrightarrow> ref_ok (reg w) (threat_entity y)"
      "combat (reg w) x = Some z \<Longrightarrow> ref_ok (reg w) (target_entity z)" for x y z
      using k(2) by (auto simp: bt_inv_def)
    have g: "sim_inv (reg w')" if "reg w' = (reg w)\<lparr>combat := C, aggro := (aggro (reg w))(e \<mapsto> b), cooldown := D\<rparr>"
        "threat_entity b = threat_entity a"
        "C = combat (reg w) \<or> (\<exists>z. C = (combat (reg w))(e \<mapsto> z) \<and> target_entity z = threat_entity a)"
      for w' :: world and C b D
      by (rule targets_inv [OF k(1) that(1)]) (use that(2,3) ro a in \<open>auto split: if_splits\<close>)
    define calm where "calm = a\<lparr>aggro_score := 0, is_inhibited := False\<rparr>"
    define strike where "strike = (get_or CombatComp_default (combat (reg w)) e)\<lparr>target_entity := threat_entity a\<rparr>"
    have "sim_inv (reg (put_aggro e calm (put_combat e strike w)))"
      by (rule g [of _ "cooldown (reg w)" calm "(combat (reg w))(e \<mapsto> strike)"])
        (auto simp: put_defs calm_def strike_def)
    moreover have "sim_inv (reg (put_aggro e (a\<lparr>is_inhibited := False\<rparr>) w))"
      by (rule g [of _ "cooldown (reg w)" "a\<lparr>is_inhibited := False\<rparr>" "combat (reg w)"]) (auto simp: put_defs)
    moreover obtain D where "reg (calm_down e target tick a w) =
        (reg w)\<lparr>combat := combat (reg w), aggro := (aggro (reg w))(e \<mapsto> calm), cooldown := D\<rparr>"
      by (simp add: calm_down_def Let_def put_defs calm_def [symmetric])
    then have "sim_inv (reg (calm_down e target tick a w))" by (rule g) (simp_all add: calm_def)
    ultimately show ?thesis
      using True a it by (auto simp: on_threat_def calm_def strike_def)
  qed
qed

definition jobs_npcs :: "registry \<Rightarrow> JobPayload list \<Rightarrow> bool" where
  "jobs_npcs r ps \<longleftrightarrow> (\<forall>p\<in>set ps. npc_known r (jp_npc_id p))"

lemma quiet_activity: "quiet r r' \<Longrightarrow> has (activity r) e \<Longrightarrow> has (activity r') e"
  unfolding quiet_def has_def by blast

lemma take_job_quiet:
  assumes "\<And>e. by_npc_id idx (jp_npc_id p) = Some e \<Longrightarrow> has (activity (reg w)) e"
  shows "quiet (reg w) (reg (take_job env idx p w))"
proof (cases "npc_entity_of (reg w) idx (jp_npc_id p)")
  case None
  then show ?thesis by (simp add: take_job_def quiet_refl)
next
  case (Some e)
  then have "by_npc_id idx (jp_npc_id p) = Some e" by (auto simp: npc_entity_of_def split: option.splits if_splits)
  with assms have "e \<in> dom (activity (reg w))" by (auto simp: has_def)
  with Some show ?thesis
    by (auto simp: take_job_def quiet_defs end_schedule_wait_def draw_disc_def Let_def split: prod.split option.split)
qed

lemma pending_jobs_steps:
  assumes i: "world_inv w" and j: "success \<longrightarrow> jobs_npcs (reg w) jobs"
  shows "steps w (on_pending_jobs env success jobs w)"
proof (rule steps_core [OF i core_pending_jobs])
  obtain idx where idx: "entity_index (reg w) = Some idx"
    using world_inv_parts(3) [OF i] by (auto simp: index_ok_def)
  have "quiet (reg t) (reg (fold (take_job env idx) ps t))"
    if "\<forall>p\<in>set ps. \<forall>e. by_npc_id idx (jp_npc_id p) = Some e \<longrightarrow> has (activity (reg t)) e" for ps t
    using that
  proof (induction ps arbitrary: t)
    case (Cons p ps)
    have q: "quiet (reg t) (reg (take_job env idx p t))" by (rule take_job_quiet) (use Cons.prems in simp)
    then have "\<forall>x\<in>set ps. \<forall>e. by_npc_id idx (jp_npc_id x) = Some e \<longrightarrow> has (activity (reg (take_job env idx p t))) e"
      using Cons.prems quiet_activity [OF q] by auto
    from quiet_trans [OF q Cons.IH [OF this]] show ?case by simp
  qed (simp add: quiet_refl)
  from this [of jobs w] have "success \<Longrightarrow> quiet (reg w) (reg (fold (take_job env idx) jobs w))"
    using j idx by (fastforce simp: jobs_npcs_def npc_known_def)
  from quiet_sim_inv [OF this world_inv_parts(1) [OF i]]
  show "\<exists>w'. on_pending_jobs env success jobs w = Some w' \<and> sim_inv (reg w')"
    using world_inv_parts(1) [OF i] idx by (auto simp: on_pending_jobs_def)
qed

lemma job_report_steps: "world_inv w \<Longrightarrow> steps w (Some (on_job_report e success has_new p w))"
  using on_job_report_inv core_job_report by (blast intro: steps_core dest: world_inv_parts)

lemma batch_steps:
  assumes i: "world_inv w"
  shows "steps w (Some (on_batch_status success b w))"
proof (rule steps_quiet [OF i core_batch])
  have "quiet (reg w) (reg (fold record_synced b w))"
  proof (induction b arbitrary: w)
    case (Cons x b)
    have "quiet (reg w) (reg (record_synced x w))"
      by (auto simp: record_synced_def quiet_defs split: prod.split)
    from quiet_trans [OF this Cons.IH] show ?case by simp
  qed (simp add: quiet_refl)
  then show "quiet (reg w) (reg (on_batch_status success b w))" by (simp add: on_batch_status_def quiet_refl)
qed


text \<open>Nothing in the answer to a dialogue touches the command queue.\<close>

lemma foldM_pending:
  assumes "foldM f xs w = Some w'"
    "\<And>x t t'. f x t = Some t' \<Longrightarrow> pending_commands (tcp t') = pending_commands (tcp t)"
  shows "pending_commands (tcp w') = pending_commands (tcp w)"
  by (rule foldM_invariant [where I = "\<lambda>t. pending_commands (tcp t) = pending_commands (tcp w)", OF refl assms(1)])
    (use assms(2) in auto)

lemma fold_pending:
  "(\<And>x t. pending_commands (tcp (f x t)) = pending_commands (tcp t)) \<Longrightarrow>
     pending_commands (tcp (fold f xs w)) = pending_commands (tcp w)"
  by (induction xs arbitrary: w) auto

lemma broadcast_pending:
  "broadcast env pid m w = Some w' \<Longrightarrow> pending_commands (tcp w') = pending_commands (tcp w)"
  by (auto simp: broadcast_def BroadcastProto_def BroadcastPacket_def split: option.splits if_splits)

lemma dialogue_pending:
  assumes r: "on_dialogue env grp tick zone success res w = Some w'"
  shows "pending_commands (tcp w') = pending_commands (tcp w)"
proof -
  have em: "pending_commands (tcp (apply_emotion idx u t)) = pending_commands (tcp t)" for idx u t
    by (auto simp: apply_emotion_def put_defs Let_def split: option.split prod.split)
  have jb: "apply_job env idx p t = Some t' \<Longrightarrow> pending_commands (tcp t') = pending_commands (tcp t)" for idx p t t'
    by (auto simp: apply_job_def put_defs draw_disc_def Let_def split: option.splits prod.splits bind_splits)
  have ar: "apply_result env res t = Some t' \<Longrightarrow> pending_commands (tcp t') = pending_commands (tcp t)" for t t'
    using foldM_pending [OF _ jb] fold_pending [of "apply_emotion _", OF em]
    by (fastforce simp: apply_result_def split: option.splits)
  have ev: "pending_commands (tcp (eavesdrop grp s c res e t)) = pending_commands (tcp t)" for s c e t
    by (auto simp: eavesdrop_def call_rpc_def Let_def split: option.split prod.split)
  have es: "eavesdropping grp res t = Some t' \<Longrightarrow> pending_commands (tcp t') = pending_commands (tcp t)" for t t'
    using fold_pending [of "eavesdrop grp _ _ res", OF ev]
    by (fastforce simp: eavesdropping_def Let_def split: if_splits prod.splits bind_splits)
  have fin: "finish_speaker tick grp e t = Some t' \<Longrightarrow> pending_commands (tcp t') = pending_commands (tcp t)" for e t t'
    by (auto simp: finish_speaker_def put_defs Let_def split: if_splits bind_splits)
  have rel: "release_speaker e t = Some t' \<Longrightarrow> pending_commands (tcp t') = pending_commands (tcp t)" for e t t'
    by (auto simp: release_speaker_def put_defs split: if_splits option.splits)
  show ?thesis
  proof (cases "success \<and> dr_success res \<and> (\<forall>e\<in>set grp. valid (reg w) e)")
    case False
    with r have "foldM release_speaker grp w = Some w'" by (simp only: on_dialogue_def if_False)
    from this rel show ?thesis by (rule foldM_pending)
  next
    case True
    then obtain w1 w2 w3 where s: "(if dr_lines res = [] then Some w
        else broadcast env SC_DIALOGUE_EVENT (DialogueEventMsg (end_event (reg w) grp zone res)) w) = Some w1"
      "apply_result env res w1 = Some w2" "eavesdropping grp res w2 = Some w3"
      and f: "foldM (finish_speaker tick grp) grp w3 = Some w'"
      using r by (simp only: on_dialogue_def if_P [OF True]) (auto split: if_splits bind_splits)
    have "pending_commands (tcp w') = pending_commands (tcp w3)" using f fin by (rule foldM_pending)
    moreover have "pending_commands (tcp w1) = pending_commands (tcp w)"
      using s(1) broadcast_pending by (auto split: if_splits)
    ultimately show ?thesis using ar [OF s(2)] es [OF s(3)] by simp
  qed
qed

definition answer_ok :: "registry \<Rightarrow> rpc_answer \<Rightarrow> bool" where
  "answer_ok r a \<longleftrightarrow> (case a of DialogueAnswer success res \<Rightarrow> jobs_npcs r (dr_next_jobs res)
     | JobsAnswer success jobs \<Rightarrow> jobs_npcs r jobs | _ \<Rightarrow> True)"

definition env_ok :: "env \<Rightarrow> bool" where
  "env_ok env \<longleftrightarrow> social_env env \<and> (\<forall>m. fits env m) \<and> (\<forall>r. distinct (order env r)) \<and>
     (\<forall>s. length (encode env (AgentStatusMsg s)) < 65532)"

lemma dialogue_steps:
  assumes i: "world_inv w" and e: "env_ok env" and g: "\<forall>e\<in>set grp. member_ok (reg w) e"
    and j: "jobs_npcs (reg w) (dr_next_jobs res)"
  shows "steps w (on_dialogue env grp tick zone success res w)"
proof -
  note k = world_inv_parts [OF i]
  have "jobs_known (reg w) res"
    using j k(7) by (auto simp: jobs_known_def jobs_npcs_def npc_known_def npc_entity_of_def speakers_known_def has_def
        split: option.splits if_splits)
  moreover have "speakers_ok (reg w) grp" using g by (auto simp: speakers_ok_def member_ok_def)
  ultimately obtain w' where w': "on_dialogue env grp tick zone success res w = Some w'" "talk_step w w'"
    using on_dialogue_step [of env w grp res tick zone success] e by (auto simp: env_ok_def)
  with steps_quiet [OF i core_dialogue] show ?thesis by (simp add: talk_step_def)
qed

lemma reply_pending:
  "send_to_client env i pid m w = Some w' \<Longrightarrow> pending_commands (tcp w') = pending_commands (tcp w)"
  using send_to_client_same [of env i pid m w w'] by blast

lemma player_answers_settle:
  assumes i: "world_inv w" and e: "env_ok env"
  shows "member_ok (reg w) npc \<Longrightarrow> settles w (on_player_dialogue_started env success sid greeting session nm npc p w)"
    and "settles w (on_player_message env success reply session nm sid w)"
    and "(\<And>e. npc' = Some e \<Longrightarrow> member_ok (reg w) e) \<Longrightarrow> settles w (on_player_dialogue_ended npc' player w)"
    and "settles w (on_agent_status env success st session j w)"
proof -
  note pl = world_inv_parts(10) [OF i] and cs = command_steps [OF i]
  have f: "fits env m" for m using e by (simp add: env_ok_def)
  have fr: "free_npc n t = Some t' \<Longrightarrow> pending_commands (tcp t') = pending_commands (tcp t)" for n t t'
    by (auto simp: free_npc_def put_defs split: option.splits if_splits)
  have a: "valid (reg w) x \<Longrightarrow> has (activity (reg w)) x" if "member_ok (reg w) x" for x
    using that by (auto simp: member_ok_def)
  show "settles w (on_player_dialogue_started env success sid greeting session nm npc p w)" if m: "member_ok (reg w) npc"
  proof (rule settlesI)
    show "steps w (on_player_dialogue_started env success sid greeting session nm npc p w)"
      using cs [OF on_player_dialogue_started_ok [OF pl f a [OF m]] core_started [OF _ m]] .
    show "pending_commands (tcp w') = pending_commands (tcp w)"
      if "on_player_dialogue_started env success sid greeting session nm npc p w = Some w'" for w'
      using that by (auto simp: on_player_dialogue_started_def Let_def put_defs dest!: reply_pending fr
          split: if_splits bind_splits option.splits)
  qed
  show "settles w (on_player_message env success reply session nm sid w)"
    by (rule settlesI [OF cs [OF on_player_message_ok [OF pl f] core_message]])
      (auto simp: on_player_message_def dest: reply_pending split: if_splits)
  show "settles w (on_player_dialogue_ended npc' player w)" if m: "\<And>e. npc' = Some e \<Longrightarrow> member_ok (reg w) e"
    by (rule settlesI [OF cs [OF on_player_dialogue_ended_ok [OF pl a [OF m]] core_ended]])
      (auto simp: on_player_dialogue_ended_def erase_player_dialogue_def put_defs dest!: fr
         split: bind_splits option.splits if_splits)
  have "on_agent_status env success st session j w \<noteq> None"
    using e Send_buffer_fits_iff [of SC_GET_AGENT_STATUS_ACK
        "encode env (AgentStatusMsg (agent_status_response success st j (reg w)))"]
    by (auto simp: env_ok_def on_agent_status_def SendTo_def Send_def size_defs not_less
        less_Suc_eq_le [symmetric] split: option.splits)
  then obtain t where s: "SendTo session SC_GET_AGENT_STATUS_ACK
      (encode env (AgentStatusMsg (agent_status_response success st j (reg w)))) (tcp w) = Some t"
    by (auto simp: on_agent_status_def)
  then have t: "on_agent_status env success st session j w = Some (w\<lparr>tcp := t\<rparr>)"
    "pending_commands t = pending_commands (tcp w)"
    by (simp add: on_agent_status_def) (use s in \<open>auto simp: SendTo_def split: option.splits\<close>)
  have "steps w (Some (w\<lparr>tcp := t\<rparr>))" by (rule steps_quiet [OF i]) (simp_all add: core_fields quiet_refl)
  with t show "settles w (on_agent_status env success st session j w)" by (simp add: steps_def settles_def)
qed

section \<open>The queued tasks\<close>

definition task_ok :: "registry \<Rightarrow> grpc_task \<Rightarrow> bool" where
  "task_ok r = (\<lambda>(k, a). k_ok r k \<and> answer_ok r a)"

lemma task_ok_carries:
  assumes c: "carries w w'" and t: "task_ok (reg w) ka"
  shows "task_ok (reg w') ka"
proof -
  have "jobs_npcs (reg w) ps \<Longrightarrow> jobs_npcs (reg w') ps" for ps
    using c by (auto simp: carries_def jobs_npcs_def)
  moreover have "k_ok (reg w) k \<Longrightarrow> k_ok (reg w') k" for k
    using k_ok_mono [of "reg w" "reg w'" k] c by (auto simp: carries_def)
  ultimately show ?thesis
    using t by (auto simp: task_ok_def answer_ok_def split: prod.splits rpc_answer.splits)
qed

text \<open>A task that is not the answer to a tick only changes the world.\<close>

lemma on_world_settles:
  assumes "settles (world_of s) (f (world_of s))"
  shows "\<exists>w'. on_world f s = Some (s\<lparr>world_of := w'\<rparr>) \<and> carries (world_of s) w' \<and>
    pending_commands (tcp w') = pending_commands (tcp (world_of s))"
  using assms by (auto simp: settles_def on_world_def)

lemma stays: "world_inv (world_of s) \<Longrightarrow>
    \<exists>w'. Some s = Some (s\<lparr>world_of := w'\<rparr>) \<and> carries (world_of s) w' \<and>
    pending_commands (tcp w') = pending_commands (tcp (world_of s))"
  by (rule exI [of _ "world_of s"]) (simp add: carries_refl)

lemma other_task:
  assumes i: "world_inv (world_of s)" and e: "env_ok env" and t: "task_ok (reg (world_of s)) (k, a)"
    and n: "\<And>target. k \<noteq> KWorldTick target"
  shows "\<exists>w'. run_continuation env k a s = Some (s\<lparr>world_of := w'\<rparr>) \<and> carries (world_of s) w' \<and>
    pending_commands (tcp w') = pending_commands (tcp (world_of s))"
proof -
  let ?w = "world_of s"
  note pa = player_answers_settle [OF i e]
  have th: "settles ?w (on_threat x g b c ?w)" if "member_ok (reg ?w) x" for x g b c
    by (rule settlesI [OF threat_steps [OF i that]])
      (auto simp: on_threat_def calm_down_def put_defs Let_def split: if_splits option.splits bind_splits)
  have dl: "settles ?w (on_dialogue env grp tick zone b res ?w)"
    if "\<forall>e\<in>set grp. member_ok (reg ?w) e" "jobs_npcs (reg ?w) (dr_next_jobs res)" for grp tick zone b res
    by (rule settlesI [OF dialogue_steps [OF i e that] dialogue_pending])
  have tj: "pending_commands (tcp (take_job env idx p v)) = pending_commands (tcp v)" for idx p v
    by (auto simp: take_job_def end_schedule_wait_def put_defs draw_disc_def Let_def split: option.split prod.split)
  have pj: "settles ?w (on_pending_jobs env b ps ?w)" if "jobs_npcs (reg ?w) ps" for b ps
    by (rule settlesI [OF pending_jobs_steps [OF i]])
      (use that fold_pending [of "take_job env _", OF tj] in \<open>auto simp: on_pending_jobs_def split: if_splits\<close>)
  have jr: "settles ?w (Some (on_job_report x b h p ?w))" for x b h p
    by (rule settlesI [OF job_report_steps [OF i]]) (auto simp: on_job_report_def put_defs split: option.splits)
  have rc: "pending_commands (tcp (record_synced x v)) = pending_commands (tcp v)" for x v
    by (auto simp: record_synced_def put_defs split: prod.split)
  have bs: "settles ?w (Some (on_batch_status b c ?w))" for b c
    by (rule settlesI [OF batch_steps [OF i]])
      (use fold_pending [of record_synced, OF rc] in \<open>auto simp: on_batch_status_def split: if_splits\<close>)
  show ?thesis
    using t n stays [OF i]
    by (cases k; cases a)
      (simp_all add: task_ok_def answer_ok_def on_world_settles th dl pj jr bs pa)
qed

section \<open>Ticks and frames\<close>

lemma tick_systems_steps:
  assumes i: "world_inv w" and e: "env_ok env"
  shows "steps w (tick_systems env tick new_day deltas w)"
proof -
  have r: "steps v (Some v)" if "world_inv v" for v using that by (simp add: steps_def carries_refl)
  have jd: "steps v (SystemJobDriver env tick (call_rpc (GetPendingJobs tick) KPendingJobs v))" if v: "world_inv v" for v
  proof -
    have "steps v (Some (call_rpc (GetPendingJobs tick) KPendingJobs v))"
      by (rule steps_quiet [OF v core_call [OF core_refl]]) (simp_all add: call_rpc_def quiet_refl)
    from steps_bind [OF this jobs_steps] show ?thesis by simp
  qed
  have s: "social_env env" using e by (simp add: env_ok_def)
  define rest where "rest = (\<lambda>v. Option.bind (SystemJobDriver env tick (call_rpc (GetPendingJobs tick) KPendingJobs v))
    (\<lambda>w4. Option.bind (SystemSocialInteraction env tick w4) (\<lambda>w5. Some (SystemNetworkSync env w5))))"
  have rest: "steps v (rest v)" if "world_inv v" for v
    unfolding rest_def by (intro steps_bind jd that social_steps s sync_steps)
  have day: "steps v (if new_day then refresh_cooldowns env v else Some v)" if "world_inv v" for v
    using refresh_steps [OF that] r [OF that] by simp
  have "tick_systems env tick new_day deltas w = Option.bind (foldM apply_delta deltas w) (\<lambda>w1.
      Option.bind (SystemEmotionDecay env w1) (\<lambda>w2.
      Option.bind (if new_day then refresh_cooldowns env w2 else Some w2) rest))"
    by (simp add: tick_systems_def rest_def)
  also have "steps w \<dots>"
    by (intro steps_bind steps_foldM delta_steps emotions_steps day rest i)
  finally show ?thesis .
qed

lemma frame_systems_steps:
  assumes i: "world_inv w" and n: "nav_ok n" and e: "env_ok env"
  shows "\<exists>w' n'. frame_systems env tie tick (w, n) = Some (w', n') \<and> carries w w' \<and> nav_ok n'"
proof -
  have f: "fits env m" for m using e by (simp add: env_ok_def)
  define first where "first = Option.bind (SystemBusyAmbient env (flit 0.05) w) (\<lambda>w1.
    Option.bind (SystemPerception env w1) (\<lambda>w2. Option.bind (SystemBehaviorTree (env\<lparr>walk_map := nav_map n\<rparr>) w2)
    (\<lambda>w3. Option.bind (SystemDeath env w3) (SystemSurvivalOverride env))))"
  have "steps w (SystemBusyAmbient env (flit 0.05) w)" by (rule ambient_steps [OF i])
  then have "steps w first" unfolding first_def
    by (intro steps_bind perception_steps trees_steps death_steps survival_steps)
  then obtain w5 where w5: "first = Some w5" "carries w w5" by (auto simp: steps_def)
  obtain w6 n1 where w6: "SystemPathfinding env tie (w5, n) = Some (w6, n1)" "carries w5 w6" "nav_ok n1"
    using planning_steps [OF carries_inv [OF w5(2)] n] by blast
  define last where "last = Option.bind (SystemMovement env (nav_map n1) w6) (\<lambda>w7.
    Option.bind (SystemAffordanceResolver env w7) (SystemBroadcastWorldSnapshot env tick))"
  have "steps w6 last" unfolding last_def SystemBroadcastWorldSnapshot_def
    by (intro steps_bind movement_steps resolver_steps broadcast_steps f carries_inv [OF w6(2)])
  then obtain w9 where w9: "last = Some w9" "carries w6 w9" by (auto simp: steps_def)
  have "frame_systems env tie tick (w, n) = Option.bind first (\<lambda>w5. Option.bind (SystemPathfinding env tie (w5, n))
      (\<lambda>(w6, n1). Option.bind (Option.bind (SystemMovement env (nav_map n1) w6) (\<lambda>w7.
        Option.bind (SystemAffordanceResolver env w7) (SystemBroadcastWorldSnapshot env tick))) (\<lambda>w9. Some (w9, n1))))"
    by (simp add: frame_systems_def first_def)
  then have "frame_systems env tie tick (w, n) = Some (w9, n1)"
    by (simp only: w5(1) w6(1) w9(1) last_def [symmetric] Option.bind.bind_lunit prod.case)
  with carries_trans [OF w5(2) carries_trans [OF w6(2) w9(2)]] w6(3) show ?thesis by blast
qed

lemma bt_tick_carries:
  assumes i: "world_inv w"
  shows "carries w (w\<lparr>reg := (reg w)\<lparr>bt_context_tick := Some t\<rparr>\<rparr>)"
proof (rule core_carries [OF i])
  show "core w (w\<lparr>reg := (reg w)\<lparr>bt_context_tick := Some t\<rparr>\<rparr>)"
    by (rule core_bystanders [OF core_refl]) (simp add: bystanders_def)
  show "sim_inv (reg (w\<lparr>reg := (reg w)\<lparr>bt_context_tick := Some t\<rparr>\<rparr>))"
    using world_inv_parts(1) [OF i]
    by (auto simp: sim_inv_def bt_inv_def needs_live_def valid_def ref_ok_def fighter_def agent_def
        occupancy_ok_def occupied_def occupant_def furniture_ok_def fresh_ok_def workers_ok_def split: option.splits)
qed

end
