(* ===== verification/ServerRun.thy ===== *)
theory ServerRun
  imports ServerInv
begin

text \<open>
  The server as a whole: the requests for a tick and the clock, one frame of the game loop, and
  every run of the program from its start, in which frames alternate with the ends of remote
  calls on the gRPC thread and with what the network thread does to the sessions.
\<close>

section \<open>The requests for a tick\<close>

fun ticks_of :: "continuation list \<Rightarrow> int list" where
  "ticks_of [] = []"
| "ticks_of (KWorldTick t # ks) = t # ticks_of ks"
| "ticks_of (k # ks) = ticks_of ks"

text \<open>The targets of the calls of \<open>ProcessWorldTick\<close> that are under way or whose answer is queued.\<close>

definition tick_calls :: "server \<Rightarrow> int list" where
  "tick_calls s = ticks_of (List.map snd (outbox (world_of s)) @ List.map fst (write_buffer (grpc_tasks s)))"

text \<open>An answer to a tick that reports success.\<close>

definition ticked :: "grpc_task list \<Rightarrow> bool" where
  "ticked ts \<longleftrightarrow> (\<exists>(k, a)\<in>set ts. case k of KWorldTick t \<Rightarrow>
     (case a of TickAnswer success message busy_ids deltas \<Rightarrow> success | _ \<Rightarrow> False) | _ \<Rightarrow> False)"

lemma ticks_of_append [simp]: "ticks_of (ks @ ls) = ticks_of ks @ ticks_of ls"
  by (induction ks rule: ticks_of.induct) auto

lemma ticks_of_none: "(\<And>k t. k \<in> set ks \<Longrightarrow> k \<noteq> KWorldTick t) \<Longrightarrow> ticks_of ks = []"
  by (induction ks rule: ticks_of.induct) auto

lemma ticks_of_other: "(\<And>t. k \<noteq> KWorldTick t) \<Longrightarrow> ticks_of (k # ks) = ticks_of ks"
  by (cases k) auto

lemma ticked_none: "ticked ts \<Longrightarrow> ticks_of (List.map fst ts) \<noteq> []"
proof (induction ts)
  case (Cons x ts)
  obtain k a where x: "x = (k, a)" by fastforce
  show ?case
  proof (cases "\<exists>t. k = KWorldTick t")
    case True
    then show ?thesis by (auto simp: x)
  next
    case False
    then have "ticked ts" using Cons.prems by (auto simp: x ticked_def split: continuation.splits)
    with Cons.IH False show ?thesis by (simp add: x ticks_of_other)
  qed
qed (simp add: ticked_def)

lemma carries_ticks:
  assumes "carries w w'"
  shows "ticks_of (List.map snd (outbox w')) = ticks_of (List.map snd (outbox w))"
proof -
  obtain cs where "outbox w' = outbox w @ cs" "\<forall>ck\<in>set cs. \<forall>t. snd ck \<noteq> KWorldTick t"
    using assms by (auto simp: carries_def)
  moreover from this have "ticks_of (List.map snd cs) = []" by (intro ticks_of_none) auto
  ultimately show ?thesis by simp
qed

section \<open>The queued answers\<close>

definition drained :: "int \<Rightarrow> grpc_task list \<Rightarrow> server \<Rightarrow> server \<Rightarrow> bool" where
  "drained target ts s s' \<longleftrightarrow> carries (world_of s) (world_of s') \<and>
     pending_commands (tcp (world_of s')) = pending_commands (tcp (world_of s)) \<and>
     nav_of s' = nav_of s \<and> grpc_tasks s' = grpc_tasks s \<and> sv_tick s' = sv_tick s \<and>
     (ticks_of (List.map fst ts) = [] \<longrightarrow> is_tick_sync_pending s' = is_tick_sync_pending s) \<and>
     (tick_synced_ready s' \<longleftrightarrow> tick_synced_ready s \<or> ticked ts) \<and>
     ((tick_synced_ready s \<longrightarrow> next_tick_val s = target) \<longrightarrow> tick_synced_ready s' \<longrightarrow> next_tick_val s' = target)"

lemma tick_task:
  assumes i: "world_inv (world_of s)"
  shows "\<exists>s1. run_continuation env (KWorldTick target) a s = Some s1 \<and> drained target [(KWorldTick target, a)] s s1"
  using carries_refl [OF i]
  by (cases a) (auto simp: drained_def ticked_def on_tick_answer_def Let_def)

lemma run_tasks:
  assumes "world_inv (world_of s)" "env_ok env" "\<forall>ka\<in>set ts. task_ok (reg (world_of s)) ka"
    "\<forall>t\<in>set (ticks_of (List.map fst ts)). t = target"
  shows "\<exists>s'. foldM (\<lambda>(k, a). run_continuation env k a) ts s = Some s' \<and> drained target ts s s'"
  using assms
proof (induction ts arbitrary: s)
  case Nil
  then show ?case by (simp add: drained_def carries_refl ticked_def)
next
  case (Cons x ts)
  obtain k a where x: "x = (k, a)" by fastforce
  have "\<exists>s1. run_continuation env k a s = Some s1 \<and> drained target [(k, a)] s s1"
  proof (cases "\<exists>t. k = KWorldTick t")
    case True
    then have "k = KWorldTick target" using Cons.prems(4) by (auto simp: x)
    then show ?thesis using tick_task [OF Cons.prems(1)] by blast
  next
    case False
    then have "ticks_of [k] = []" "\<not> ticked [(k, a)]"
      by (simp_all add: ticks_of_other) (auto simp: ticked_def split: continuation.splits)
    with other_task [OF Cons.prems(1,2), of k a] Cons.prems(3) False show ?thesis by (auto simp: x drained_def)
  qed
  then obtain s1 where s1: "run_continuation env k a s = Some s1" "drained target [(k, a)] s s1" by blast
  have c: "carries (world_of s) (world_of s1)" using s1(2) by (simp add: drained_def)
  have t: "set (ticks_of (List.map fst ts)) \<subseteq> set (ticks_of (List.map fst (x # ts)))"
    using ticks_of_append [of "[k]" "List.map fst ts"] by (auto simp: x)
  have "\<forall>ka\<in>set ts. task_ok (reg (world_of s1)) ka" using Cons.prems(3) task_ok_carries [OF c] by auto
  from Cons.IH [OF carries_inv [OF c] Cons.prems(2) this] Cons.prems(4) t obtain s' where
    s': "foldM (\<lambda>(k, a). run_continuation env k a) ts s1 = Some s'" "drained target ts s1 s'" by blast
  have "ticked (x # ts) \<longleftrightarrow> ticked [(k, a)] \<or> ticked ts" by (auto simp: ticked_def x)
  moreover have "ticks_of (List.map fst (x # ts)) = ticks_of [k] @ ticks_of (List.map fst ts)"
    using ticks_of_append [of "[k]" "List.map fst ts"] by (simp add: x)
  ultimately have "drained target (x # ts) s s'"
    using s1(2) s'(2) carries_trans [OF c, of "world_of s'"] by (simp add: drained_def)
  with s1(1) s'(1) show ?case by (auto simp: x)
qed

section \<open>One frame\<close>

definition sync_ok :: "server \<Rightarrow> bool" where
  "sync_ok s \<longleftrightarrow> \<not> tick_synced_ready s \<and> length (tick_calls s) \<le> 1 \<and>
     (\<forall>t\<in>set (tick_calls s). is_tick_sync_pending s \<and> t = sv_tick s + 1)"

definition server_inv :: "server \<Rightarrow> bool" where
  "server_inv s \<longleftrightarrow> world_inv (world_of s) \<and> nav_ok (nav_of s) \<and> ticks_per_hour (reg (world_of s)) \<noteq> 0 \<and>
     grpc_queue_inv (grpc_tasks s) \<and> (\<forall>ka\<in>set (write_buffer (grpc_tasks s)). task_ok (reg (world_of s)) ka) \<and>
     sync_ok s"

definition logins_ok :: "env \<Rightarrow> world \<Rightarrow> bool" where
  "logins_ok env w \<longleftrightarrow> (\<forall>cmd\<in>set (pending_commands (tcp w)). login_ok env (reg w) cmd)"

lemma logins_ok_carries:
  assumes "carries w w'" "pending_commands (tcp w') = pending_commands (tcp w)" "logins_ok env w"
  shows "logins_ok env w'"
  using assms by (fastforce simp: logins_ok_def login_ok_def carries_def npcs_known_def split: option.splits)

lemma synced_tick_steps:
  assumes i: "world_inv (world_of s)" and e: "env_ok env"
  shows "\<exists>w' b. synced_tick env s = Some (s\<lparr>world_of := w', is_first_loop := b, tick_synced_ready := False,
      sv_tick := if tick_synced_ready s then next_tick_val s else sv_tick s\<rparr>) \<and> carries (world_of s) w'"
proof (cases "tick_synced_ready s")
  case False
  then show ?thesis
    by (intro exI [of _ "world_of s"] exI [of _ "is_first_loop s"]) (simp add: synced_tick_def carries_refl [OF i])
next
  case True
  define t where "t = next_tick_val s"
  define w1 where "w1 = (world_of s)\<lparr>reg := (reg (world_of s))\<lparr>bt_context_tick := Some t\<rparr>\<rparr>"
  define day where "day = (is_first_loop s \<or> t mod 24 = 0)"
  have c: "carries (world_of s) w1" unfolding w1_def by (rule bt_tick_carries [OF i])
  obtain w2 where w2: "tick_systems env t day (temp_relationship_deltas s) w1 = Some w2" "carries w1 w2"
    using tick_systems_steps [OF carries_inv [OF c] e, of t day "temp_relationship_deltas s"] by (auto simp: steps_def)
  have "synced_tick env s = Some (s\<lparr>world_of := w2, is_first_loop := is_first_loop s \<and> \<not> day,
      tick_synced_ready := False, sv_tick := t\<rparr>)"
    using True w2(1) [unfolded w1_def day_def t_def] unfolding day_def t_def
    by (simp add: synced_tick_def set_tick_def Let_def on_world_def)
  with carries_trans [OF c w2(2)] True show ?thesis by (auto simp: t_def)
qed

text \<open>What a frame does to the clock.\<close>

definition clock_step :: "server \<Rightarrow> server \<Rightarrow> bool" where
  "clock_step s s' \<longleftrightarrow> sv_tick s' = sv_tick s + (if ticked (write_buffer (grpc_tasks s)) then 1 else 0) \<and>
     (is_tick_sync_pending s \<and> tick_calls s = [] \<longrightarrow> is_tick_sync_pending s' \<and> tick_calls s' = [])"

text \<open>The frame up to the request for the next tick.\<close>

definition framed :: "server \<Rightarrow> server \<Rightarrow> bool" where
  "framed s s' \<longleftrightarrow> carries (world_of s) (world_of s') \<and> nav_ok (nav_of s') \<and> write_buffer (grpc_tasks s') = [] \<and>
     grpc_queue_inv (grpc_tasks s') \<and> \<not> tick_synced_ready s' \<and>
     sv_tick s' = sv_tick s + (if ticked (write_buffer (grpc_tasks s)) then 1 else 0) \<and>
     (ticks_of (List.map fst (write_buffer (grpc_tasks s))) = [] \<longrightarrow> is_tick_sync_pending s' = is_tick_sync_pending s)"

lemma answers_and_commands:
  assumes i: "server_inv s" and e: "env_ok env" and l: "logins_ok env (world_of s)"
  shows "\<exists>s1 w2 w3. drain_tasks env s = Some s1 \<and>
    SystemCleanupDisconnectedPlayerDialogues env (world_of s1) = Some w2 \<and> SystemPlayerCommands env w2 = Some w3 \<and>
    carries (world_of s1) w3 \<and>
    drained (sv_tick s + 1) (write_buffer (grpc_tasks s)) (s\<lparr>grpc_tasks := snd (Drain (grpc_tasks s))\<rparr>) s1"
proof -
  define ts where "ts = write_buffer (grpc_tasks s)"
  define q where "q = snd (Drain (grpc_tasks s))"
  have iq: "grpc_queue_inv (grpc_tasks s)" and iw: "world_inv (world_of s)"
    and tk: "\<forall>ka\<in>set ts. task_ok (reg (world_of s)) ka" and sy: "\<forall>t\<in>set (ticks_of (List.map fst ts)). t = sv_tick s + 1"
    using i by (auto simp: server_inv_def sync_ok_def tick_calls_def ts_def)
  have q: "Drain (grpc_tasks s) = (ts, q)"
    using grpcq.drain_items [OF iq] by (simp add: q_def ts_def prod_eq_iff)
  obtain s1 where s1: "drain_tasks env s = Some s1" and d: "drained (sv_tick s + 1) ts (s\<lparr>grpc_tasks := q\<rparr>) s1"
    using run_tasks [of "s\<lparr>grpc_tasks := q\<rparr>" env ts "sv_tick s + 1"] iw e tk sy by (auto simp: drain_tasks_def q)
  have c1: "carries (world_of s) (world_of s1)" using d by (simp add: drained_def)
  have l1: "logins_ok env (world_of s1)" by (rule logins_ok_carries [OF c1 _ l]) (use d in \<open>simp add: drained_def\<close>)
  have "distinct (order env (reg (world_of s1)))" using e by (simp add: env_ok_def)
  from cleanup_steps [OF carries_inv [OF c1] this] obtain w2 where
    w2: "SystemCleanupDisconnectedPlayerDialogues env (world_of s1) = Some w2"
      "carries (world_of s1) w2" "tcp w2 = tcp (world_of s1)" by blast
  have l2: "logins_ok env w2" by (rule logins_ok_carries [OF w2(2) _ l1]) (simp add: w2(3))
  obtain w3 where w3: "SystemPlayerCommands env w2 = Some w3" "carries w2 w3"
    using commands_steps [OF carries_inv [OF w2(2)], of env] e l2 by (auto simp: env_ok_def logins_ok_def steps_def)
  show ?thesis using s1 w2 w3 d carries_trans [OF w2(2) w3(2)] by (auto simp: ts_def q_def)
qed

lemma frame_framed:
  assumes i: "server_inv s" and e: "env_ok env" and l: "logins_ok env (world_of s)"
  shows "\<exists>s5. frame env tie p s = request_tick p s5 \<and> framed s s5"
proof -
  obtain s1 w2 w3 where s1: "drain_tasks env s = Some s1"
    "SystemCleanupDisconnectedPlayerDialogues env (world_of s1) = Some w2" "SystemPlayerCommands env w2 = Some w3"
    and c3: "carries (world_of s1) w3" and d: "drained (sv_tick s + 1) (write_buffer (grpc_tasks s))
      (s\<lparr>grpc_tasks := snd (Drain (grpc_tasks s))\<rparr>) s1"
    using answers_and_commands [OF i e l] by blast
  obtain w4 b where w4: "synced_tick env (s1\<lparr>world_of := w3\<rparr>) = Some (s1\<lparr>world_of := w4, is_first_loop := b,
      tick_synced_ready := False, sv_tick := if tick_synced_ready s1 then next_tick_val s1 else sv_tick s1\<rparr>)"
    "carries w3 w4"
    using synced_tick_steps [of "s1\<lparr>world_of := w3\<rparr>" env] carries_inv [OF c3] e by (auto cong: if_cong)
  define t where "t = (if tick_synced_ready s1 then next_tick_val s1 else sv_tick s1)"
  have "\<not> tick_synced_ready s" using i by (simp add: server_inv_def sync_ok_def)
  then have t: "t = sv_tick s + (if ticked (write_buffer (grpc_tasks s)) then 1 else 0)"
    using d by (auto simp: t_def drained_def)
  have "nav_ok (nav_of s1)" using d i by (simp add: drained_def server_inv_def)
  from frame_systems_steps [OF carries_inv [OF w4(2)] this e] obtain w5 n5 where
    w5: "frame_systems env tie t (w4, nav_of s1) = Some (w5, n5)" "carries w4 w5" "nav_ok n5" by blast
  define s5 where "s5 = s1\<lparr>is_first_loop := b, tick_synced_ready := False, sv_tick := t, world_of := w5, nav_of := n5\<rparr>"
  have f: "frame env tie p s = request_tick p s5"
    by (simp add: frame_def s1 on_world_def w4(1) t_def [symmetric] w5(1) s5_def)
  have iq: "grpc_queue_inv (grpc_tasks s)" using i by (simp add: server_inv_def)
  have "carries (world_of s) w5"
    using d carries_trans [OF _ carries_trans [OF c3 carries_trans [OF w4(2) w5(2)]]] by (simp add: drained_def)
  then have "framed s s5"
    using d t w5(3) grpcq.content_drain [OF iq] grpcq.invar_drain [OF iq] by (simp add: framed_def s5_def drained_def)
  with f show ?thesis by blast
qed

lemma request_ok:
  assumes i: "server_inv s" and f: "framed s s5"
  shows "\<exists>s'. request_tick p s5 = Some s' \<and> server_inv s' \<and> clock_step s s'"
proof -
  define ts where "ts = write_buffer (grpc_tasks s)"
  define A where "A = ticks_of (List.map snd (outbox (world_of s)))"
  define B where "B = ticks_of (List.map fst ts)"
  define w5 where "w5 = world_of s5"
  define t where "t = sv_tick s5"
  have sy: "length A + length B \<le> 1" "\<forall>x\<in>set A \<union> set B. is_tick_sync_pending s \<and> x = sv_tick s + 1"
    using i by (auto simp: server_inv_def sync_ok_def tick_calls_def A_def B_def ts_def)
  have c: "carries (world_of s) w5" and t: "t = sv_tick s + (if ticked ts then 1 else 0)"
    and pend: "B = [] \<Longrightarrow> is_tick_sync_pending s5 = is_tick_sync_pending s"
    using f by (simp_all add: framed_def w5_def t_def ts_def B_def)
  have h5: "ticks_per_hour (reg w5) \<noteq> 0" using i c by (simp add: server_inv_def ticks_per_hour_def carries_def)
  have AB: "A \<noteq> [] \<Longrightarrow> B = [] \<and> \<not> ticked ts" using sy(1) ticked_none [of ts] by (cases A; cases B) (auto simp: B_def)
  define w6 where "w6 = call_rpc (ProcessWorldTick (t + 1)) (KWorldTick (t + 1)) w5"
  define fire where "fire = (ticks_per_hour (reg w5) dvd p \<and> \<not> is_tick_sync_pending s5)"
  define s' where "s' = (if fire then s5\<lparr>is_tick_sync_pending := True, world_of := w6\<rparr> else s5)"
  have r: "request_tick p s5 = Some s'"
    using h5 by (simp add: request_tick_def Let_def fire_def s'_def w6_def w5_def t_def)
  have w6: "world_inv w6"
    using carries_inv [OF c] by (simp add: world_inv_def player_inv_def w6_def call_rpc_def)
  have fA: "fire \<Longrightarrow> A = []" using pend AB sy(2) by (cases A) (auto simp: fire_def)
  have tc: "tick_calls s' = (if fire then [t + 1] else A)"
    using fA f carries_ticks [OF c] by (simp add: tick_calls_def s'_def A_def w6_def call_rpc_def framed_def w5_def)
  have "is_tick_sync_pending s5 \<and> x = t + 1" if x: "x \<in> set A" for x
  proof -
    have "A \<noteq> []" using x by auto
    with AB pend sy(2) t x show ?thesis by simp
  qed
  moreover have fs: "is_tick_sync_pending s' \<longleftrightarrow> fire \<or> is_tick_sync_pending s5" "sv_tick s' = t" "\<not> tick_synced_ready s'"
    using f by (auto simp: s'_def t_def framed_def)
  ultimately have "sync_ok s'" using sy(1) by (auto simp: sync_ok_def tc fs)
  moreover have "ticks_per_hour (reg (world_of s')) \<noteq> 0" using h5 by (simp add: s'_def w6_def call_rpc_def w5_def)
  ultimately have "server_inv s'"
    using w6 carries_inv [OF c] f by (simp add: server_inv_def s'_def framed_def w5_def)
  moreover have "is_tick_sync_pending s5 \<and> A = []" if "is_tick_sync_pending s" "tick_calls s = []"
    using that pend by (simp add: tick_calls_def A_def B_def ts_def)
  then have "clock_step s s'" using t by (auto simp: clock_step_def tc fs fire_def ts_def)
  ultimately show ?thesis using r by blast
qed

lemma frame_ok:
  assumes "server_inv s" "env_ok env" "logins_ok env (world_of s)"
  shows "\<exists>s'. frame env tie p s = Some s' \<and> server_inv s' \<and> clock_step s s'"
  using frame_framed [OF assms, of tie p] request_ok [OF assms(1)] by metis

section \<open>The start\<close>

definition cast_ok :: "world \<Rightarrow> bool" where
  "cast_ok w \<longleftrightarrow> located (reg w) (grid_reg w) \<and> outbox w = [] \<and> player_dialogue (reg w) = Map.empty \<and>
     (\<forall>e. activity (reg w) e \<noteq> None \<or> health (reg w) e \<noteq> None \<longrightarrow> affordance (reg w) e = None \<and> e < next_entity (reg w)) \<and>
     (\<forall>e\<ge>next_entity (reg w). affordance (reg w) e = None)"

lemma furniture_cast: "cast_ok w \<Longrightarrow> cast_ok (spawn_furniture f w)"
proof -
  assume c: "cast_ok w"
  define e where "e = next_entity (reg w)"
  obtain l g aff where s: "spawn_furniture f w = w\<lparr>grid_reg := g, reg :=
      (new_place e (reg w) \<lparr>npc_id = 0, display_name = fd_name f\<rparr> l)\<lparr>affordance := (affordance (reg w))(e \<mapsto> aff)\<rparr>\<rparr>"
    and l: "located (reg (spawn_furniture f w)) g"
    using spawn_furniture_effect [of w f] c unfolding cast_ok_def e_def by blast
  have "activity (reg w) e = None" "health (reg w) e = None" using c by (auto simp: cast_ok_def e_def)
  with c l show ?thesis by (auto simp: cast_ok_def s new_place_def e_def less_Suc_eq)
qed

lemma agent_cast:
  assumes c: "cast_ok w" and r: "spawn_agent (a, d) (w, names, emotions, index) = (w', x)"
  shows "cast_ok w'"
proof (cases "ia_agent_id a = 1")
  case True
  with c r show ?thesis by (auto simp: spawn_agent_def)
next
  case False
  define e where "e = next_entity (reg w)"
  obtain l g where s: "w' = w\<lparr>grid_reg := g, reg := add_components e a (fst (agent_emotion (ia_emotion a) emotions)) d
          (new_place e (reg w) \<lparr>npc_id = ia_agent_id a, display_name = ia_name a\<rparr> l)\<rparr>"
    and l: "located (new_place e (reg w) \<lparr>npc_id = ia_agent_id a, display_name = ia_name a\<rparr> l) g"
    using spawn_agent_effect [OF _ False e_def, of d names emotions index] c r by (auto simp: cast_ok_def)
  from l have "located (reg w') (grid_reg w')" by (simp add: s add_components_def located_def)
  with c show ?thesis by (auto simp: cast_ok_def s add_components_def new_place_def e_def less_Suc_eq)
qed

lemma populate_cast:
  assumes "cast_ok w" "populate b draws w = (w', x)"
  shows "cast_ok w'"
proof -
  have f: "cast_ok (fold spawn_furniture fs w)" for fs
    using assms(1) by (induction fs arbitrary: w) (auto intro: furniture_cast)
  have a: "cast_ok (fst s) \<Longrightarrow> cast_ok (fst (fold spawn_agent ps s))" for ps s
  proof (induction ps arbitrary: s)
    case (Cons p ps)
    have "cast_ok (fst (spawn_agent p s))"
      using agent_cast Cons.prems by (cases p; cases s) (metis eq_fst_iff prod.collapse fst_conv)
    with Cons.IH show ?case by simp
  qed simp
  from a [of "(fold spawn_furniture (wb_furniture b) w, base_names, base_emotions, Map.empty)"] f assms(2)
  show ?thesis by (simp add: populate_def) (metis fst_conv)
qed

lemma context_fields:
  "outbox (add_context t b (w, x)) = outbox w" "player_dialogue (reg (add_context t b (w, x))) = player_dialogue (reg w)"
  "activity (reg (add_context t b (w, x))) = activity (reg w)" "health (reg (add_context t b (w, x))) = health (reg w)"
  "affordance (reg (add_context t b (w, x))) = affordance (reg w)"
  "next_entity (reg (add_context t b (w, x))) = next_entity (reg w)"
  by (cases x; simp add: add_context_def)+

lemma start_ok:
  assumes b: "boot stof file obstacles response draws chance = Booted w m"
    and n: "card (ia_emotion ` spawned (GetWorldBootstrap response)) \<le> 235" and h: "ticks_per_hour (reg w) \<noteq> 0"
  shows "server_inv (start_server w m)"
proof -
  define d where "d = GetWorldBootstrap response"
  obtain w1 x where p: "populate d draws (empty_world chance (load_places (wb_locations d))) = (w1, x)" by (metis surj_pair)
  have w: "w = add_context (load_settings stof file) d (w1, x)"
    using b by (auto simp: boot_def Let_def d_def [symmetric] p split: if_splits)
  have "cast_ok (empty_world chance (load_places (wb_locations d)))"
    using load_places_cells by (simp add: cast_ok_def empty_world_def registry_init_def located_def)
  then have c: "cast_ok w1" by (rule populate_cast [OF _ p])
  note k = boot_world_ok [OF b n]
  have q: "outbox w = []" "player_dialogue (reg w) = Map.empty"
    "\<And>e. activity (reg w) e \<noteq> None \<or> health (reg w) e \<noteq> None \<Longrightarrow> affordance (reg w) e = None \<and> e < next_entity (reg w)"
    using c unfolding cast_ok_def w context_fields by blast+
  have "things_ok (reg w)" using k q(3) by (auto simp: things_ok_def person_def)
  moreover have "talks_ok (reg w)" "own_ids (reg w)" "\<forall>ck\<in>set (outbox w). k_ok (reg w) (snd ck)"
    using k q(1,2) by (simp_all add: talks_ok_def own_ids_def)
  ultimately have "world_inv w" using k by (simp add: world_inv_def)
  moreover have "nav_ok (nav_of (start_server w m))"
    using k fresh_scratch_ok by (simp add: nav_ok_def start_server_def)
  ultimately show ?thesis
    using h q(1) by (simp add: server_inv_def start_server_def grpc_queue_inv_def grpc_queue_empty_def sync_ok_def tick_calls_def)
qed

section \<open>The end of a remote call\<close>

text \<open>The AI server gives jobs to agents it knows.\<close>

definition answer_known :: "rpc_stubs \<Rightarrow> registry \<Rightarrow> rpc_call \<Rightarrow> bool" where
  "answer_known net r c \<longleftrightarrow> (\<forall>a. perform net c = Some a \<longrightarrow> answer_ok r a)"

lemma decrement_same:
  "reg (decrement_pending x w) = reg w" "grid_reg (decrement_pending x w) = grid_reg w"
  "outbox (decrement_pending x w) = outbox w" "tcp (decrement_pending x w) = tcp w"
  by (simp_all add: decrement_pending_def split: option.split)

lemma world_inv_cong:
  assumes "world_inv w" "reg w' = reg w" "grid_reg w' = grid_reg w" "set (outbox w') \<subseteq> set (outbox w)"
  shows "world_inv w'"
  using assms by (auto simp: world_inv_def player_inv_def)

lemma call_end_ok:
  assumes i: "server_inv s" and j: "j < length (outbox (world_of s))" 
    and a: "answer_known net (reg (world_of s)) (fst (outbox (world_of s) ! j))"
    and r: "complete_call net j (world_of s, grpc_tasks s) = (w, q)"
  shows "server_inv (s\<lparr>world_of := w, grpc_tasks := q\<rparr>)"
    and "set (tick_calls (s\<lparr>world_of := w, grpc_tasks := q\<rparr>)) \<subseteq> set (tick_calls s)"
proof -
  let ?w = "world_of s" and ?s = "s\<lparr>world_of := w, grpc_tasks := q\<rparr>"
  obtain c k where ck: "outbox ?w ! j = (c, k)" by fastforce
  have o: "outbox ?w = take j (outbox ?w) @ (c, k) # drop (Suc j) (outbox ?w)"
    using id_take_nth_drop [OF j] ck by simp
  define rest where "rest = take j (outbox ?w) @ drop (Suc j) (outbox ?w)"
  have rest: "set rest \<subseteq> set (outbox ?w)" "(c, k) \<in> set (outbox ?w)"
    using set_take_subset [of j "outbox ?w"] set_drop_subset [of "Suc j" "outbox ?w"] nth_mem [OF j]
    by (simp_all add: rest_def ck)
  have e: "reg w = reg ?w" "grid_reg w = grid_reg ?w" "outbox w = rest"
    and q: "q = grpc_tasks s \<or> (\<exists>b. perform net c = Some b \<and> q = Push (k, b) (grpc_tasks s))"
    using r by (auto simp: complete_call_def ck Let_def rest_def decrement_same split: option.splits if_splits)
  have iq: "grpc_queue_inv (grpc_tasks s)" and iw: "world_inv ?w" using i by (simp_all add: server_inv_def)
  have kk: "k_ok (reg ?w) k" using iw rest(2) by (auto simp: world_inv_def)
  have tasks: "\<forall>ka\<in>set (write_buffer q). task_ok (reg ?w) ka"
    using q i kk a grpcq.content_push [OF iq] by (auto simp: server_inv_def task_ok_def answer_known_def ck)
  have tk: "set (tick_calls ?s) \<subseteq> set (tick_calls s)" "length (tick_calls ?s) \<le> length (tick_calls s)"
  proof -
    have "tick_calls s = ticks_of (List.map snd (take j (outbox ?w))) @ ticks_of [k] @
        ticks_of (List.map snd (drop (Suc j) (outbox ?w))) @ ticks_of (List.map fst (write_buffer (grpc_tasks s)))"
      using arg_cong [OF o, of "\<lambda>x. ticks_of (List.map snd x)"] ticks_of_append [of "[k]" "List.map snd (drop (Suc j) (outbox ?w))"]
      by (simp add: tick_calls_def)
    moreover have "tick_calls ?s = ticks_of (List.map snd (take j (outbox ?w))) @
        ticks_of (List.map snd (drop (Suc j) (outbox ?w))) @ ticks_of (List.map fst (write_buffer q))"
      by (simp add: tick_calls_def e(3) rest_def)
    moreover have "ticks_of (List.map fst (write_buffer q)) = ticks_of (List.map fst (write_buffer (grpc_tasks s))) \<or>
        ticks_of (List.map fst (write_buffer q)) = ticks_of (List.map fst (write_buffer (grpc_tasks s))) @ ticks_of [k]"
      using q grpcq.content_push [OF iq] by auto
    ultimately show "set (tick_calls ?s) \<subseteq> set (tick_calls s)" "length (tick_calls ?s) \<le> length (tick_calls s)" by auto
  qed
  then show "set (tick_calls ?s) \<subseteq> set (tick_calls s)" by simp
  have "world_inv w" by (rule world_inv_cong [OF iw]) (use e rest in auto)
  moreover have "grpc_queue_inv q" using q iq grpcq.invar_push by auto
  moreover have "sync_ok ?s" using i tk by (auto simp: server_inv_def sync_ok_def)
  ultimately show "server_inv ?s" using i tasks by (simp add: server_inv_def e)
qed

lemma lost_tick_call:
  assumes i: "server_inv s" and j: "j < length (outbox (world_of s))"
    and o: "outbox (world_of s) ! j = (ProcessWorldTick n, KWorldTick n)" and p: "perform net (ProcessWorldTick n) = None"
    and r: "complete_call net j (world_of s, grpc_tasks s) = (w, q)"
  shows "server_inv (s\<lparr>world_of := w, grpc_tasks := q\<rparr>)" and "is_tick_sync_pending s"
    and "tick_calls (s\<lparr>world_of := w, grpc_tasks := q\<rparr>) = []"
proof -
  let ?w = "world_of s"
  show "server_inv (s\<lparr>world_of := w, grpc_tasks := q\<rparr>)"
    by (rule call_end_ok(1) [OF i j _ r]) (use p in \<open>simp add: answer_known_def o\<close>)
  have e: "outbox ?w = take j (outbox ?w) @ (ProcessWorldTick n, KWorldTick n) # drop (Suc j) (outbox ?w)"
    using id_take_nth_drop [OF j] o by simp
  have t: "tick_calls s = ticks_of (List.map snd (take j (outbox ?w))) @ n #
      ticks_of (List.map snd (drop (Suc j) (outbox ?w))) @ ticks_of (List.map fst (write_buffer (grpc_tasks s)))"
    using arg_cong [OF e, of "\<lambda>x. ticks_of (List.map snd x)"] by (simp add: tick_calls_def)
  have "outbox w = take j (outbox ?w) @ drop (Suc j) (outbox ?w)" "q = grpc_tasks s"
    using r p by (auto simp: complete_call_def o Let_def)
  moreover have s: "length (tick_calls s) \<le> 1" "\<forall>x\<in>set (tick_calls s). is_tick_sync_pending s"
    using i by (auto simp: server_inv_def sync_ok_def)
  ultimately show "tick_calls (s\<lparr>world_of := w, grpc_tasks := q\<rparr>) = []"
    using t by (simp add: tick_calls_def)
  show "is_tick_sync_pending s" using s(2) unfolding t by auto
qed

section \<open>Runs of the server\<close>

text \<open>
  A configuration is the state with the number of frames so far. A step is a frame of the main
  thread, the end of a remote call on the gRPC thread, or anything the network thread does to
  the sessions, the command queue and the back-pressure. Each frame has its own environment:
  visit order, tie breaks, encoders. Commands that arrive during a frame are those of the next.
\<close>

inductive server_step :: "server \<times> int \<Rightarrow> server \<times> int \<Rightarrow> bool" where
  tick: "env_ok env \<Longrightarrow> logins_ok env (world_of s) \<Longrightarrow> frame env tie (p + 1) s = Some s' \<Longrightarrow>
    server_step (s, p) (s', p + 1)"
| answer: "j < length (outbox (world_of s)) \<Longrightarrow> answer_known net (reg (world_of s)) (fst (outbox (world_of s) ! j)) \<Longrightarrow>
    complete_call net j (world_of s, grpc_tasks s) = (w, q) \<Longrightarrow>
    server_step (s, p) (s\<lparr>world_of := w, grpc_tasks := q\<rparr>, p)"
| network: "server_step (s, p) (s\<lparr>world_of := (world_of s)\<lparr>tcp := x, backpressure := b\<rparr>\<rparr>, p)"

inductive_cases server_stepE: "server_step (s, p) c"

inductive server_run :: "server \<times> int \<Rightarrow> bool" where
  start: "boot stof file obstacles response draws chance = Booted w m \<Longrightarrow>
    card (ia_emotion ` spawned (GetWorldBootstrap response)) \<le> 235 \<Longrightarrow> ticks_per_hour (reg w) \<noteq> 0 \<Longrightarrow>
    server_run (start_server w m, 0)"
| step: "server_run c \<Longrightarrow> server_step c c' \<Longrightarrow> server_run c'"

definition stuck :: "server \<Rightarrow> bool" where
  "stuck s \<longleftrightarrow> is_tick_sync_pending s \<and> tick_calls s = []"

lemma network_ok:
  assumes "server_inv s"
  shows "server_inv (s\<lparr>world_of := (world_of s)\<lparr>tcp := x, backpressure := b\<rparr>\<rparr>)"
    and "tick_calls (s\<lparr>world_of := (world_of s)\<lparr>tcp := x, backpressure := b\<rparr>\<rparr>) = tick_calls s"
  using assms world_inv_cong [of "world_of s" "(world_of s)\<lparr>tcp := x, backpressure := b\<rparr>"]
  by (simp_all add: server_inv_def sync_ok_def tick_calls_def)

lemma step_ok:
  assumes "server_step c c'" "server_inv (fst c)"
  shows "server_inv (fst c') \<and> (stuck (fst c) \<longrightarrow> stuck (fst c') \<and> sv_tick (fst c') = sv_tick (fst c))"
  using assms
proof cases
  case (tick env s tie p s')
  then obtain s1 where "frame env tie (p + 1) s = Some s1" "server_inv s1" "clock_step s s1"
    using frame_ok [of s env tie "p + 1"] assms(2) by auto
  moreover have "tick_calls s = [] \<Longrightarrow> \<not> ticked (write_buffer (grpc_tasks s))"
    using ticked_none [of "write_buffer (grpc_tasks s)"] by (auto simp: tick_calls_def)
  ultimately show ?thesis using tick by (simp add: clock_step_def stuck_def)
next
  case (answer j s net w q p)
  with call_end_ok [of s j net w q] assms(2) show ?thesis by (auto simp: stuck_def)
next
  case (network s p x b)
  with network_ok [of s x b] assms(2) show ?thesis by (auto simp: stuck_def)
qed

lemma run_ok: "server_run c \<Longrightarrow> server_inv (fst c)"
proof (induction rule: server_run.induct)
  case (start stof lines obstacles response draws chance w m)
  then show ?case using start_ok by simp
next
  case (step c c')
  then show ?case using step_ok by blast
qed

lemma stuck_steps:
  assumes "server_step\<^sup>*\<^sup>* c c'" "server_inv (fst c)" "stuck (fst c)"
  shows "stuck (fst c') \<and> sv_tick (fst c') = sv_tick (fst c) \<and> server_inv (fst c')"
  using assms by (induction rule: rtranclp_induct) (use step_ok in auto)

section \<open>The server never goes wrong\<close>


text \<open>C2: The clock of the simulation moves by one exactly in the frame that finds the successful
  answer to a request for a tick in the queue, and stands still in every other frame; never are
  two requests under way at a time, and the one that is asks for the next tick.\<close>

theorem clock_moves_by_one:
  assumes "server_run (s, p)" and "env_ok env" and "logins_ok env (world_of s)"
    and "frame env tie (p + 1) s = Some s'"
  shows "sv_tick s' = sv_tick s + (if ticked (write_buffer (grpc_tasks s)) then 1 else 0) \<and>
    (tick_calls s' = [] \<or> tick_calls s' = [sv_tick s' + 1] \<and> is_tick_sync_pending s')"
proof -
  have "server_inv s'" "clock_step s s'"
    using frame_ok [of s env tie "p + 1"] run_ok [OF assms(1)] assms(2-) by auto
  moreover from this(1) have "tick_calls s' = [] \<or> (\<exists>t. tick_calls s' = [t] \<and> is_tick_sync_pending s' \<and> t = sv_tick s' + 1)"
    by (cases "tick_calls s'") (auto simp: server_inv_def sync_ok_def)
  ultimately show ?thesis by (auto simp: clock_step_def)
qed

text \<open>C3: If an exception ends a call of \<open>ProcessWorldTick\<close>, game time stops for good: no later run of
  frames, answers and network events ever moves the clock again.\<close>

theorem swallowed_tick_stops_time:
  assumes "server_run (s, p)" and "j < length (outbox (world_of s))"
    and "outbox (world_of s) ! j = (ProcessWorldTick n, KWorldTick n)"
    and "PrepareAsyncProcessWorldTick net (ProcessWorldTickRequest n) 5 = RpcThrow message"
    and "complete_call net j (world_of s, grpc_tasks s) = (w, q)"
    and "server_step\<^sup>*\<^sup>* (s\<lparr>world_of := w, grpc_tasks := q\<rparr>, p) (s', p')"
  shows "sv_tick s' = sv_tick s \<and> tick_calls s' = []"
proof -
  have "perform net (ProcessWorldTick n) = None" using assms(4) by (simp add: DoProcessWorldTick_def)
  note l = lost_tick_call [OF run_ok [OF assms(1), simplified] assms(2,3) this assms(5)]
  have "stuck (s\<lparr>world_of := w, grpc_tasks := q\<rparr>)" using l(2,3) by (simp add: stuck_def)
  with stuck_steps [OF assms(6)] l(1) show ?thesis by (auto simp: stuck_def)
qed

section \<open>A run\<close>

definition hourly_response :: GetWorldBootstrapResponse where
  "hourly_response = demo_bootstrap\<lparr>br_ticks_per_game_hour := 1\<rparr>"

definition run_env :: env where
  "run_env = demo_env\<lparr>order := (\<lambda>r. remdups (live r))\<rparr>"

lemma run_env_ok: "env_ok run_env"
  by (simp add: env_ok_def social_env_def run_env_def demo_env_def fits_def)

lemma first_run:
  obtains s where "server_run (s, 0)" "ticks_per_hour (reg (world_of s)) = 1" "logins_ok run_env (world_of s)"
    "grpc_tasks s = grpc_queue_empty" "\<not> is_tick_sync_pending s" "sv_tick s = 0"
proof -
  let ?b = "GetWorldBootstrap (Inr hourly_response)" and ?f = "Some [''TICKS_PER_GAME_HOUR: 1'']"
  let ?boot = "boot (\<lambda>_. None) ?f NoFile (Inr hourly_response) (\<lambda>_. (Fin 60, Fin 70)) (demo_world registry_init)"
  have b: "wb_locations ?b \<noteq> []" "wb_agents ?b = [agent_of_proto demo_wolf]" "wb_npc_speed ?b = flit 2"
    "wb_ticks_per_game_hour ?b = 1"
    by (simp_all add: GetWorldBootstrap_def hourly_response_def demo_bootstrap_def)
  have l: "load_settings (\<lambda>_. None) ?f = SimulationSettings_default\<lparr>ticks_per_game_hour := 1\<rparr>" by code_simp
  have "\<not> settings_differ (load_settings (\<lambda>_. None) ?f) ?b"
    unfolding l by (simp add: settings_differ_def SimulationSettings_default_def b) code_simp
  then obtain w m where w: "?boot = Booted w m" using b by (simp add: boot_def Let_def)
  obtain w1 x where p: "populate ?b (\<lambda>_. (Fin 60, Fin 70)) (empty_world (demo_world registry_init) (load_places (wb_locations ?b))) = (w1, x)"
    by (metis surj_pair)
  have e: "w = add_context (load_settings (\<lambda>_. None) ?f) ?b (w1, x)"
    using w by (auto simp: boot_def Let_def p split: if_splits)
  have h: "ticks_per_hour (reg w) = 1" by (cases x) (simp add: e l add_context_def ticks_per_hour_def)
  have "card (ia_emotion ` spawned ?b) \<le> 235"
  proof -
    have "spawned ?b \<subseteq> {agent_of_proto demo_wolf}" by (auto simp: spawned_def b)
    then have "card (ia_emotion ` spawned ?b) \<le> 1"
      by (metis card_image_le card_mono finite.emptyI finite.insertI finite_subset is_singletonI is_singleton_altdef le_trans)
    then show ?thesis by simp
  qed
  with server_run.start [OF w] h have "server_run (start_server w m, 0)" by simp
  from server_run.step [OF this server_step.network [where x = TcpServer_init and b = "backpressure w"]] h that
  show thesis by (simp add: start_server_def logins_ok_def TcpServer_init_def)
qed

lemma first_call:
  obtains s where "server_run (s, 1)" "sv_tick s = 0" "logins_ok run_env (world_of s)"
    "outbox (world_of s) \<noteq> []" "last (outbox (world_of s)) = (ProcessWorldTick 1, KWorldTick 1)"
proof -
  obtain s where s: "server_run (s, 0)" "ticks_per_hour (reg (world_of s)) = 1" "logins_ok run_env (world_of s)"
    "grpc_tasks s = grpc_queue_empty" "\<not> is_tick_sync_pending s" "sv_tick s = 0" by (rule first_run)
  have i: "server_inv s" using run_ok [OF s(1)] by simp
  obtain s5 where f: "frame run_env (\<lambda>_. 0) 1 s = request_tick 1 s5" "framed s s5"
    using frame_framed [OF i run_env_ok s(3)] by blast
  have "ticks_per_hour (reg (world_of s5)) = 1" "\<not> is_tick_sync_pending s5" "sv_tick s5 = 0"
    using f(2) s by (simp_all add: framed_def carries_def ticks_per_hour_def grpc_queue_empty_def ticked_def)
  then have r: "request_tick 1 s5 = Some (s5\<lparr>is_tick_sync_pending := True,
      world_of := call_rpc (ProcessWorldTick 1) (KWorldTick 1) (world_of s5)\<rparr>)"
    by (simp add: request_tick_def)
  define s1 where "s1 = s5\<lparr>is_tick_sync_pending := True,
      world_of := call_rpc (ProcessWorldTick 1) (KWorldTick 1) (world_of s5)\<rparr>"
  have "server_run (s1, 0 + 1)"
    by (rule server_run.step [OF s(1) server_step.tick [OF run_env_ok s(3), of "\<lambda>_. 0"]]) (simp add: f(1) r s1_def)
  from server_run.step [OF this server_step.network [where x = TcpServer_init and b = "backpressure (world_of s1)"]] that
  show thesis using \<open>sv_tick s5 = 0\<close> by (simp add: s1_def call_rpc_def logins_ok_def TcpServer_init_def)
qed


theorem clock_moves_by_one_witness:
  "\<exists>s s'. server_run (s, 0) \<and> frame run_env (\<lambda>_. 0) 1 s = Some s' \<and> sv_tick s' = 0"
proof -
  obtain s where s: "server_run (s, 0)" "logins_ok run_env (world_of s)" "grpc_tasks s = grpc_queue_empty" "sv_tick s = 0"
    by (rule first_run)
  obtain s' where f: "frame run_env (\<lambda>_. 0) (0 + 1) s = Some s'"
    using frame_ok [OF _ run_env_ok s(2)] run_ok [OF s(1)] by auto
  from clock_moves_by_one [OF s(1) run_env_ok s(2) f] s f show ?thesis
    by (auto simp: grpc_queue_empty_def ticked_def)
qed

theorem swallowed_tick_stops_time_witness:
  "\<exists>s p s' p'. server_run (s, p) \<and> p < p' \<and> server_step\<^sup>*\<^sup>* (s, p) (s', p') \<and> sv_tick s' = 0 \<and> tick_calls s' = []"
proof -
  obtain s where s: "server_run (s, 1)" "sv_tick s = 0" "logins_ok run_env (world_of s)"
    "outbox (world_of s) \<noteq> []" "last (outbox (world_of s)) = (ProcessWorldTick 1, KWorldTick 1)" by (rule first_call)
  define j where "j = length (outbox (world_of s)) - 1"
  have j: "j < length (outbox (world_of s))" "outbox (world_of s) ! j = (ProcessWorldTick 1, KWorldTick 1)"
    using s(4,5) by (simp_all add: j_def last_conv_nth)
  obtain net :: rpc_stubs where "PrepareAsyncProcessWorldTick net = (\<lambda>_ _. RpcThrow ''bad_alloc'')"
    by (metis rpc_stubs.select_convs(1))
  then have n: "PrepareAsyncProcessWorldTick net (ProcessWorldTickRequest 1) 5 = RpcThrow ''bad_alloc''" by simp
  then have p: "perform net (ProcessWorldTick 1) = None" by (simp add: DoProcessWorldTick_def)
  obtain w q where c: "complete_call net j (world_of s, grpc_tasks s) = (w, q)" by fastforce
  have "w = (world_of s)\<lparr>outbox := take j (outbox (world_of s)) @ drop (Suc j) (outbox (world_of s))\<rparr>"
    using c p by (auto simp: complete_call_def j(2) Let_def)
  then have l: "logins_ok run_env w" using s(3) by (simp add: logins_ok_def)
  let ?s = "s\<lparr>world_of := w, grpc_tasks := q\<rparr>"
  have a: "server_step (s, 1) (?s, 1)"
    by (rule server_step.answer [OF j(1) _ c]) (use p in \<open>simp add: answer_known_def j(2)\<close>)
  have "server_inv ?s" using step_ok [OF a] run_ok [OF s(1)] by simp
  then obtain s' where f: "frame run_env (\<lambda>_. 0) (1 + 1) ?s = Some s'"
    using frame_ok [OF _ run_env_ok, of ?s "\<lambda>_. 0" "1 + 1"] l by auto
  have t: "server_step (?s, 1) (s', 1 + 1)" by (rule server_step.tick [OF run_env_ok _ f]) (simp add: l)
  then have r: "server_step\<^sup>*\<^sup>* (?s, 1) (s', 1 + 1)" by (rule r_into_rtranclp)
  have "server_step\<^sup>*\<^sup>* (s, 1) (s', 1 + 1)" using a r by (rule converse_rtranclp_into_rtranclp)
  with swallowed_tick_stops_time [OF s(1) j n c r] s(1,2) show ?thesis
    by (intro exI [of _ s] exI [of _ 1] exI [of _ s'] exI [of _ "1 + 1"]) simp
qed

end
