(* ===== verification/Bench.thy ===== *)
theory Bench
  imports Queues AStar Boot
begin

text \<open>
  The driver of \<open>Benchmark.cpp\<close>: the choice of the scenario from the command line and the four
  scenarios. A clock difference is an argument of the definitions, in nanoseconds where the code
  casts it down to milliseconds itself; what the scenarios print is their result. The threads that
  fill a queue appear as the number of commands that arrive before each drain. Random numbers and
  the order in which EnTT visits the entities are arguments too.
\<close>

section \<open>The choice of the scenario\<close>

datatype scenario = DODvsOOP | LockSwapVsMutex | IOThreadIsolation | Scalability | UnknownScenario

definition scenario_of :: "int \<Rightarrow> scenario" where
  "scenario_of n = (if n = 1 then DODvsOOP
     else if n = 2 then LockSwapVsMutex
     else if n = 3 then IOThreadIsolation
     else if n = 4 then Scalability
     else UnknownScenario)"

text \<open>
  The value returned and the scenario that has run; \<open>Inl\<close> is the exception of \<open>std::stoi\<close>, which
  neither this function nor \<open>main\<close> catches. The first argument is the program itself.
\<close>

datatype uncaught = StoiError string

definition RunBenchmarkIfRequested :: "string list \<Rightarrow> uncaught + bool \<times> scenario option" where
  "RunBenchmarkIfRequested argv =
     (if length argv < 2 then Inr (False, None)
      else if argv ! 1 = ''--benchmark''
      then if 3 \<le> length argv
        then (case stoi (argv ! 2) of
            None \<Rightarrow> Inl (StoiError (argv ! 2))
          | Some n \<Rightarrow> Inr (True, Some (scenario_of n)))
        else Inr (True, Some (scenario_of 1))
      else Inr (False, None))"

text \<open>A ratio as it is printed: a \<open>double\<close> division that avoids the zero.\<close>

definition printed_ratio :: "int \<Rightarrow> int \<Rightarrow> fl" where
  "printed_ratio a b = fl_div F64 (rnd F64 (of_int a)) (rnd F64 (of_int (if b \<noteq> 0 then b else 1)))"

section \<open>Scenario 1: objects behind pointers and component arrays\<close>

text \<open>The padding is never read.\<close>

record OOP_Entity =
  oe_x :: fl
  oe_y :: fl
  oe_z :: fl
  oe_vx :: fl
  oe_vy :: fl
  oe_vz :: fl
  oe_speed :: fl

definition OOP_Entity_default :: OOP_Entity where
  "OOP_Entity_default = \<lparr>oe_x = Fin 0, oe_y = Fin 0, oe_z = Fin 0,
     oe_vx = Fin 1, oe_vy = Fin 0, oe_vz = Fin 1, oe_speed = Fin 2\<rparr>"

definition OOP_Entity_Update :: "fl \<Rightarrow> OOP_Entity \<Rightarrow> OOP_Entity" where
  "OOP_Entity_Update t e = e\<lparr>
     oe_x := fadd (oe_x e) (fmul (fmul (oe_vx e) (oe_speed e)) t),
     oe_y := fadd (oe_y e) (fmul (fmul (oe_vy e) (oe_speed e)) t),
     oe_z := fadd (oe_z e) (fmul (fmul (oe_vz e) (oe_speed e)) t)\<rparr>"

record DOD_Position =
  dp_x :: fl
  dp_y :: fl
  dp_z :: fl

record DOD_Velocity =
  dv_x :: fl
  dv_y :: fl
  dv_z :: fl
  dv_speed :: fl

definition dod_move :: "fl \<Rightarrow> DOD_Velocity \<Rightarrow> DOD_Position \<Rightarrow> DOD_Position" where
  "dod_move t vel pos = pos\<lparr>
     dp_x := fadd (dp_x pos) (fmul (fmul (dv_x vel) (dv_speed vel)) t),
     dp_y := fadd (dp_y pos) (fmul (fmul (dv_y vel) (dv_speed vel)) t),
     dp_z := fadd (dp_z pos) (fmul (fmul (dv_z vel) (dv_speed vel)) t)\<rparr>"

text \<open>
  One cycle of each layout. The objects lie on the heap at their addresses, the vector holds the
  shuffled pointers; the two component arrays are indexed by entity, \<open>visit\<close> is the order of the view.
\<close>

definition oop_cycle :: "fl \<Rightarrow> nat list \<Rightarrow> OOP_Entity list \<Rightarrow> OOP_Entity list" where
  "oop_cycle t ptrs heap = fold (\<lambda>p h. h[p := OOP_Entity_Update t (h ! p)]) ptrs heap"

definition dod_cycle :: "fl \<Rightarrow> nat list \<Rightarrow> DOD_Velocity list \<Rightarrow> DOD_Position list \<Rightarrow> DOD_Position list" where
  "dod_cycle t visit vels poss = fold (\<lambda>e ps. ps[e := dod_move t (vels ! e) (ps ! e)]) visit poss"

record layout_report =
  lr_heap :: "OOP_Entity list"
  lr_positions :: "DOD_Position list"
  lr_oop_per_tick :: fl
  lr_dod_per_tick :: fl
  lr_ratio :: fl

text \<open>The run over any population and number of cycles, with the two measured times in milliseconds.\<close>

definition run_layouts ::
  "nat \<Rightarrow> nat \<Rightarrow> fl \<Rightarrow> (nat list \<Rightarrow> nat list) \<Rightarrow> nat list \<Rightarrow> int \<Rightarrow> int \<Rightarrow> layout_report" where
  "run_layouts ENTITY_COUNT LOOP_COUNT t shuffle visit duration_oop duration_dod =
     (let oop_entities = shuffle [0..<ENTITY_COUNT];
          heap = replicate ENTITY_COUNT OOP_Entity_default;
          poss = replicate ENTITY_COUNT \<lparr>dp_x = Fin 0, dp_y = Fin 0, dp_z = Fin 0\<rparr>;
          vels = replicate ENTITY_COUNT \<lparr>dv_x = Fin 1, dv_y = Fin 0, dv_z = Fin 1, dv_speed = Fin 2\<rparr>
      in \<lparr>lr_heap = (oop_cycle t oop_entities ^^ LOOP_COUNT) heap,
          lr_positions = (dod_cycle t visit vels ^^ LOOP_COUNT) poss,
          lr_oop_per_tick = fl_div F64 (rnd F64 (of_int duration_oop)) (rnd F64 (of_nat LOOP_COUNT)),
          lr_dod_per_tick = fl_div F64 (rnd F64 (of_int duration_dod)) (rnd F64 (of_nat LOOP_COUNT)),
          lr_ratio = printed_ratio duration_oop duration_dod\<rparr>)"

definition RunScenarioDODvsOOP ::
  "(nat list \<Rightarrow> nat list) \<Rightarrow> nat list \<Rightarrow> int \<Rightarrow> int \<Rightarrow> layout_report" where
  "RunScenarioDODvsOOP = run_layouts 50000 100 (flit 0.05)"

section \<open>Scenario 2: the two queues under load\<close>

record DummyCommand =
  dc_player_id :: u32
  dc_target_x :: fl
  dc_target_z :: fl
  dc_text :: string

definition dummy_command :: DummyCommand where
  "dummy_command = \<lparr>dc_player_id = 1, dc_target_x = Fin 10, dc_target_z = Fin 20,
     dc_text = ''dummy payload data''\<rparr>"

text \<open>
  The main loop over one queue: what arrived before the drain and the nanoseconds the drain took,
  for each tick. The result lists what the buffer held before each \<open>clear\<close>, the queue and the sum.
\<close>

fun mutex_loop :: "('a list \<times> int) list \<Rightarrow> 'a list \<Rightarrow> 'a list \<Rightarrow> int \<Rightarrow> 'a list list \<times> 'a list \<times> int" where
  "mutex_loop [] buffer q accum = ([], q, accum)"
| "mutex_loop ((arrivals, ns) # ticks) buffer q accum =
     (let q = fold SimpleMutexQueue_Push arrivals q;
          d = SimpleMutexQueue_Drain buffer q;
          r = mutex_loop ticks [] (snd d) (accum + ns)
      in (fst d # fst r, snd r))"

fun swap_loop :: "('a list \<times> int) list \<Rightarrow> 'a list \<Rightarrow> 'a list \<Rightarrow> int \<Rightarrow> 'a list list \<times> 'a list \<times> int" where
  "swap_loop [] buffer q accum = ([], q, accum)"
| "swap_loop ((arrivals, ns) # ticks) buffer q accum =
     (let q = fold DoubleBufferedQueue_Push arrivals q;
          d = DoubleBufferedQueue_Swap buffer q;
          r = swap_loop ticks [] (snd d) (accum + ns)
      in (fst d # fst r, snd r))"

definition load_ticks :: "(nat \<Rightarrow> nat) \<Rightarrow> (nat \<Rightarrow> int) \<Rightarrow> (DummyCommand list \<times> int) list" where
  "load_ticks arrivals ns = List.map (\<lambda>tick. (replicate (arrivals tick) dummy_command, ns tick)) [0..<200]"

record queue_report =
  qr_mutex_batches :: "DummyCommand list list"
  qr_mutex_us :: int
  qr_mutex_ns :: int
  qr_swap_batches :: "DummyCommand list list"
  qr_swap_us :: int
  qr_swap_ns :: int
  qr_ratio :: fl

text \<open>
  The first block declares a \<open>duration_mtx\<close> of its own for the time of the whole loop, and assigns
  the sum to it after printing; the ratio is computed from the outer one, which is still 0.
\<close>

definition RunScenarioLockSwapVsMutex ::
  "(nat \<Rightarrow> nat) \<Rightarrow> (nat \<Rightarrow> int) \<Rightarrow> int \<Rightarrow> (nat \<Rightarrow> nat) \<Rightarrow> (nat \<Rightarrow> int) \<Rightarrow> int \<Rightarrow> queue_report" where
  "RunScenarioLockSwapVsMutex arrivals1 ns1 us1 arrivals2 ns2 us2 =
     (let duration_mtx = 0;
          (batches1, q1, accum_time_mtx_ns) = mutex_loop (load_ticks arrivals1 ns1) [] [] 0;
          (batches2, q2, accum_time_swap_ns) = swap_loop (load_ticks arrivals2 ns2) [] [] 0
      in \<lparr>qr_mutex_batches = batches1, qr_mutex_us = us1, qr_mutex_ns = accum_time_mtx_ns,
          qr_swap_batches = batches2, qr_swap_us = us2, qr_swap_ns = accum_time_swap_ns,
          qr_ratio = printed_ratio duration_mtx accum_time_swap_ns\<rparr>)"

section \<open>Scenario 3: a slow server, waited for and not waited for\<close>

definition ms :: int where "ms = 1000000"

definition GE_DELAY_MS :: int where "GE_DELAY_MS = 500"
definition TICKS :: nat where "TICKS = 10"

text \<open>A tick that waits for the answer; the sleep takes \<open>over\<close> nanoseconds longer than asked for.\<close>

definition sync_tick :: "int \<Rightarrow> int" where
  "sync_tick over = (GE_DELAY_MS * ms + over) div ms"

definition delayed_response :: DummyCommand where
  "delayed_response = \<lparr>dc_player_id = 999, dc_target_x = Fin 1, dc_target_z = Fin 1,
     dc_text = ''Very Delayed gRPC Response Data''\<rparr>"

text \<open>The nanoseconds a tick works, sleeps longer than asked for, and needs to read the clock again.\<close>

record tick_times =
  tt_work :: int
  tt_over :: int
  tt_tail :: int

record shown_tick =
  st_received :: "nat option"
  st_total :: int
  st_elapsed :: int

definition async_frame :: "tick_times \<Rightarrow> int \<times> int" where
  "async_frame t =
     (let elapsed = tt_work t div ms;
          sleep_time = 50 - elapsed;
          slept = (if 0 < sleep_time then sleep_time * ms + tt_over t else 0)
      in (elapsed, (tt_work t + slept + tt_tail t) div ms))"

fun async_loop ::
  "(nat \<times> tick_times) list \<Rightarrow> DummyCommand list \<Rightarrow> DummyCommand list \<Rightarrow> int \<Rightarrow> shown_tick list \<times> int" where
  "async_loop [] local_buffer q frame_sum = ([], frame_sum)"
| "async_loop ((arrivals, t) # ticks) local_buffer q frame_sum =
     (let q = fold DoubleBufferedQueue_Push (replicate arrivals delayed_response) q;
          (local_buffer, q) = DoubleBufferedQueue_Swap local_buffer q;
          received = (if local_buffer \<noteq> [] then Some (length local_buffer) else None);
          local_buffer = (if local_buffer \<noteq> [] then [] else local_buffer);
          (elapsed, total_tick_time) = async_frame t;
          r = async_loop ticks local_buffer q (frame_sum + total_tick_time)
      in (\<lparr>st_received = received, st_total = total_tick_time, st_elapsed = elapsed\<rparr> # fst r, snd r))"

record isolation_report =
  ir_sync :: "int list"
  ir_sync_total :: int
  ir_async :: "shown_tick list"
  ir_async_total :: int
  ir_sync_average :: fl
  ir_async_average :: fl
  ir_ratio :: fl

definition RunScenarioIOThreadIsolation ::
  "(nat \<Rightarrow> int) \<Rightarrow> (nat \<Rightarrow> nat) \<Rightarrow> (nat \<Rightarrow> tick_times) \<Rightarrow> isolation_report" where
  "RunScenarioIOThreadIsolation over arrivals tick_time =
     (let sync = List.map (\<lambda>tick. sync_tick (over tick)) [1..<Suc TICKS];
          total_sync = sum_list sync;
          (async, total_async) = async_loop (List.map (\<lambda>tick. (arrivals tick, tick_time tick)) [1..<Suc TICKS]) [] [] 0
      in \<lparr>ir_sync = sync, ir_sync_total = total_sync, ir_async = async, ir_async_total = total_async,
          ir_sync_average = fl_div F64 (rnd F64 (of_int total_sync)) (rnd F64 (of_nat TICKS)),
          ir_async_average = fl_div F64 (rnd F64 (of_int total_async)) (rnd F64 (of_nat TICKS)),
          ir_ratio = printed_ratio total_sync total_async\<rparr>)"

section \<open>Scenario 4: many searches\<close>

record path_counts =
  total_success :: int
  total_partial :: int
  total_failed :: int

definition count_result :: "PathResult \<Rightarrow> path_counts \<Rightarrow> path_counts" where
  "count_result res c =
     (if pr_is_failed res then c\<lparr>total_failed := total_failed c + 1\<rparr>
      else if pr_is_partial res then c\<lparr>total_partial := total_partial c + 1\<rparr>
      else c\<lparr>total_success := total_success c + 1\<rparr>)"

text \<open>The map with its cache, the search arrays of the thread, the counters; \<open>dis\<close> is the sequence of
  random coordinates, four for each search.\<close>

type_synonym batch = "grid_map \<times> search_scratch \<times> path_counts"

definition search_one :: "tie_break \<Rightarrow> (nat \<Rightarrow> fl) \<Rightarrow> nat \<Rightarrow> batch \<Rightarrow> batch option" where
  "search_one tie dis k b =
     (case b of (m, s, c) \<Rightarrow>
        map_option (\<lambda>(res, m', s'). (m', s', count_result res c))
          (FindPath tie default_iterations m s
             (dis (4 * k)) (dis (4 * k + 1)) (dis (4 * k + 2)) (dis (4 * k + 3))))"

definition search_batch :: "tie_break \<Rightarrow> (nat \<Rightarrow> fl) \<Rightarrow> nat \<Rightarrow> nat \<Rightarrow> batch \<Rightarrow> batch option" where
  "search_batch tie dis agents step = foldM (\<lambda>i. search_one tie dis (step * agents + i)) [0..<agents]"

definition no_counts :: path_counts where
  "no_counts = \<lparr>total_success = 0, total_partial = 0, total_failed = 0\<rparr>"

definition search_scale ::
  "tie_break \<Rightarrow> (nat \<Rightarrow> nat \<Rightarrow> fl) \<Rightarrow> nat \<Rightarrow> grid_map \<times> search_scratch \<times> (nat \<times> path_counts) list \<Rightarrow>
     (grid_map \<times> search_scratch \<times> (nat \<times> path_counts) list) option" where
  "search_scale tie dis agents st =
     (case st of (m, s, lines_out) \<Rightarrow>
        map_option (\<lambda>(m', s', c). (m', s', lines_out @ [(agents, c)]))
          (foldM (search_batch tie (dis agents) agents) [0..<100] (ClearCache m, s, no_counts)))"

definition RunScenarioScalability :: "tie_break \<Rightarrow> (nat \<Rightarrow> nat \<Rightarrow> fl) \<Rightarrow> (nat \<times> path_counts) list option" where
  "RunScenarioScalability tie dis =
     map_option (\<lambda>(m, s, lines_out). lines_out)
       (foldM (search_scale tie dis) [10, 100, 500] (GridMap_init, fresh_scratch, []))"

section \<open>Both layouts compute the same positions\<close>

definition oop_position :: "OOP_Entity \<Rightarrow> DOD_Position" where
  "oop_position e = \<lparr>dp_x = oe_x e, dp_y = oe_y e, dp_z = oe_z e\<rparr>"

definition oop_velocity :: "OOP_Entity \<Rightarrow> DOD_Velocity" where
  "oop_velocity e = \<lparr>dv_x = oe_vx e, dv_y = oe_vy e, dv_z = oe_vz e, dv_speed = oe_speed e\<rparr>"

lemma oop_position_Update: "oop_position (OOP_Entity_Update t e) = dod_move t (oop_velocity e) (oop_position e)"
  by (simp add: oop_position_def oop_velocity_def OOP_Entity_Update_def dod_move_def)

lemma oop_velocity_Update [simp]: "oop_velocity (OOP_Entity_Update t e) = oop_velocity e"
  by (simp add: oop_velocity_def OOP_Entity_Update_def)

text \<open>A visit of every index once, in any order, is a map.\<close>

lemma fold_update_length: "length (fold (\<lambda>i h. h[i := f i (h ! i)]) is h) = length h"
  by (induction "is" arbitrary: h) auto

lemma fold_update_nth:
  "distinct is \<Longrightarrow> j < length h \<Longrightarrow>
     fold (\<lambda>i h. h[i := f i (h ! i)]) is h ! j = (if j \<in> set is then f j (h ! j) else h ! j)"
proof (induction "is" arbitrary: h)
  case (Cons i "is")
  then show ?case by (cases "i = j") auto
qed simp

lemma oop_cycle_map:
  assumes "distinct ptrs" "set ptrs = {..<length heap}"
  shows "oop_cycle t ptrs heap = List.map (OOP_Entity_Update t) heap"
  using assms by (intro nth_equalityI)
    (simp_all add: oop_cycle_def fold_update_length [where f = "\<lambda>_. OOP_Entity_Update t"]
      fold_update_nth [where f = "\<lambda>_. OOP_Entity_Update t"])

lemma dod_cycle_map:
  assumes "distinct visit" "set visit = {..<length poss}" "length vels = length poss"
  shows "dod_cycle t visit vels poss = map2 (dod_move t) vels poss"
  using assms by (intro nth_equalityI)
    (simp_all add: dod_cycle_def fold_update_length [where f = "\<lambda>e. dod_move t (vels ! e)"]
      fold_update_nth [where f = "\<lambda>e. dod_move t (vels ! e)"])

lemma cycles_agree:
  assumes "distinct ptrs" "set ptrs = {..<length heap}" "distinct visit" "set visit = {..<length heap}"
  shows "List.map oop_position ((oop_cycle t ptrs ^^ n) heap) =
      (dod_cycle t visit (List.map oop_velocity heap) ^^ n) (List.map oop_position heap) \<and>
    List.map oop_velocity ((oop_cycle t ptrs ^^ n) heap) = List.map oop_velocity heap \<and>
    length ((oop_cycle t ptrs ^^ n) heap) = length heap"
proof (induction n)
  case (Suc n)
  let ?h = "(oop_cycle t ptrs ^^ n) heap"
  have len: "length ?h = length heap" using Suc by blast
  have o: "oop_cycle t ptrs ?h = List.map (OOP_Entity_Update t) ?h"
    using assms len by (intro oop_cycle_map) simp_all
  have "dod_cycle t visit (List.map oop_velocity ?h) (List.map oop_position ?h) =
      map2 (dod_move t) (List.map oop_velocity ?h) (List.map oop_position ?h)"
    using assms len by (intro dod_cycle_map) simp_all
  also have "\<dots> = List.map oop_position (oop_cycle t ptrs ?h)"
    by (intro nth_equalityI) (simp_all add: o oop_position_Update)
  finally show ?case using Suc o by (simp add: o_def)
qed simp

text \<open>However the pointers are shuffled and the entities visited, the two runs end with the same
  position for every entity: the benchmark compares the same work.\<close>

lemma layouts_agree:
  assumes "distinct (shuffle [0..<n])" "set (shuffle [0..<n]) = {..<n}" "distinct visit" "set visit = {..<n}"
  shows "List.map oop_position (lr_heap (run_layouts n loops t shuffle visit d1 d2)) =
    lr_positions (run_layouts n loops t shuffle visit d1 d2)"
  using assms cycles_agree [of "shuffle [0..<n]" "replicate n OOP_Entity_default" visit loops t]
  by (simp add: run_layouts_def Let_def oop_position_def oop_velocity_def OOP_Entity_default_def)

section \<open>The loops over the two queues\<close>

lemma fold_push: "fold SimpleMutexQueue_Push xs q = q @ xs" "fold DoubleBufferedQueue_Push xs q = q @ xs"
  by (induction xs arbitrary: q) (simp_all add: SimpleMutexQueue_Push_def DoubleBufferedQueue_Push_def)

lemma swap_loop_mutex_loop: "swap_loop ticks [] q accum = mutex_loop ticks [] q accum"
  by (induction ticks "[] :: 'a list" q accum rule: mutex_loop.induct)
    (simp_all add: Let_def fold_push SimpleMutexQueue_Drain_def DoubleBufferedQueue_Swap_def)

lemma mutex_loop_ticks:
  "ticks \<noteq> [] \<Longrightarrow> mutex_loop ticks [] q accum =
     ((q @ fst (hd ticks)) # List.map fst (tl ticks), [], accum + sum_list (List.map snd ticks))"
proof (induction ticks arbitrary: q accum)
  case (Cons tick ticks)
  then show ?case
    by (cases tick; cases ticks) (simp_all add: Let_def fold_push SimpleMutexQueue_Drain_def)
qed simp

lemma rnd_ge_one: "repr F 1 \<Longrightarrow> 1 \<le> x \<Longrightarrow> rnd F x = PInf \<or> (\<exists>y. rnd F x = Fin y \<and> y \<noteq> 0)"
  using rnd_rat_mono [of 1 x F] rnd_rat_exact [of F 1] zero_less_power_int [of "2 :: rat" "emax F"]
  by (auto simp: rnd_def Let_def)

lemma printed_ratio_0: "printed_ratio 0 n = Fin 0"
proof -
  have one: "repr F64 1" using repr_of_int [of 1 F64] by simp
  have z: "rnd F64 0 = Fin 0" using rnd_of_int [of 0 F64] by simp
  have div: "fl_div F64 (Fin 0) (rnd F64 (of_int m)) = Fin 0" if "m \<noteq> 0" for m
  proof (cases "0 < m")
    case True
    then have "1 \<le> (of_int m :: rat)" by simp
    from rnd_ge_one [OF one this] z show ?thesis by auto
  next
    case False
    with that have "1 \<le> - m" by linarith
    then have "of_int 1 \<le> (of_int (- m) :: rat)" by (simp only: of_int_le_iff)
    then have "1 \<le> (of_int (- m) :: rat)" by simp
    then have "rnd_rat F64 (of_int m) \<noteq> 0"
      using rnd_rat_mono [of 1 "of_int (- m)" F64] rnd_rat_exact [OF one] rnd_rat_minus [of F64 "of_int m"] by simp
    then have "rnd F64 (of_int m) \<in> {PInf, NInf} \<or> (\<exists>y. rnd F64 (of_int m) = Fin y \<and> y \<noteq> 0)"
      by (auto simp: rnd_def Let_def)
    with z show ?thesis by auto
  qed
  show ?thesis using div [of "if n \<noteq> 0 then n else 1"] z by (simp add: printed_ratio_def)
qed

text \<open>Each tick of both loops finds exactly what arrived since the tick before, in order; the
  printed ratio is 0, whatever was measured.\<close>

lemma lock_swap_report:
  "let r = RunScenarioLockSwapVsMutex arrivals1 ns1 us1 arrivals2 ns2 us2 in
     qr_mutex_batches r = List.map (\<lambda>tick. replicate (arrivals1 tick) dummy_command) [0..<200] \<and>
     qr_swap_batches r = List.map (\<lambda>tick. replicate (arrivals2 tick) dummy_command) [0..<200] \<and>
     qr_mutex_ns r = sum_list (List.map ns1 [0..<200]) \<and> qr_swap_ns r = sum_list (List.map ns2 [0..<200]) \<and>
     qr_ratio r = Fin 0"
proof -
  have "load_ticks a n \<noteq> []" for a n by (simp add: load_ticks_def)
  note loop = mutex_loop_ticks [OF this]
  have ends: "fst (hd (load_ticks a n)) # List.map fst (tl (load_ticks a n)) = List.map fst (load_ticks a n)" for a n
    by (cases "load_ticks a n") (simp_all add: load_ticks_def)
  have parts: "List.map fst (load_ticks a n) = List.map (\<lambda>tick. replicate (a tick) dummy_command) [0..<200]"
    "List.map snd (load_ticks a n) = List.map n [0..<200]" for a n
    by (simp_all add: load_ticks_def o_def)
  show ?thesis
    by (simp add: RunScenarioLockSwapVsMutex_def swap_loop_mutex_loop loop ends parts printed_ratio_0)
qed

section \<open>What a tick that does not wait takes\<close>

lemma async_frame_bounds:
  assumes "0 \<le> tt_work t" "tt_work t < 50 * ms" "0 \<le> tt_over t" "0 \<le> tt_tail t" "tt_over t + tt_tail t < ms"
  shows "50 \<le> snd (async_frame t) \<and> snd (async_frame t) \<le> 51"
proof -
  define e r where "e = tt_work t div ms" and "r = tt_work t mod ms"
  have w: "tt_work t = e * ms + r" by (simp add: e_def r_def)
  have e: "e < 50" using assms(2) by (simp add: e_def ms_def)
  have r: "0 \<le> r" "r < ms" by (simp_all add: r_def ms_def)
  have "snd (async_frame t) = (tt_work t + (50 - e) * ms + tt_over t + tt_tail t) div ms"
    using e by (simp add: async_frame_def Let_def e_def [symmetric] add.assoc)
  also have "tt_work t + (50 - e) * ms + tt_over t + tt_tail t = r + tt_over t + tt_tail t + ms * 50"
    by (simp add: w algebra_simps)
  also have "(r + tt_over t + tt_tail t + ms * 50) div ms = 50 + (r + tt_over t + tt_tail t) div ms" by (simp add: ms_def)
  finally have f: "snd (async_frame t) = 50 + (r + tt_over t + tt_tail t) div ms" .
  have "0 \<le> r + tt_over t + tt_tail t" "r + tt_over t + tt_tail t < 2 * ms" using r assms by linarith+
  then have "0 \<le> (r + tt_over t + tt_tail t) div ms" "(r + tt_over t + tt_tail t) div ms < 2"
    by (simp_all add: ms_def pos_imp_zdiv_nonneg_iff)
  with f show ?thesis by linarith
qed

definition shown_tick_of :: "nat \<Rightarrow> tick_times \<Rightarrow> shown_tick" where
  "shown_tick_of k t = \<lparr>st_received = (if k = 0 then None else Some k),
     st_total = snd (async_frame t), st_elapsed = fst (async_frame t)\<rparr>"

lemma async_loop_step:
  "async_loop ((k, t) # ticks) [] [] n =
     (let r = async_loop ticks [] [] (n + snd (async_frame t)) in (shown_tick_of k t # fst r, snd r))"
  by (cases "async_frame t")
    (simp del: fold_replicate add: Let_def fold_push DoubleBufferedQueue_Swap_def shown_tick_of_def)

lemma async_loop_shown:
  "async_loop ticks [] [] n = (List.map (\<lambda>(k, t). shown_tick_of k t) ticks,
     n + sum_list (List.map (\<lambda>(k, t). snd (async_frame t)) ticks))"
proof (induction ticks arbitrary: n)
  case (Cons tick ticks)
  then show ?case by (cases tick) (simp del: async_loop.simps add: async_loop_step Let_def)
qed simp

text \<open>While a tick that waits for the server takes at least half a second, one that works less than
  50 milliseconds and is woken in time takes 50 or 51; every answer is reported by the next tick.\<close>

lemma isolation_report_bounds:
  assumes "\<And>tick. 0 \<le> over tick"
    and "\<And>tick. 0 \<le> tt_work (tick_time tick) \<and> tt_work (tick_time tick) < 50 * ms \<and> 0 \<le> tt_over (tick_time tick) \<and>
      0 \<le> tt_tail (tick_time tick) \<and> tt_over (tick_time tick) + tt_tail (tick_time tick) < ms"
  shows "let r = RunScenarioIOThreadIsolation over arrivals tick_time in
    5000 \<le> ir_sync_total r \<and> 500 \<le> ir_async_total r \<and> ir_async_total r \<le> 510"
proof -
  have s: "500 \<le> sync_tick (over k)" for k
    using assms(1) [of k] by (simp add: sync_tick_def GE_DELAY_MS_def ms_def)
  have a: "50 \<le> snd (async_frame (tick_time k)) \<and> snd (async_frame (tick_time k)) \<le> 51" for k
    using assms(2) by (intro async_frame_bounds) blast+
  define ks where "ks = [1..<Suc TICKS]"
  have ks: "ks = [1, 2, 3, 4, 5, 6, 7, 8, 9, 10]" by (simp add: ks_def TICKS_def upt_rec)
  have r: "ir_sync_total (RunScenarioIOThreadIsolation over arrivals tick_time) = (\<Sum>k\<leftarrow>ks. sync_tick (over k))"
    "ir_async_total (RunScenarioIOThreadIsolation over arrivals tick_time) =
      (\<Sum>k\<leftarrow>ks. snd (async_frame (tick_time k)))"
    by (simp_all only: RunScenarioIOThreadIsolation_def ks_def [symmetric] Let_def case_prod_beta
        isolation_report.simps async_loop_shown map_map o_def fst_conv snd_conv add_0)
  have "5000 \<le> (\<Sum>k\<leftarrow>ks. sync_tick (over k))"
    using s [of 1] s [of 2] s [of 3] s [of 4] s [of 5] s [of 6] s [of 7] s [of 8] s [of 9] s [of 10] by (simp add: ks)
  moreover have "500 \<le> (\<Sum>k\<leftarrow>ks. snd (async_frame (tick_time k))) \<and>
      (\<Sum>k\<leftarrow>ks. snd (async_frame (tick_time k))) \<le> 510"
    using a [of 1] a [of 2] a [of 3] a [of 4] a [of 5] a [of 6] a [of 7] a [of 8] a [of 9] a [of 10] by (simp add: ks)
  ultimately show ?thesis by (simp add: r Let_def)
qed

section \<open>Every search is counted once\<close>

lemma foldM_counted:
  assumes "I (k :: nat) s" and "\<And>j x t. x \<in> set xs \<Longrightarrow> I j t \<Longrightarrow> \<exists>t'. f x t = Some t' \<and> I (j + d) t'"
  shows "\<exists>s'. foldM f xs s = Some s' \<and> I (k + d * length xs) s'"
  using assms
proof (induction xs arbitrary: k s)
  case (Cons x xs)
  obtain t where t: "f x s = Some t" "I (k + d) t" using Cons.prems by (meson list.set_intros(1))
  from Cons.IH [OF t(2)] Cons.prems(2) obtain s' where "foldM f xs t = Some s'" "I (k + d + d * length xs) s'"
    by (meson list.set_intros(2))
  with t show ?case by (simp add: algebra_simps)
qed simp

definition counted :: "nat \<Rightarrow> batch \<Rightarrow> bool" where
  "counted k b \<longleftrightarrow> (case b of (m, s, c) \<Rightarrow> cache_ok m \<and> scratch_ok s \<and>
     0 \<le> total_success c \<and> 0 \<le> total_partial c \<and> 0 \<le> total_failed c \<and>
     total_success c + total_partial c + total_failed c = int k)"

lemma search_one_counted: "counted k b \<Longrightarrow> \<exists>b'. search_one tie dis j b = Some b' \<and> counted (k + 1) b'"
proof (cases b)
  case (fields m s c)
  assume "counted k b"
  with fields have ok: "cache_ok m" "scratch_ok s" by (simp_all add: counted_def)
  have "0 \<le> default_iterations" "default_iterations \<le> 4000000" by simp_all
  with FindPath_ok [OF ok, of default_iterations tie "dis (4 * j)" "dis (4 * j + 1)" "dis (4 * j + 2)" "dis (4 * j + 3)"]
  obtain r m' s' where "FindPath tie default_iterations m s (dis (4 * j)) (dis (4 * j + 1)) (dis (4 * j + 2))
      (dis (4 * j + 3)) = Some (r, m', s')" "cache_ok m'" "scratch_ok s'" by blast
  with \<open>counted k b\<close> fields show ?thesis by (simp add: search_one_def counted_def count_result_def)
qed

lemma search_scale_counted:
  assumes "scratch_ok s"
  shows "\<exists>m' s' c. search_scale tie dis agents (m, s, lines_out) = Some (m', s', lines_out @ [(agents, c)]) \<and> scratch_ok s' \<and>
    total_success c + total_partial c + total_failed c = int (100 * agents)"
proof -
  have one: "\<exists>b'. search_batch tie (dis agents) agents step b = Some b' \<and> counted (k + agents) b'"
    if "counted k b" for step k b
    using foldM_counted [of counted k b "[0..<agents]" "\<lambda>i. search_one tie (dis agents) (step * agents + i)" 1,
        OF that search_one_counted] by (simp add: search_batch_def)
  have "counted 0 (ClearCache m, s, no_counts)" using assms by (simp add: counted_def no_counts_def)
  from foldM_counted [of counted 0 _ "[0..<100]" "search_batch tie (dis agents) agents" agents, OF this one]
  obtain b where "foldM (search_batch tie (dis agents) agents) [0..<100] (ClearCache m, s, no_counts) = Some b"
    "counted (100 * agents) b" by (auto simp: mult.commute)
  then show ?thesis by (cases b) (simp add: search_scale_def counted_def)
qed

text \<open>Whatever the random coordinates, every search of the three scales returns and is counted once.\<close>

lemma scalability_counts:
  "\<exists>c1 c2 c3. RunScenarioScalability tie dis = Some [(10, c1), (100, c2), (500, c3)] \<and>
     total_success c1 + total_partial c1 + total_failed c1 = 1000 \<and>
     total_success c2 + total_partial c2 + total_failed c2 = 10000 \<and>
     total_success c3 + total_partial c3 + total_failed c3 = 50000"
proof -
  note scale = search_scale_counted [of _ tie dis]
  from scale [OF fresh_scratch_ok, of 10 GridMap_init "[]"] obtain m1 s1 c1 where
    1: "search_scale tie dis 10 (GridMap_init, fresh_scratch, []) = Some (m1, s1, [(10, c1)])" "scratch_ok s1"
    "total_success c1 + total_partial c1 + total_failed c1 = 1000" by auto
  from scale [OF 1(2), of 100 m1 "[(10, c1)]"] obtain m2 s2 c2 where
    2: "search_scale tie dis 100 (m1, s1, [(10, c1)]) = Some (m2, s2, [(10, c1), (100, c2)])" "scratch_ok s2"
    "total_success c2 + total_partial c2 + total_failed c2 = 10000" by auto
  from scale [OF 2(2), of 500 m2 "[(10, c1), (100, c2)]"] obtain m3 s3 c3 where
    3: "search_scale tie dis 500 (m2, s2, [(10, c1), (100, c2)]) = Some (m3, s3, [(10, c1), (100, c2), (500, c3)])"
    "total_success c3 + total_partial c3 + total_failed c3 = 50000" by auto
  from 1 2 3 show ?thesis by (simp add: RunScenarioScalability_def)
qed

text \<open>The benchmark runs exactly when the first argument asks for it; anything but a number as
  the second ends the program with an exception.\<close>

lemma benchmark_dispatch:
  "RunBenchmarkIfRequested [prog] = Inr (False, None)"
  "RunBenchmarkIfRequested [prog, ''--benchmark''] = Inr (True, Some DODvsOOP)"
  "RunBenchmarkIfRequested [prog, ''--benchmark'', ''4''] = Inr (True, Some Scalability)"
  "RunBenchmarkIfRequested [prog, ''--benchmark'', ''fast''] = Inl (StoiError ''fast'')"
  "RunBenchmarkIfRequested [prog, ''--bench''] = Inr (False, None)"
  by (simp_all add: RunBenchmarkIfRequested_def scenario_of_def stoi_def is_space_def is_digit_def number_def)

end
